theory Spec2Isabelle
  imports Main
begin

section \<open>Values handled by the metadata resolver\<close>

text \<open>
  The resolver of \<^verbatim>\<open>metadata_resolver.ts\<close> works on values of TypeScript type
  \<^verbatim>\<open>any\<close> and tells them apart with \<^verbatim>\<open>instanceof\<close>, \<^verbatim>\<open>isArray\<close>, \<^verbatim>\<open>isString\<close>
  and \<^verbatim>\<open>isBlank\<close>. The type \<open>val\<close> has one constructor for each shape the code
  distinguishes; \<open>VOther\<close> stands for every other value. A class or function is
  \<open>VType\<close> with a number for its identity, a forward reference is \<open>VFwd\<close> of the
  value it resolves to, and \<open>VNull\<close> is \<^verbatim>\<open>null\<close> as well as \<^verbatim>\<open>undefined\<close>. Keys of
  the caches are compared as values. \<open>AnimationGroupMetadata\<close> and
  \<open>AnimationSequenceMetadata\<close> are the two subclasses of \<^verbatim>\<open>AnimationWithStepsMetadata\<close>
  the code names; \<open>AnimationWithStepsMetadata\<close> is an instance of that class which is
  neither, held as what reading its \<^verbatim>\<open>steps\<close> gives: the steps, or the exception the
  getter throws.
\<close>

datatype error = BaseException string | TypeError string

datatype 'v Provider = Provider
  (p_token: 'v) (p_useClass: 'v) (p_useValue: 'v) (p_useExisting: 'v) (p_useFactory: 'v)
  (p_dependencies: "'v list option") (p_multi: bool)

datatype 'v QueryMetadata = QueryMetadata
  (q_selector: 'v) (q_isVarBindingQuery: bool) (q_varBindings: "string list")
  (q_first: bool) (q_descendants: bool) (q_read: 'v) (q_isViewQuery: bool)

datatype val =
    VNull
  | VStr string
  | VArr "val list"
  | VType nat
  | VStatic string string
  | VFwd val
  | VProvider "val Provider"
  | HostMetadata
  | SelfMetadata
  | SkipSelfMetadata
  | OptionalMetadata
  | AttributeMetadata string
  | VQuery "val QueryMetadata"
  | InjectMetadata val
  | AnimationStyleMetadata val val
  | AnimationKeyframesSequenceMetadata "(val \<times> val) option list"
  | AnimationAnimateMetadata val val
  | AnimationGroupMetadata "val list"
  | AnimationSequenceMetadata "val list"
  | AnimationWithStepsMetadata "error + val list"
  | AnimationStateDeclarationMetadata val "(val \<times> val) option"
  | AnimationStateTransitionMetadata val val
  | VOther nat

fun message :: "error \<Rightarrow> string" where
  "message (BaseException m) = m"
| "message (TypeError m) = m"

subsection \<open>The helpers of the language facade\<close>

fun isBlank :: "val \<Rightarrow> bool" where
  "isBlank VNull = True"
| "isBlank _ = False"

definition isPresent :: "val \<Rightarrow> bool" where
  "isPresent v = (\<not> isBlank v)"

fun isString :: "val \<Rightarrow> bool" where
  "isString (VStr _) = True"
| "isString _ = False"

fun isArray :: "val \<Rightarrow> bool" where
  "isArray (VArr _) = True"
| "isArray _ = False"

fun isStaticSymbol :: "val \<Rightarrow> bool" where
  "isStaticSymbol (VStatic _ _) = True"
| "isStaticSymbol _ = False"

text \<open>\<^verbatim>\<open>value instanceof Type\<close>: \<^verbatim>\<open>Type\<close> is the class of functions, and a forward
  reference is a function too.\<close>

fun instanceofType :: "val \<Rightarrow> bool" where
  "instanceofType (VType _) = True"
| "instanceofType (VFwd _) = True"
| "instanceofType _ = False"

text \<open>Modelled from the spec: \<^verbatim>\<open>resolveForwardRef\<close> of \<^verbatim>\<open>@angular/core\<close>, which is not
  part of the sources at hand; a forward reference is a lazily-resolved handle, and
  dereferencing gives the value behind it, any other value is returned as it is.\<close>

fun resolveForwardRef :: "val \<Rightarrow> val" where
  "resolveForwardRef (VFwd v) = v"
| "resolveForwardRef v = v"

definition isValidType :: "val \<Rightarrow> bool" where
  "isValidType v = (isStaticSymbol v \<or> instanceofType v)"

fun staticTypeModuleUrl :: "val \<Rightarrow> string option" where
  "staticTypeModuleUrl (VStatic name filePath) = Some filePath"
| "staticTypeModuleUrl _ = None"

text \<open>\<^verbatim>\<open>Array.prototype.join\<close> on strings.\<close>

fun join :: "string \<Rightarrow> string list \<Rightarrow> string" where
  "join sep [] = []"
| "join sep [x] = x"
| "join sep (x # y # ys) = x @ sep @ join sep (y # ys)"

text \<open>The character \<^verbatim>\<open>'\<close> of the messages.\<close>

definition apostrophe :: string where
  "apostrophe = [CHR 0x27]"

text \<open>The decimal numeral a template string prints for a counter.\<close>

fun string_of_nat :: "nat \<Rightarrow> string" where
  "string_of_nat n =
     (if n < 10 then [''0123456789'' ! n]
      else string_of_nat (n div 10) @ [''0123456789'' ! (n mod 10)])"

declare string_of_nat.simps [simp del]

section \<open>The compile metadata\<close>

record CompileIdentifierMetadata =
  ci_runtime :: val
  ci_name :: "string option"
  ci_moduleUrl :: "string option"

record CompileTokenMetadata =
  ct_value :: val
  ct_identifier :: "CompileIdentifierMetadata option"

record CompileQueryMetadata =
  cq_selectors :: "CompileTokenMetadata list"
  cq_first :: bool
  cq_descendants :: bool
  cq_propertyName :: "string option"
  cq_read :: "CompileTokenMetadata option"

record CompileDiDependencyMetadata =
  dd_isAttribute :: bool
  dd_isHost :: bool
  dd_isSelf :: bool
  dd_isSkipSelf :: bool
  dd_isOptional :: bool
  dd_query :: "CompileQueryMetadata option"
  dd_viewQuery :: "CompileQueryMetadata option"
  dd_token :: CompileTokenMetadata

text \<open>\<^verbatim>\<open>CompileTypeMetadata\<close> and \<^verbatim>\<open>CompileFactoryMetadata\<close> carry the same four
  fields.\<close>

record CompileTypeMetadata =
  ty_name :: string
  ty_moduleUrl :: "string option"
  ty_runtime :: val
  ty_diDeps :: "CompileDiDependencyMetadata list"

datatype cvalue =
    CPrimitive val
  | CArray "cvalue list"
  | CStringMap "(string \<times> cvalue) list"
  | CIdentifier CompileIdentifierMetadata

record CompileProviderMetadata =
  pr_token :: CompileTokenMetadata
  pr_useClass :: "CompileTypeMetadata option"
  pr_useValue :: cvalue
  pr_useFactory :: "CompileTypeMetadata option"
  pr_useExisting :: "CompileTokenMetadata option"
  pr_deps :: "CompileDiDependencyMetadata list option"
  pr_multi :: bool

text \<open>What \<^verbatim>\<open>getProvidersMetadata\<close> returns for one entry: its declared element
  type is \<^verbatim>\<open>CompileProviderMetadata|CompileTypeMetadata|any[]\<close>.\<close>

datatype provider_entry =
    EProvider CompileProviderMetadata
  | EType CompileTypeMetadata
  | EList "provider_entry list"

datatype CompileAnimationMetadata =
    CompileAnimationStyleMetadata val val
  | CompileAnimationKeyframesSequenceMetadata "CompileAnimationMetadata list"
  | CompileAnimationAnimateMetadata val "CompileAnimationMetadata option"
  | CompileAnimationGroupMetadata "CompileAnimationMetadata option list"
  | CompileAnimationSequenceMetadata "CompileAnimationMetadata option list"

datatype CompileAnimationStateMetadata =
    CompileAnimationStateDeclarationMetadata val CompileAnimationMetadata
  | CompileAnimationStateTransitionMetadata val "CompileAnimationMetadata option"

record CompileAnimationEntryMetadata =
  cae_name :: val
  cae_definitions :: "CompileAnimationStateMetadata option list"

record CompileTemplateMetadata =
  tm_encapsulation :: val
  tm_template :: val
  tm_templateUrl :: val
  tm_styles :: val
  tm_styleUrls :: val
  tm_animations :: "CompileAnimationEntryMetadata list option"
  tm_interpolation :: val

record CompileDirectiveMetadata =
  dm_selector :: val
  dm_exportAs :: val
  dm_isComponent :: bool
  dm_type :: CompileTypeMetadata
  dm_template :: "CompileTemplateMetadata option"
  dm_changeDetection :: val
  dm_inputs :: val
  dm_outputs :: val
  dm_host :: val
  dm_lifecycleHooks :: "nat list"
  dm_providers :: "provider_entry list"
  dm_viewProviders :: "provider_entry list"
  dm_queries :: "CompileQueryMetadata list"
  dm_viewQueries :: "CompileQueryMetadata list"
  dm_precompile :: "CompileTypeMetadata list"

record CompilePipeMetadata =
  pm_type :: CompileTypeMetadata
  pm_name :: val
  pm_pure :: val
  pm_lifecycleHooks :: "nat list"

record CompileAppModuleMetadata =
  am_type :: CompileTypeMetadata
  am_providers :: "provider_entry list"
  am_directives :: "CompileTypeMetadata list"
  am_pipes :: "CompileTypeMetadata list"
  am_precompile :: "CompileTypeMetadata list"
  am_modules :: "CompileTypeMetadata list"

section \<open>The annotations the collaborators hand over\<close>

record AnimationEntryMetadata =
  ae_name :: val
  ae_definitions :: "val list"

record ComponentMetadata =
  cmp_changeDetection :: val
  cmp_viewProviders :: "val list option"
  cmp_moduleId :: "string option"
  cmp_precompile :: "val list option"

text \<open>A directive annotation; \<open>dir_component\<close> is present when the annotation is an
  instance of \<^verbatim>\<open>ComponentMetadata\<close>.\<close>

record DirectiveMetadata =
  dir_selector :: val
  dir_exportAs :: val
  dir_inputs :: val
  dir_outputs :: val
  dir_host :: val
  dir_providers :: "val list option"
  dir_queries :: "(string \<times> val QueryMetadata) list option"
  dir_component :: "ComponentMetadata option"

record ViewMetadata =
  vw_encapsulation :: val
  vw_template :: val
  vw_templateUrl :: val
  vw_styles :: val
  vw_styleUrls :: val
  vw_animations :: "AnimationEntryMetadata list option"
  vw_interpolation :: val
  vw_directives :: "val list option"
  vw_pipes :: "val list option"

record PipeMetadata =
  pipe_name :: val
  pipe_pure :: val

record AppModuleMetadata =
  mod_providers :: "val list option"
  mod_directives :: "val list option"
  mod_pipes :: "val list option"
  mod_precompile :: "val list option"
  mod_modules :: "val list option"

datatype annotation = AppModuleAnnotation AppModuleMetadata | OtherAnnotation nat

section \<open>The resolver: its collaborators and its state\<close>

text \<open>
  The functions and constants the resolver imports from other files, and the
  collaborators its constructor receives, are the fields of \<open>env\<close>. A collaborator that
  can throw returns a sum.
\<close>

record env =
  stringify :: "val \<Rightarrow> string"
  stringifyToken :: "CompileTokenMetadata \<Rightarrow> string"
  sanitizeIdentifier :: "string \<Rightarrow> string"
  isProviderLiteral :: "val \<Rightarrow> bool"
  createProvider :: "val \<Rightarrow> val Provider"
  visitValue :: "val \<Rightarrow> (val \<Rightarrow> cvalue) \<Rightarrow> cvalue"
  reflector_annotations :: "val \<Rightarrow> annotation list"
  reflector_parameters :: "val \<Rightarrow> val list option"
  reflector_importUri :: "val \<Rightarrow> string option"
  directiveResolver :: "val \<Rightarrow> error + DirectiveMetadata"
  pipeResolver :: "val \<Rightarrow> error + PipeMetadata"
  viewResolver :: "val \<Rightarrow> error + ViewMetadata"
  assertArrayOfStrings :: "string \<Rightarrow> val \<Rightarrow> error option"
  assertInterpolationSymbols :: "string \<Rightarrow> val \<Rightarrow> error option"
  LIFECYCLE_HOOKS_VALUES :: "nat list"
  hasLifecycleHook :: "nat \<Rightarrow> val \<Rightarrow> bool"
  getUrlScheme :: "string \<Rightarrow> string option"
  MODULE_SUFFIX :: string
  platformDirectives :: "val list option"
  platformPipes :: "val list option"

text \<open>
  The resolver has five fields. The two that name anonymous tokens are kept together
  in \<open>anonymous_names\<close>: the functions below the three caches read and write nothing
  else of the resolver, and take and return these two fields only.
\<close>

record anonymous_names =
  anonymousTypes :: "val \<rightharpoonup> nat"
  anonymousTypeIndex :: nat

record resolver =
  directiveCache :: "val \<rightharpoonup> CompileDirectiveMetadata"
  pipeCache :: "val \<rightharpoonup> CompilePipeMetadata"
  appModuleCache :: "val \<rightharpoonup> CompileAppModuleMetadata"
  anonymous :: anonymous_names

definition new_names :: anonymous_names where
  "new_names = \<lparr>anonymousTypes = Map.empty, anonymousTypeIndex = 0\<rparr>"

definition new_resolver :: resolver where
  "new_resolver = \<lparr>directiveCache = Map.empty, pipeCache = Map.empty,
     appModuleCache = Map.empty, anonymous = new_names\<rparr>"

type_synonym 'a named = "(error + 'a) \<times> anonymous_names"

type_synonym 'a res = "(error + 'a) \<times> resolver"

text \<open>A function on the names, run on the resolver.\<close>

definition withNames ::
  "(anonymous_names \<Rightarrow> 'a \<times> anonymous_names) \<Rightarrow> resolver \<Rightarrow> 'a \<times> resolver" where
  "withNames f s = (case f (anonymous s) of (r, a) \<Rightarrow> (r, s\<lparr>anonymous := a\<rparr>))"

subsection \<open>Names of tokens\<close>

definition anonymous_token :: "nat \<Rightarrow> string" where
  "anonymous_token found = ''anonymous_token_'' @ string_of_nat found @ ''_''"

definition sanitizeTokenName ::
  "env \<Rightarrow> val \<Rightarrow> anonymous_names \<Rightarrow> string \<times> anonymous_names" where
  "sanitizeTokenName E tok s =
     (let identifier = stringify E tok in
      if CHR ''('' \<in> set identifier then
        (case anonymousTypes s tok of
           None \<Rightarrow>
             (sanitizeIdentifier E (anonymous_token (anonymousTypeIndex s)),
              s\<lparr>anonymousTypes := (anonymousTypes s)(tok \<mapsto> anonymousTypeIndex s),
                anonymousTypeIndex := anonymousTypeIndex s + 1\<rparr>)
         | Some found \<Rightarrow> (sanitizeIdentifier E (anonymous_token found), s))
      else (sanitizeIdentifier E identifier, s))"

subsection \<open>Invalidation\<close>

definition clearCacheFor :: "val \<Rightarrow> resolver \<Rightarrow> resolver" where
  "clearCacheFor type s =
     s\<lparr>directiveCache := (directiveCache s)(type := None),
       pipeCache := (pipeCache s)(type := None),
       appModuleCache := (appModuleCache s)(type := None)\<rparr>"

definition clearCache :: "resolver \<Rightarrow> resolver" where
  "clearCache s =
     s\<lparr>directiveCache := Map.empty, pipeCache := Map.empty, appModuleCache := Map.empty\<rparr>"

section \<open>Animations\<close>

text \<open>A \<^verbatim>\<open>map\<close> whose callback can throw stops at the first error.\<close>

fun mapE :: "('a \<Rightarrow> error + 'b) \<Rightarrow> 'a list \<Rightarrow> error + 'b list" where
  "mapE f [] = Inr []"
| "mapE f (x # xs) =
     (case f x of
        Inl e \<Rightarrow> Inl e
      | Inr y \<Rightarrow> (case mapE f xs of Inl e \<Rightarrow> Inl e | Inr ys \<Rightarrow> Inr (y # ys)))"

text \<open>The argument is declared an \<^verbatim>\<open>AnimationStyleMetadata\<close> and held as its two
  fields; reading a field of \<^verbatim>\<open>null\<close> throws.\<close>

fun getAnimationStyleMetadata :: "(val \<times> val) option \<Rightarrow> error + CompileAnimationMetadata" where
  "getAnimationStyleMetadata None = Inl (TypeError ''Cannot read property 'offset' of null'')"
| "getAnimationStyleMetadata (Some (offset, styles)) =
     Inr (CompileAnimationStyleMetadata offset styles)"

fun getAnimationMetadata :: "val \<Rightarrow> error + CompileAnimationMetadata option"
  and getAnimationMetadata_steps :: "val list \<Rightarrow> error + CompileAnimationMetadata option list"
where
  "getAnimationMetadata (AnimationStyleMetadata offset styles) =
     (case getAnimationStyleMetadata (Some (offset, styles)) of
        Inl e \<Rightarrow> Inl e
      | Inr m \<Rightarrow> Inr (Some m))"
| "getAnimationMetadata (AnimationKeyframesSequenceMetadata steps) =
     (case mapE getAnimationStyleMetadata steps of
        Inl e \<Rightarrow> Inl e
      | Inr ms \<Rightarrow> Inr (Some (CompileAnimationKeyframesSequenceMetadata ms)))"
| "getAnimationMetadata (AnimationAnimateMetadata timings styles) =
     (case getAnimationMetadata styles of
        Inl e \<Rightarrow> Inl e
      | Inr animateData \<Rightarrow> Inr (Some (CompileAnimationAnimateMetadata timings animateData)))"
| "getAnimationMetadata (AnimationGroupMetadata steps) =
     (case getAnimationMetadata_steps steps of
        Inl e \<Rightarrow> Inl e
      | Inr ms \<Rightarrow> Inr (Some (CompileAnimationGroupMetadata ms)))"
| "getAnimationMetadata (AnimationSequenceMetadata steps) =
     (case getAnimationMetadata_steps steps of
        Inl e \<Rightarrow> Inl e
      | Inr ms \<Rightarrow> Inr (Some (CompileAnimationSequenceMetadata ms)))"
| "getAnimationMetadata (AnimationWithStepsMetadata (Inl e)) = Inl e"
| "getAnimationMetadata (AnimationWithStepsMetadata (Inr steps)) =
     (case getAnimationMetadata_steps steps of
        Inl e \<Rightarrow> Inl e
      | Inr ms \<Rightarrow> Inr (Some (CompileAnimationSequenceMetadata ms)))"
| "getAnimationMetadata _ = Inr None"
| "getAnimationMetadata_steps [] = Inr []"
| "getAnimationMetadata_steps (step # steps) =
     (case getAnimationMetadata step of
        Inl e \<Rightarrow> Inl e
      | Inr m \<Rightarrow>
          (case getAnimationMetadata_steps steps of
             Inl e \<Rightarrow> Inl e
           | Inr ms \<Rightarrow> Inr (m # ms)))"

fun getAnimationStateMetadata :: "val \<Rightarrow> error + CompileAnimationStateMetadata option" where
  "getAnimationStateMetadata (AnimationStateDeclarationMetadata stateNameExpr styles) =
     (case getAnimationStyleMetadata styles of
        Inl e \<Rightarrow> Inl e
      | Inr m \<Rightarrow> Inr (Some (CompileAnimationStateDeclarationMetadata stateNameExpr m)))"
| "getAnimationStateMetadata (AnimationStateTransitionMetadata stateChangeExpr steps) =
     (case getAnimationMetadata steps of
        Inl e \<Rightarrow> Inl e
      | Inr m \<Rightarrow> Inr (Some (CompileAnimationStateTransitionMetadata stateChangeExpr m)))"
| "getAnimationStateMetadata _ = Inr None"

definition getAnimationEntryMetadata ::
  "AnimationEntryMetadata \<Rightarrow> error + CompileAnimationEntryMetadata" where
  "getAnimationEntryMetadata entry =
     (case mapE getAnimationStateMetadata (ae_definitions entry) of
        Inl e \<Rightarrow> Inl e
      | Inr defs \<Rightarrow> Inr \<lparr>cae_name = ae_name entry, cae_definitions = defs\<rparr>)"

text \<open>The variants the specification enumerates for an animation node, and for a
  state-level node.\<close>

fun animation_variant :: "val \<Rightarrow> bool" where
  "animation_variant (AnimationStyleMetadata _ _) = True"
| "animation_variant (AnimationKeyframesSequenceMetadata _) = True"
| "animation_variant (AnimationAnimateMetadata _ _) = True"
| "animation_variant (AnimationGroupMetadata _) = True"
| "animation_variant (AnimationSequenceMetadata _) = True"
| "animation_variant _ = False"

text \<open>The test \<^verbatim>\<open>value instanceof AnimationWithStepsMetadata\<close>.\<close>

fun instanceofAnimationWithStepsMetadata :: "val \<Rightarrow> bool" where
  "instanceofAnimationWithStepsMetadata (AnimationGroupMetadata _) = True"
| "instanceofAnimationWithStepsMetadata (AnimationSequenceMetadata _) = True"
| "instanceofAnimationWithStepsMetadata (AnimationWithStepsMetadata _) = True"
| "instanceofAnimationWithStepsMetadata _ = False"

fun animation_state_variant :: "val \<Rightarrow> bool" where
  "animation_state_variant (AnimationStateDeclarationMetadata _ _) = True"
| "animation_state_variant (AnimationStateTransitionMetadata _ _) = True"
| "animation_state_variant _ = False"

section \<open>Tokens, queries and dependencies\<close>

text \<open>A \<^verbatim>\<open>map\<close> whose callback changes the state, and one whose callback can throw as
  well: the elements are visited from left to right, and an error ends the visit with
  the state as it is then.\<close>

fun mapS :: "('a \<Rightarrow> 's \<Rightarrow> 'b \<times> 's) \<Rightarrow> 'a list \<Rightarrow> 's \<Rightarrow> 'b list \<times> 's" where
  "mapS f [] s = ([], s)"
| "mapS f (x # xs) s =
     (case f x s of (y, s1) \<Rightarrow> (case mapS f xs s1 of (ys, s2) \<Rightarrow> (y # ys, s2)))"

fun mapM ::
  "('a \<Rightarrow> 's \<Rightarrow> (error + 'b) \<times> 's) \<Rightarrow> 'a list \<Rightarrow> 's \<Rightarrow> (error + 'b list) \<times> 's" where
  "mapM f [] s = (Inr [], s)"
| "mapM f (x # xs) s =
     (case f x s of
        (Inl e, s1) \<Rightarrow> (Inl e, s1)
      | (Inr y, s1) \<Rightarrow>
          (case mapM f xs s1 of
             (Inl e, s2) \<Rightarrow> (Inl e, s2)
           | (Inr ys, s2) \<Rightarrow> (Inr (y # ys), s2)))"

definition getTokenMetadata ::
  "env \<Rightarrow> val \<Rightarrow> anonymous_names \<Rightarrow> CompileTokenMetadata \<times> anonymous_names" where
  "getTokenMetadata E token0 s =
     (let tok = resolveForwardRef token0 in
      if isString tok then (\<lparr>ct_value = tok, ct_identifier = None\<rparr>, s)
      else
        (case sanitizeTokenName E tok s of
           (name, s1) \<Rightarrow>
             (\<lparr>ct_value = VNull,
               ct_identifier = Some \<lparr>ci_runtime = tok, ci_name = Some name,
                 ci_moduleUrl = staticTypeModuleUrl tok\<rparr>\<rparr>, s1)))"

text \<open>A template string prints a missing property name as \<^verbatim>\<open>null\<close>.\<close>

definition show_propertyName :: "string option \<Rightarrow> string" where
  "show_propertyName p = (case p of None \<Rightarrow> ''null'' | Some n \<Rightarrow> n)"

definition selectorNotDefined :: "env \<Rightarrow> string option \<Rightarrow> val \<Rightarrow> error" where
  "selectorNotDefined E propertyName typeOrFunc =
     BaseException
       (''Can't construct a query for the property \"'' @ show_propertyName propertyName
        @ ''\" of \"'' @ stringify E typeOrFunc
        @ ''\" since the query selector wasn't defined.'')"

definition getQueryMetadata ::
  "env \<Rightarrow> val QueryMetadata \<Rightarrow> string option \<Rightarrow> val \<Rightarrow> anonymous_names
     \<Rightarrow> CompileQueryMetadata named" where
  "getQueryMetadata E q propertyName typeOrFunc s =
     (case
        (if q_isVarBindingQuery q then
           (case mapS (\<lambda>varName. getTokenMetadata E (VStr varName)) (q_varBindings q) s of
              (selectors, s1) \<Rightarrow> (Inr selectors, s1))
         else if \<not> isPresent (q_selector q) then
           (Inl (selectorNotDefined E propertyName typeOrFunc), s)
         else
           (case getTokenMetadata E (q_selector q) s of (t, s1) \<Rightarrow> (Inr [t], s1)))
      of
        (Inl e, s1) \<Rightarrow> (Inl e, s1)
      | (Inr selectors, s1) \<Rightarrow>
          (case
             (if isPresent (q_read q) then
                (case getTokenMetadata E (q_read q) s1 of (t, s2) \<Rightarrow> (Some t, s2))
              else (None, s1))
           of (read, s2) \<Rightarrow>
             (Inr \<lparr>cq_selectors = selectors, cq_first = q_first q,
                cq_descendants = q_descendants q, cq_propertyName = propertyName,
                cq_read = read\<rparr>, s2)))"

text \<open>The local variables of the callback of \<^verbatim>\<open>getDependenciesMetadata\<close>, and what
  one entry of a parameter's qualifier list does to them.\<close>

record param_scan =
  ps_isAttribute :: bool
  ps_isHost :: bool
  ps_isSelf :: bool
  ps_isSkipSelf :: bool
  ps_isOptional :: bool
  ps_query :: "val QueryMetadata option"
  ps_viewQuery :: "val QueryMetadata option"
  ps_token :: val

definition scan_init :: param_scan where
  "scan_init = \<lparr>ps_isAttribute = False, ps_isHost = False, ps_isSelf = False,
     ps_isSkipSelf = False, ps_isOptional = False, ps_query = None, ps_viewQuery = None,
     ps_token = VNull\<rparr>"

fun scanEntry :: "val \<Rightarrow> param_scan \<Rightarrow> param_scan" where
  "scanEntry HostMetadata a = a\<lparr>ps_isHost := True\<rparr>"
| "scanEntry SelfMetadata a = a\<lparr>ps_isSelf := True\<rparr>"
| "scanEntry SkipSelfMetadata a = a\<lparr>ps_isSkipSelf := True\<rparr>"
| "scanEntry OptionalMetadata a = a\<lparr>ps_isOptional := True\<rparr>"
| "scanEntry (AttributeMetadata attributeName) a =
     a\<lparr>ps_isAttribute := True, ps_token := VStr attributeName\<rparr>"
| "scanEntry (VQuery q) a =
     (if q_isViewQuery q then a\<lparr>ps_viewQuery := Some q\<rparr> else a\<lparr>ps_query := Some q\<rparr>)"
| "scanEntry (InjectMetadata tok) a = a\<lparr>ps_token := tok\<rparr>"
| "scanEntry paramEntry a =
     (if isValidType paramEntry \<and> isBlank (ps_token a) then a\<lparr>ps_token := paramEntry\<rparr>
      else a)"

fun scanParam :: "val \<Rightarrow> param_scan" where
  "scanParam (VArr entries) = fold scanEntry entries scan_init"
| "scanParam param = scan_init\<lparr>ps_token := param\<rparr>"

definition optQueryMetadata ::
  "env \<Rightarrow> val QueryMetadata option \<Rightarrow> val \<Rightarrow> anonymous_names
     \<Rightarrow> CompileQueryMetadata option named" where
  "optQueryMetadata E query typeOrFunc s =
     (case query of
        None \<Rightarrow> (Inr None, s)
      | Some q \<Rightarrow>
          (case getQueryMetadata E q None typeOrFunc s of
             (Inl e, s1) \<Rightarrow> (Inl e, s1)
           | (Inr m, s1) \<Rightarrow> (Inr (Some m), s1)))"

text \<open>The callback of \<^verbatim>\<open>params.map\<close>: \<open>None\<close> is the \<^verbatim>\<open>null\<close> it returns when it sets
  \<^verbatim>\<open>hasUnknownDeps\<close>.\<close>

definition dependencyMetadata ::
  "env \<Rightarrow> val \<Rightarrow> val \<Rightarrow> anonymous_names
     \<Rightarrow> CompileDiDependencyMetadata option named" where
  "dependencyMetadata E typeOrFunc param s =
     (let a = scanParam param in
      if isBlank (ps_token a) then (Inr None, s)
      else
        (case optQueryMetadata E (ps_query a) typeOrFunc s of
           (Inl e, s1) \<Rightarrow> (Inl e, s1)
         | (Inr query, s1) \<Rightarrow>
             (case optQueryMetadata E (ps_viewQuery a) typeOrFunc s1 of
                (Inl e, s2) \<Rightarrow> (Inl e, s2)
              | (Inr viewQuery, s2) \<Rightarrow>
                  (case getTokenMetadata E (ps_token a) s2 of
                     (tok, s3) \<Rightarrow>
                       (Inr (Some \<lparr>dd_isAttribute = ps_isAttribute a, dd_isHost = ps_isHost a,
                          dd_isSelf = ps_isSelf a, dd_isSkipSelf = ps_isSkipSelf a,
                          dd_isOptional = ps_isOptional a, dd_query = query,
                          dd_viewQuery = viewQuery, dd_token = tok\<rparr>), s3)))))"

definition depsTokens :: "env \<Rightarrow> CompileDiDependencyMetadata option list \<Rightarrow> string" where
  "depsTokens E dependenciesMetadata =
     join '', ''
       (map (\<lambda>dep. case dep of Some d \<Rightarrow> stringifyToken E (dd_token d) | None \<Rightarrow> ''?'')
          dependenciesMetadata)"

text \<open>The exception \<^verbatim>\<open>getDependenciesMetadata\<close> throws when it has unknown
  dependencies.\<close>

definition cannotResolveParameters ::
  "env \<Rightarrow> val \<Rightarrow> CompileDiDependencyMetadata option list \<Rightarrow> error" where
  "cannotResolveParameters E typeOrFunc dependenciesMetadata =
     BaseException
       (''Can't resolve all parameters for '' @ stringify E typeOrFunc @ '': (''
        @ depsTokens E dependenciesMetadata @ '').'')"

text \<open>The parameters \<^verbatim>\<open>getDependenciesMetadata\<close> works on: the dependencies it is
  given, or else the parameters the reflector knows, or else none.\<close>

definition dependencyParams :: "env \<Rightarrow> val \<Rightarrow> val list option \<Rightarrow> val list" where
  "dependencyParams E typeOrFunc dependencies =
     (case dependencies of
        Some d \<Rightarrow> d
      | None \<Rightarrow> (case reflector_parameters E typeOrFunc of Some ps \<Rightarrow> ps | None \<Rightarrow> []))"

definition getDependenciesMetadata ::
  "env \<Rightarrow> val \<Rightarrow> val list option \<Rightarrow> anonymous_names
     \<Rightarrow> CompileDiDependencyMetadata list named" where
  "getDependenciesMetadata E typeOrFunc dependencies s =
     (let params = dependencyParams E typeOrFunc dependencies in
      case mapM (dependencyMetadata E typeOrFunc) params s of
        (Inl e, s1) \<Rightarrow> (Inl e, s1)
      | (Inr dependenciesMetadata, s1) \<Rightarrow>
          (let hasUnknownDeps = (None \<in> set dependenciesMetadata) in
           if hasUnknownDeps then
             (Inl (cannotResolveParameters E typeOrFunc dependenciesMetadata), s1)
           else (Inr (map the dependenciesMetadata), s1)))"

definition getTypeMetadata ::
  "env \<Rightarrow> val \<Rightarrow> string option \<Rightarrow> val list option \<Rightarrow> anonymous_names
     \<Rightarrow> CompileTypeMetadata named" where
  "getTypeMetadata E type0 moduleUrl dependencies s =
     (let type = resolveForwardRef type0 in
      case sanitizeTokenName E type s of
        (name, s1) \<Rightarrow>
          (case getDependenciesMetadata E type dependencies s1 of
             (Inl e, s2) \<Rightarrow> (Inl e, s2)
           | (Inr deps, s2) \<Rightarrow>
               (Inr \<lparr>ty_name = name, ty_moduleUrl = moduleUrl, ty_runtime = type,
                  ty_diDeps = deps\<rparr>, s2)))"

definition getFactoryMetadata ::
  "env \<Rightarrow> val \<Rightarrow> string option \<Rightarrow> val list option \<Rightarrow> anonymous_names
     \<Rightarrow> CompileTypeMetadata named" where
  "getFactoryMetadata E factory0 moduleUrl dependencies s =
     (let factory = resolveForwardRef factory0 in
      case sanitizeTokenName E factory s of
        (name, s1) \<Rightarrow>
          (case getDependenciesMetadata E factory dependencies s1 of
             (Inl e, s2) \<Rightarrow> (Inl e, s2)
           | (Inr deps, s2) \<Rightarrow>
               (Inr \<lparr>ty_name = name, ty_moduleUrl = moduleUrl, ty_runtime = factory,
                  ty_diDeps = deps\<rparr>, s2)))"

section \<open>Providers\<close>

text \<open>\<^verbatim>\<open>_CompileValueConverter.visitOther\<close>, and \<^verbatim>\<open>convertToCompileValue\<close>, which
  hands it to the \<^verbatim>\<open>visitValue\<close> of the utilities.\<close>

fun visitOther :: "val \<Rightarrow> cvalue" where
  "visitOther (VStatic name filePath) =
     CIdentifier \<lparr>ci_runtime = VNull, ci_name = Some name, ci_moduleUrl = Some filePath\<rparr>"
| "visitOther v = CIdentifier \<lparr>ci_runtime = v, ci_name = None, ci_moduleUrl = None\<rparr>"

definition convertToCompileValue :: "env \<Rightarrow> val \<Rightarrow> cvalue" where
  "convertToCompileValue E v = visitValue E v visitOther"

definition getProviderMetadata ::
  "env \<Rightarrow> val Provider \<Rightarrow> anonymous_names \<Rightarrow> CompileProviderMetadata named" where
  "getProviderMetadata E provider s =
     (case
        (if isPresent (p_useClass provider) then
           (case getTypeMetadata E (p_useClass provider)
                   (staticTypeModuleUrl (p_useClass provider)) (p_dependencies provider) s of
              (Inl e, s1) \<Rightarrow> (Inl e, s1)
            | (Inr t, s1) \<Rightarrow> (Inr (Some t, None, Some (ty_diDeps t)), s1))
         else if isPresent (p_useFactory provider) then
           (case getFactoryMetadata E (p_useFactory provider)
                   (staticTypeModuleUrl (p_useFactory provider)) (p_dependencies provider) s of
              (Inl e, s1) \<Rightarrow> (Inl e, s1)
            | (Inr f, s1) \<Rightarrow> (Inr (None, Some f, Some (ty_diDeps f)), s1))
         else (Inr (None, None, None), s))
      of
        (Inl e, s1) \<Rightarrow> (Inl e, s1)
      | (Inr (compileTypeMetadata, compileFactoryMetadata, compileDeps), s1) \<Rightarrow>
          (case getTokenMetadata E (p_token provider) s1 of
             (tok, s2) \<Rightarrow>
               (case
                  (if isPresent (p_useExisting provider) then
                     (case getTokenMetadata E (p_useExisting provider) s2 of
                        (t, s3) \<Rightarrow> (Some t, s3))
                   else (None, s2))
                of (useExisting, s3) \<Rightarrow>
                  (Inr \<lparr>pr_token = tok, pr_useClass = compileTypeMetadata,
                     pr_useValue = convertToCompileValue E (p_useValue provider),
                     pr_useFactory = compileFactoryMetadata, pr_useExisting = useExisting,
                     pr_deps = compileDeps, pr_multi = p_multi provider\<rparr>, s3))))"

definition invalidProvider :: "env \<Rightarrow> val \<Rightarrow> error" where
  "invalidProvider E provider =
     BaseException
       (''Invalid provider - only instances of Provider and Type are allowed, got: ''
        @ stringify E provider)"

lemma size_resolveForwardRef: "size (resolveForwardRef v) \<le> size v"
  by (cases v) simp_all

lemma size_resolveForwardRef_less: "2 * size (resolveForwardRef v) < Suc (2 * size v + n)"
  using size_resolveForwardRef [of v] by arith

text \<open>
  \<open>getProvidersMetadata\<close> maps its callback over the list; \<open>providerMetadata\<close> is the
  callback, and \<open>resolvedProviderMetadata\<close> is what the callback does once it has
  dereferenced the entry.
\<close>

function (sequential) getProvidersMetadata ::
    "env \<Rightarrow> val list \<Rightarrow> anonymous_names \<Rightarrow> provider_entry list named"
  and providerMetadata :: "env \<Rightarrow> val \<Rightarrow> anonymous_names \<Rightarrow> provider_entry named"
  and resolvedProviderMetadata :: "env \<Rightarrow> val \<Rightarrow> anonymous_names \<Rightarrow> provider_entry named"
where
  "getProvidersMetadata E [] s = (Inr [], s)"
| "getProvidersMetadata E (provider # providers) s =
     (case providerMetadata E provider s of
        (Inl e, s1) \<Rightarrow> (Inl e, s1)
      | (Inr m, s1) \<Rightarrow>
          (case getProvidersMetadata E providers s1 of
             (Inl e, s2) \<Rightarrow> (Inl e, s2)
           | (Inr ms, s2) \<Rightarrow> (Inr (m # ms), s2)))"
| "providerMetadata E provider s = resolvedProviderMetadata E (resolveForwardRef provider) s"
| "resolvedProviderMetadata E (VArr providers) s =
     (case getProvidersMetadata E providers s of
        (Inl e, s1) \<Rightarrow> (Inl e, s1)
      | (Inr ms, s1) \<Rightarrow> (Inr (EList ms), s1))"
| "resolvedProviderMetadata E (VProvider provider) s =
     (case getProviderMetadata E provider s of
        (Inl e, s1) \<Rightarrow> (Inl e, s1)
      | (Inr m, s1) \<Rightarrow> (Inr (EProvider m), s1))"
| "resolvedProviderMetadata E provider s =
     (if isProviderLiteral E provider then
        (case getProviderMetadata E (createProvider E provider) s of
           (Inl e, s1) \<Rightarrow> (Inl e, s1)
         | (Inr m, s1) \<Rightarrow> (Inr (EProvider m), s1))
      else if isValidType provider then
        (case getTypeMetadata E provider (staticTypeModuleUrl provider) None s of
           (Inl e, s1) \<Rightarrow> (Inl e, s1)
         | (Inr t, s1) \<Rightarrow> (Inr (EType t), s1))
      else (Inl (invalidProvider E provider), s))"
  by pat_completeness auto
termination
  by (relation "measure (\<lambda>x. case x of
        Inl (E, ps, s) \<Rightarrow> 2 * size_list size ps
      | Inr (Inl (E, p, s)) \<Rightarrow> 2 * size p + 1
      | Inr (Inr (E, p, s)) \<Rightarrow> 2 * size p)")
    (auto simp: le_imp_less_Suc size_resolveForwardRef)

text \<open>\<open>flattenArray tree out\<close> is the array \<^verbatim>\<open>out\<close> after the call; \<open>flattenItem\<close> is
  the body of its loop after the item is dereferenced.\<close>

function (sequential) flattenArray :: "val list \<Rightarrow> val list \<Rightarrow> val list"
  and flattenItem :: "val \<Rightarrow> val list \<Rightarrow> val list"
where
  "flattenArray [] out = out"
| "flattenArray (x # tree) out = flattenArray tree (flattenItem (resolveForwardRef x) out)"
| "flattenItem (VArr tree) out = flattenArray tree out"
| "flattenItem item out = out @ [item]"
  by pat_completeness auto
termination
  by (relation "measure (\<lambda>x. case x of
        Inl (tree, out) \<Rightarrow> 2 * size_list size tree
      | Inr (item, out) \<Rightarrow> 2 * size item + 1)")
    (auto simp: size_resolveForwardRef_less)

text \<open>\<open>verifyNonBlankProviders\<close> returns the tree it was given, or throws.\<close>

definition verifyNonBlankProviders ::
  "env \<Rightarrow> val \<Rightarrow> val list \<Rightarrow> string \<Rightarrow> error + val list" where
  "verifyNonBlankProviders E directiveType providersTree providersType =
     (let flat = flattenArray providersTree [] in
      if \<exists>x \<in> set flat. isBlank x then
        Inl (BaseException
          (''One or more of '' @ providersType @ '' for \"'' @ stringify E directiveType
           @ ''\" were not defined: [''
           @ join '', '' (map (\<lambda>provider. if isBlank provider then ''?''
                                       else stringify E provider) flat)
           @ ''].''))
      else Inr providersTree)"

section \<open>Directives and pipes\<close>

text \<open>Sequencing of steps that can throw: \<open>bindR\<close> runs the second step on the value
  and the state the first one left, unless the first one threw.\<close>

definition bindR ::
  "(error + 'a) \<times> 's \<Rightarrow> ('a \<Rightarrow> 's \<Rightarrow> (error + 'b) \<times> 's) \<Rightarrow> (error + 'b) \<times> 's" where
  "bindR r f = (case r of (Inl e, s) \<Rightarrow> (Inl e, s) | (Inr x, s) \<Rightarrow> f x s)"

definition throwing :: "error + 'a \<Rightarrow> 's \<Rightarrow> (error + 'a) \<times> 's" where
  "throwing r s = (r, s)"

definition asserting :: "error option \<Rightarrow> 's \<Rightarrow> (error + unit) \<times> 's" where
  "asserting r s = (case r of Some e \<Rightarrow> (Inl e, s) | None \<Rightarrow> (Inr (), s))"

text \<open>\<^verbatim>\<open>flattenArray(types).map(type => this.getTypeMetadata(type,
  staticTypeModuleUrl(type)))\<close>, as the directive and the module paths write it.\<close>

definition typesMetadata ::
  "env \<Rightarrow> val list \<Rightarrow> anonymous_names \<Rightarrow> CompileTypeMetadata list named" where
  "typesMetadata E types s =
     mapM (\<lambda>type. getTypeMetadata E type (staticTypeModuleUrl type) None)
       (flattenArray types []) s"

text \<open>\<^verbatim>\<open>this.getProvidersMetadata(verifyNonBlankProviders(directiveType, tree,
  providersType))\<close>.\<close>

definition verifiedProvidersMetadata ::
  "env \<Rightarrow> val \<Rightarrow> val list \<Rightarrow> string \<Rightarrow> anonymous_names
     \<Rightarrow> provider_entry list named" where
  "verifiedProvidersMetadata E directiveType tree providersType s =
     bindR (throwing (verifyNonBlankProviders E directiveType tree providersType) s)
       (getProvidersMetadata E)"

definition getQueriesMetadata ::
  "env \<Rightarrow> (string \<times> val QueryMetadata) list \<Rightarrow> bool \<Rightarrow> val \<Rightarrow> anonymous_names
     \<Rightarrow> CompileQueryMetadata list named" where
  "getQueriesMetadata E queries isViewQuery directiveType s =
     mapM (\<lambda>(propertyName, query). getQueryMetadata E query (Some propertyName) directiveType)
       (filter (\<lambda>(propertyName, query). q_isViewQuery query = isViewQuery) queries) s"

definition componentModuleUrl :: "env \<Rightarrow> val \<Rightarrow> ComponentMetadata \<Rightarrow> string option" where
  "componentModuleUrl E type cmpMetadata =
     (if isStaticSymbol type then staticTypeModuleUrl type
      else
        (case cmp_moduleId cmpMetadata of
           Some moduleId \<Rightarrow>
             (case getUrlScheme E moduleId of
                Some scheme \<Rightarrow>
                  (if length scheme > 0 then Some moduleId
                   else Some (''package:'' @ moduleId @ MODULE_SUFFIX E))
              | None \<Rightarrow> Some (''package:'' @ moduleId @ MODULE_SUFFIX E))
         | None \<Rightarrow> reflector_importUri E type))"

text \<open>What \<^verbatim>\<open>getDirectiveMetadata\<close> does for a component annotation: the template, the
  view providers, the module URL and the precompiled types.\<close>

definition componentMetadata ::
  "env \<Rightarrow> val \<Rightarrow> ComponentMetadata \<Rightarrow> anonymous_names
     \<Rightarrow> (CompileTemplateMetadata \<times> provider_entry list \<times> string option
          \<times> CompileTypeMetadata list) named" where
  "componentMetadata E directiveType cmpMeta s =
     bindR (throwing (viewResolver E directiveType) s) (\<lambda>viewMeta s.
     bindR (asserting (assertArrayOfStrings E ''styles'' (vw_styles viewMeta)) s) (\<lambda>_ s.
     bindR (asserting (assertInterpolationSymbols E ''interpolation''
              (vw_interpolation viewMeta)) s) (\<lambda>_ s.
     bindR (throwing
              (case vw_animations viewMeta of
                 None \<Rightarrow> Inr None
               | Some entries \<Rightarrow>
                   (case mapE getAnimationEntryMetadata entries of
                      Inl e \<Rightarrow> Inl e
                    | Inr animations \<Rightarrow> Inr (Some animations))) s) (\<lambda>animations s.
     bindR (asserting (assertArrayOfStrings E ''styles'' (vw_styles viewMeta)) s) (\<lambda>_ s.
     bindR (asserting (assertArrayOfStrings E ''styleUrls'' (vw_styleUrls viewMeta)) s) (\<lambda>_ s.
     bindR (case cmp_viewProviders cmpMeta of
              None \<Rightarrow> (Inr [], s)
            | Some tree \<Rightarrow> verifiedProvidersMetadata E directiveType tree ''viewProviders'' s)
       (\<lambda>viewProviders s.
     bindR (case cmp_precompile cmpMeta of
              None \<Rightarrow> (Inr [], s)
            | Some types \<Rightarrow> typesMetadata E types s) (\<lambda>precompileTypes s.
     (Inr (\<lparr>tm_encapsulation = vw_encapsulation viewMeta, tm_template = vw_template viewMeta,
             tm_templateUrl = vw_templateUrl viewMeta, tm_styles = vw_styles viewMeta,
             tm_styleUrls = vw_styleUrls viewMeta, tm_animations = animations,
             tm_interpolation = vw_interpolation viewMeta\<rparr>,
           viewProviders, componentModuleUrl E directiveType cmpMeta, precompileTypes),
      s)))))))))"

text \<open>The body of \<^verbatim>\<open>if (isBlank(meta))\<close> in \<^verbatim>\<open>getDirectiveMetadata\<close>, up to the
  metadata it builds; \<open>directiveType\<close> is dereferenced already.\<close>

definition loadDirectiveMetadata ::
  "env \<Rightarrow> val \<Rightarrow> anonymous_names \<Rightarrow> CompileDirectiveMetadata named" where
  "loadDirectiveMetadata E directiveType s =
     bindR (throwing (directiveResolver E directiveType) s) (\<lambda>dirMeta s.
     bindR (case dir_component dirMeta of
              None \<Rightarrow> (Inr (None, VNull, [], staticTypeModuleUrl directiveType, []), s)
            | Some cmpMeta \<Rightarrow>
                bindR (componentMetadata E directiveType cmpMeta s)
                  (\<lambda>(templateMeta, viewProviders, moduleUrl, precompileTypes) s.
                     (Inr (Some templateMeta, cmp_changeDetection cmpMeta, viewProviders,
                           moduleUrl, precompileTypes), s)))
       (\<lambda>(templateMeta, changeDetectionStrategy, viewProviders, moduleUrl, precompileTypes) s.
     bindR (case dir_providers dirMeta of
              None \<Rightarrow> (Inr [], s)
            | Some tree \<Rightarrow> verifiedProvidersMetadata E directiveType tree ''providers'' s)
       (\<lambda>providers s.
     bindR (case dir_queries dirMeta of
              None \<Rightarrow> (Inr [], s)
            | Some qs \<Rightarrow> getQueriesMetadata E qs False directiveType s) (\<lambda>queries s.
     bindR (case dir_queries dirMeta of
              None \<Rightarrow> (Inr [], s)
            | Some qs \<Rightarrow> getQueriesMetadata E qs True directiveType s) (\<lambda>viewQueries s.
     bindR (getTypeMetadata E directiveType moduleUrl None s) (\<lambda>type s.
     (Inr \<lparr>dm_selector = dir_selector dirMeta, dm_exportAs = dir_exportAs dirMeta,
           dm_isComponent = (templateMeta \<noteq> None), dm_type = type,
           dm_template = templateMeta, dm_changeDetection = changeDetectionStrategy,
           dm_inputs = dir_inputs dirMeta, dm_outputs = dir_outputs dirMeta,
           dm_host = dir_host dirMeta,
           dm_lifecycleHooks =
             filter (\<lambda>hook. hasLifecycleHook E hook directiveType) (LIFECYCLE_HOOKS_VALUES E),
           dm_providers = providers, dm_viewProviders = viewProviders,
           dm_queries = queries, dm_viewQueries = viewQueries,
           dm_precompile = precompileTypes\<rparr>, s)))))))"

definition getDirectiveMetadata ::
  "env \<Rightarrow> val \<Rightarrow> resolver \<Rightarrow> CompileDirectiveMetadata res" where
  "getDirectiveMetadata E directiveType0 s =
     (let directiveType = resolveForwardRef directiveType0 in
      case directiveCache s directiveType of
        Some meta \<Rightarrow> (Inr meta, s)
      | None \<Rightarrow>
          (case withNames (loadDirectiveMetadata E directiveType) s of
             (Inl e, s1) \<Rightarrow> (Inl e, s1)
           | (Inr meta, s1) \<Rightarrow>
               (Inr meta, s1\<lparr>directiveCache := (directiveCache s1)(directiveType \<mapsto> meta)\<rparr>)))"

text \<open>\<^verbatim>\<open>String.prototype.indexOf\<close>: the first position at which \<open>sub\<close> starts, or
  \<open>-1\<close>.\<close>

fun indexOf_from :: "string \<Rightarrow> string \<Rightarrow> int \<Rightarrow> int" where
  "indexOf_from [] sub i = (if sub = [] then i else - 1)"
| "indexOf_from (c # cs) sub i =
     (if take (length sub) (c # cs) = sub then i else indexOf_from cs sub (i + 1))"

definition indexOf :: "string \<Rightarrow> string \<Rightarrow> int" where
  "indexOf str sub = indexOf_from str sub 0"

text \<open>The result \<open>None\<close> is the \<^verbatim>\<open>null\<close> the \<^verbatim>\<open>catch\<close> block returns.\<close>

definition maybeGetDirectiveMetadata ::
  "env \<Rightarrow> val \<Rightarrow> resolver \<Rightarrow> CompileDirectiveMetadata option res" where
  "maybeGetDirectiveMetadata E someType s =
     (case getDirectiveMetadata E someType s of
        (Inr meta, s1) \<Rightarrow> (Inr (Some meta), s1)
      | (Inl e, s1) \<Rightarrow>
          (if indexOf (message e) ''No Directive annotation'' \<noteq> - 1 then (Inr None, s1)
           else (Inl e, s1)))"

definition loadPipeMetadata ::
  "env \<Rightarrow> val \<Rightarrow> anonymous_names \<Rightarrow> CompilePipeMetadata named" where
  "loadPipeMetadata E pipeType s =
     bindR (throwing (pipeResolver E pipeType) s) (\<lambda>pipeMeta s.
     bindR (getTypeMetadata E pipeType (staticTypeModuleUrl pipeType) None s) (\<lambda>type s.
     (Inr \<lparr>pm_type = type, pm_name = pipe_name pipeMeta, pm_pure = pipe_pure pipeMeta,
           pm_lifecycleHooks =
             filter (\<lambda>hook. hasLifecycleHook E hook pipeType) (LIFECYCLE_HOOKS_VALUES E)\<rparr>,
      s)))"

definition getPipeMetadata :: "env \<Rightarrow> val \<Rightarrow> resolver \<Rightarrow> CompilePipeMetadata res" where
  "getPipeMetadata E pipeType0 s =
     (let pipeType = resolveForwardRef pipeType0 in
      case pipeCache s pipeType of
        Some meta \<Rightarrow> (Inr meta, s)
      | None \<Rightarrow>
          (case withNames (loadPipeMetadata E pipeType) s of
             (Inl e, s1) \<Rightarrow> (Inl e, s1)
           | (Inr meta, s1) \<Rightarrow>
               (Inr meta, s1\<lparr>pipeCache := (pipeCache s1)(pipeType \<mapsto> meta)\<rparr>)))"

section \<open>Modules\<close>

text \<open>\<^verbatim>\<open>annotations.find(meta => meta instanceof AppModuleMetadata)\<close>.\<close>

fun findAppModuleMetadata :: "annotation list \<Rightarrow> AppModuleMetadata option" where
  "findAppModuleMetadata [] = None"
| "findAppModuleMetadata (AppModuleAnnotation meta # rest) = Some meta"
| "findAppModuleMetadata (OtherAnnotation _ # rest) = findAppModuleMetadata rest"

text \<open>The five local arrays of \<^verbatim>\<open>getAppModuleMetadata\<close>.\<close>

record module_lists =
  ml_providers :: "provider_entry list"
  ml_directives :: "CompileTypeMetadata list"
  ml_pipes :: "CompileTypeMetadata list"
  ml_precompile :: "CompileTypeMetadata list"
  ml_modules :: "CompileTypeMetadata list"

text \<open>What the module declares itself, before its nested modules are visited.\<close>

definition ownModuleLists ::
  "env \<Rightarrow> AppModuleMetadata \<Rightarrow> anonymous_names \<Rightarrow> module_lists named" where
  "ownModuleLists E meta s =
     bindR (case mod_providers meta of
              None \<Rightarrow> (Inr [], s)
            | Some ps \<Rightarrow> getProvidersMetadata E ps s) (\<lambda>providers s.
     bindR (case mod_directives meta of
              None \<Rightarrow> (Inr [], s)
            | Some ts \<Rightarrow> typesMetadata E ts s) (\<lambda>directives s.
     bindR (case mod_pipes meta of
              None \<Rightarrow> (Inr [], s)
            | Some ts \<Rightarrow> typesMetadata E ts s) (\<lambda>pipes s.
     bindR (case mod_precompile meta of
              None \<Rightarrow> (Inr [], s)
            | Some ts \<Rightarrow> typesMetadata E ts s) (\<lambda>precompile s.
     (Inr \<lparr>ml_providers = providers, ml_directives = directives, ml_pipes = pipes,
            ml_precompile = precompile, ml_modules = []\<rparr>, s)))))"

text \<open>The pushes of the \<^verbatim>\<open>forEach\<close> callback for one nested module.\<close>

definition pushModule :: "CompileAppModuleMetadata \<Rightarrow> module_lists \<Rightarrow> module_lists" where
  "pushModule meta l =
     \<lparr>ml_providers = ml_providers l @ am_providers meta,
      ml_directives = ml_directives l @ am_directives meta,
      ml_pipes = ml_pipes l @ am_pipes meta,
      ml_precompile = ml_precompile l @ am_precompile meta,
      ml_modules = ml_modules l @ [am_type meta] @ am_modules meta\<rparr>"

text \<open>\<^verbatim>\<open>flattenArray(meta.modules)\<close>, or nothing when the annotation has no
  \<^verbatim>\<open>modules\<close>.\<close>

definition nestedModuleItems :: "AppModuleMetadata \<Rightarrow> val list" where
  "nestedModuleItems meta =
     (case mod_modules meta of None \<Rightarrow> [] | Some ms \<Rightarrow> flattenArray ms [])"

definition notAppModule :: "env \<Rightarrow> val \<Rightarrow> error" where
  "notAppModule E moduleType =
     BaseException (''Could not compile '' @ apostrophe @ stringify E moduleType
       @ apostrophe @ '' because it is not an AppModule.'')"

text \<open>
  \<^verbatim>\<open>getAppModuleMetadata\<close> follows the nesting of modules, which the reflector gives
  and which can be cyclic. The first argument bounds the depth of the calls: \<open>None\<close>
  says that the bound was reached. \<open>loadAppModuleMetadata\<close> is the body of
  \<^verbatim>\<open>if (isBlank(compileMeta) || !useCache)\<close> up to the metadata it builds, with
  \<open>moduleType\<close> dereferenced already, and \<open>nestedModules\<close> is the \<^verbatim>\<open>forEach\<close> over
  the nested modules.
\<close>

fun getAppModuleMetadata ::
    "nat \<Rightarrow> env \<Rightarrow> val \<Rightarrow> AppModuleMetadata option \<Rightarrow> resolver
       \<Rightarrow> CompileAppModuleMetadata res option"
  and loadAppModuleMetadata ::
    "nat \<Rightarrow> env \<Rightarrow> val \<Rightarrow> AppModuleMetadata option \<Rightarrow> resolver
       \<Rightarrow> CompileAppModuleMetadata res option"
  and nestedModules ::
    "nat \<Rightarrow> env \<Rightarrow> val list \<Rightarrow> module_lists \<Rightarrow> resolver \<Rightarrow> module_lists res option"
where
  "getAppModuleMetadata 0 E moduleType0 meta0 s = None"
| "getAppModuleMetadata (Suc n) E moduleType0 meta0 s =
     (let useCache = (meta0 = None);
          moduleType = resolveForwardRef moduleType0;
          compileMeta = appModuleCache s moduleType
      in
      if compileMeta = None \<or> \<not> useCache then
        (case loadAppModuleMetadata n E moduleType meta0 s of
           None \<Rightarrow> None
         | Some (Inl e, s1) \<Rightarrow> Some (Inl e, s1)
         | Some (Inr compileMeta, s1) \<Rightarrow>
             Some (Inr compileMeta,
               if useCache then
                 s1\<lparr>appModuleCache := (appModuleCache s1)(moduleType \<mapsto> compileMeta)\<rparr>
               else s1))
      else Some (Inr (the compileMeta), s))"
| "loadAppModuleMetadata n E moduleType meta0 s =
     (case (case meta0 of
              Some m \<Rightarrow> Some m
            | None \<Rightarrow> findAppModuleMetadata (reflector_annotations E moduleType)) of
        None \<Rightarrow> Some (Inl (notAppModule E moduleType), s)
      | Some meta \<Rightarrow>
          (case withNames (ownModuleLists E meta) s of
             (Inl e, s1) \<Rightarrow> Some (Inl e, s1)
           | (Inr own, s1) \<Rightarrow>
               (case nestedModules n E (nestedModuleItems meta) own s1 of
                  None \<Rightarrow> None
                | Some (Inl e, s2) \<Rightarrow> Some (Inl e, s2)
                | Some (Inr l, s2) \<Rightarrow>
                    (case withNames (getTypeMetadata E moduleType
                                       (staticTypeModuleUrl moduleType) None) s2 of
                       (Inl e, s3) \<Rightarrow> Some (Inl e, s3)
                     | (Inr type, s3) \<Rightarrow>
                         Some (Inr \<lparr>am_type = type, am_providers = ml_providers l,
                                 am_directives = ml_directives l, am_pipes = ml_pipes l,
                                 am_precompile = ml_precompile l,
                                 am_modules = ml_modules l\<rparr>, s3)))))"
| "nestedModules n E [] l s = Some (Inr l, s)"
| "nestedModules n E (moduleType # rest) l s =
     (case getAppModuleMetadata n E moduleType None s of
        None \<Rightarrow> None
      | Some (Inl e, s1) \<Rightarrow> Some (Inl e, s1)
      | Some (Inr meta, s1) \<Rightarrow> nestedModules n E rest (pushModule meta l) s1)"

declare getAppModuleMetadata.simps(2) [simp del] loadAppModuleMetadata.simps [simp del]

section \<open>The directives and pipes of a view\<close>

definition flattenDirectives :: "ViewMetadata \<Rightarrow> val list option \<Rightarrow> val list" where
  "flattenDirectives view platformDirectives' =
     (let directives =
        (case platformDirectives' of None \<Rightarrow> [] | Some ds \<Rightarrow> flattenArray ds [])
      in case vw_directives view of None \<Rightarrow> directives | Some ds \<Rightarrow> flattenArray ds directives)"

definition flattenPipes :: "ViewMetadata \<Rightarrow> val list option \<Rightarrow> val list" where
  "flattenPipes view platformPipes' =
     (let pipes = (case platformPipes' of None \<Rightarrow> [] | Some ps \<Rightarrow> flattenArray ps [])
      in case vw_pipes view of None \<Rightarrow> pipes | Some ps \<Rightarrow> flattenArray ps pipes)"

definition getViewDirectivesMetadata ::
  "env \<Rightarrow> val \<Rightarrow> resolver \<Rightarrow> CompileDirectiveMetadata list res" where
  "getViewDirectivesMetadata E component s =
     bindR (throwing (viewResolver E component) s) (\<lambda>view s.
       (let directives = flattenDirectives view (platformDirectives E) in
        case find (\<lambda>d. \<not> isValidType d) directives of
          Some d \<Rightarrow>
            (Inl (BaseException
               (''Unexpected directive value '' @ apostrophe @ stringify E d @ apostrophe
                @ '' on the View of component '' @ apostrophe @ stringify E component
                @ apostrophe)), s)
        | None \<Rightarrow> mapM (getDirectiveMetadata E) directives s))"

definition getViewPipesMetadata ::
  "env \<Rightarrow> val \<Rightarrow> resolver \<Rightarrow> CompilePipeMetadata list res" where
  "getViewPipesMetadata E component s =
     bindR (throwing (viewResolver E component) s) (\<lambda>view s.
       (let pipes = flattenPipes view (platformPipes E) in
        case find (\<lambda>p. \<not> isValidType p) pipes of
          Some p \<Rightarrow>
            (Inl (BaseException
               (''Unexpected piped value '' @ apostrophe @ stringify E p @ apostrophe
                @ '' on the View of component '' @ apostrophe @ stringify E component
                @ apostrophe)), s)
        | None \<Rightarrow> mapM (getPipeMetadata E) pipes s))"

section \<open>A sample environment\<close>

text \<open>
  Concrete collaborators, for running the resolver on examples: types below a hundred
  print as \<open>T\<close> and their number, the others print as an anonymous function does;
  identifiers are sanitized by replacing every character that is not a letter, a digit
  or an underscore with an underscore; \<open>VType 1\<close> is annotated as a directive, and
  so is \<open>VType 3\<close>, with a provider that is none.
\<close>

definition word_char :: "char \<Rightarrow> bool" where
  "word_char c =
     (c \<in> set ''abcdefghijklmnopqrstuvwxyzABCDEFGHIJKLMNOPQRSTUVWXYZ0123456789_'')"

definition sample_sanitizeIdentifier :: "string \<Rightarrow> string" where
  "sample_sanitizeIdentifier name = map (\<lambda>c. if word_char c then c else CHR ''_'') name"

fun sample_stringify :: "val \<Rightarrow> string" where
  "sample_stringify (VStr str) = str"
| "sample_stringify (VType n) =
     (if n < 100 then ''T'' @ string_of_nat n else ''function () {}'')"
| "sample_stringify (VStatic name filePath) = name"
| "sample_stringify VNull = ''null''"
| "sample_stringify _ = ''[object Object]''"

definition sample_stringifyToken :: "CompileTokenMetadata \<Rightarrow> string" where
  "sample_stringifyToken t =
     (case ct_identifier t of
        Some i \<Rightarrow> (case ci_name i of Some n \<Rightarrow> n | None \<Rightarrow> ''[object Object]'')
      | None \<Rightarrow> sample_sanitizeIdentifier (sample_stringify (ct_value t)))"

definition sample_directive :: DirectiveMetadata where
  "sample_directive = \<lparr>dir_selector = VStr ''[sample]'', dir_exportAs = VNull,
     dir_inputs = VNull, dir_outputs = VNull, dir_host = VNull, dir_providers = None,
     dir_queries = None, dir_component = None\<rparr>"

text \<open>Sample modules: \<open>VType 10\<close> nests \<open>VType 11\<close>, which nests \<open>VType 12\<close>;
  \<open>VType 13\<close> nests \<open>VType 11\<close> twice and \<open>VType 14\<close> nests \<open>VType 12\<close> twice. The
  last annotation is one for \<open>VType 12\<close> that nests \<open>VType 12\<close> itself; the reflector
  does not know it.\<close>

definition sample_module_A :: AppModuleMetadata where
  "sample_module_A = \<lparr>mod_providers = Some [VType 20], mod_directives = Some [VType 30],
     mod_pipes = None, mod_precompile = None, mod_modules = Some [VType 11]\<rparr>"

definition sample_module_B :: AppModuleMetadata where
  "sample_module_B = \<lparr>mod_providers = Some [VType 21], mod_directives = None,
     mod_pipes = Some [VType 41], mod_precompile = None, mod_modules = Some [VType 12]\<rparr>"

definition sample_module_C :: AppModuleMetadata where
  "sample_module_C = \<lparr>mod_providers = Some [VType 22], mod_directives = None,
     mod_pipes = None, mod_precompile = Some [VType 52], mod_modules = None\<rparr>"

definition sample_module_D :: AppModuleMetadata where
  "sample_module_D = \<lparr>mod_providers = None, mod_directives = None,
     mod_pipes = None, mod_precompile = None, mod_modules = Some [VType 11, VArr [VType 11]]\<rparr>"

definition sample_module_E :: AppModuleMetadata where
  "sample_module_E = \<lparr>mod_providers = Some [VType 24], mod_directives = None,
     mod_pipes = None, mod_precompile = None, mod_modules = Some [VType 12, VArr [VType 12]]\<rparr>"

definition sample_module_self :: AppModuleMetadata where
  "sample_module_self = \<lparr>mod_providers = Some [VType 25], mod_directives = None,
     mod_pipes = None, mod_precompile = None, mod_modules = Some [VType 12]\<rparr>"

definition sample_annotations :: "val \<Rightarrow> annotation list" where
  "sample_annotations v =
     (if v = VType 10 then [OtherAnnotation 0, AppModuleAnnotation sample_module_A]
      else if v = VType 11 then [AppModuleAnnotation sample_module_B]
      else if v = VType 12 then [AppModuleAnnotation sample_module_C]
      else if v = VType 13 then [AppModuleAnnotation sample_module_D]
      else if v = VType 14 then [AppModuleAnnotation sample_module_E]
      else [])"

definition sample_env :: env where
  "sample_env = \<lparr>
     stringify = sample_stringify,
     stringifyToken = sample_stringifyToken,
     sanitizeIdentifier = sample_sanitizeIdentifier,
     isProviderLiteral = (\<lambda>v. False),
     createProvider = (\<lambda>v. Provider VNull VNull VNull VNull VNull None False),
     visitValue = (\<lambda>v f. if isBlank v \<or> isString v then CPrimitive v else f v),
     reflector_annotations = sample_annotations,
     reflector_parameters = (\<lambda>v. None),
     reflector_importUri = (\<lambda>v. None),
     directiveResolver = (\<lambda>v. if v = VType 1 then Inr sample_directive
        else if v = VType 3 then Inr (sample_directive\<lparr>dir_providers := Some [VOther 0]\<rparr>)
        else if v = VType 4 then
          Inr (sample_directive\<lparr>dir_providers := Some [VStr ''No Directive annotation'']\<rparr>)
        else Inl (BaseException (''No Directive annotation found on '' @ sample_stringify v))),
     pipeResolver =
       (\<lambda>v. Inl (BaseException (''No Pipe decorator found on '' @ sample_stringify v))),
     viewResolver =
       (\<lambda>v. Inl (BaseException
          (''No View annotation found on component '' @ sample_stringify v))),
     assertArrayOfStrings = (\<lambda>identifier v. None),
     assertInterpolationSymbols = (\<lambda>identifier v. None),
     LIFECYCLE_HOOKS_VALUES = [0, 1, 2, 3, 4, 5, 6, 7],
     hasLifecycleHook = (\<lambda>hook v. False),
     getUrlScheme = (\<lambda>url. None),
     MODULE_SUFFIX = [],
     platformDirectives = None,
     platformPipes = None\<rparr>"

text \<open>The metadata of a type of the sample environment, which has no parameters.\<close>

definition sample_type_metadata :: "nat \<Rightarrow> CompileTypeMetadata" where
  "sample_type_metadata n =
     \<lparr>ty_name = ''T'' @ string_of_nat n, ty_moduleUrl = None, ty_runtime = VType n,
      ty_diDeps = []\<rparr>"

text \<open>The metadata of the sample directive.\<close>

definition sample_directive_metadata :: CompileDirectiveMetadata where
  "sample_directive_metadata =
     \<lparr>dm_selector = VStr ''[sample]'', dm_exportAs = VNull, dm_isComponent = False,
      dm_type = \<lparr>ty_name = ''T1'', ty_moduleUrl = None, ty_runtime = VType 1,
                  ty_diDeps = []\<rparr>,
      dm_template = None, dm_changeDetection = VNull, dm_inputs = VNull,
      dm_outputs = VNull, dm_host = VNull, dm_lifecycleHooks = [], dm_providers = [],
      dm_viewProviders = [], dm_queries = [], dm_viewQueries = [], dm_precompile = []\<rparr>"

text \<open>The sample environment after every directive annotation has been removed.\<close>

definition no_directives_env :: env where
  "no_directives_env =
     sample_env\<lparr>directiveResolver :=
       (\<lambda>v. Inl (BaseException (''No Directive annotation found on '' @ sample_stringify v)))\<rparr>"

text \<open>Two queries for the examples: one that selects \<open>VType 9\<close>, and one whose selector
  is missing.\<close>

definition sample_query :: "val QueryMetadata" where
  "sample_query = QueryMetadata (VType 9) False [] False False VNull False"

definition unselected_query :: "val QueryMetadata" where
  "unselected_query = QueryMetadata VNull False [] False False VNull False"

section \<open>Notions of the specification\<close>

text \<open>The entries of a result of \<open>getProvidersMetadata\<close> in pre-order, nested lists
  flattened; \<open>isEList\<close> tells a nested list from the other entries.\<close>

fun isEList :: "provider_entry \<Rightarrow> bool" where
  "isEList (EList _) = True"
| "isEList _ = False"

fun flattenEntries :: "provider_entry list \<Rightarrow> provider_entry list"
  and flattenEntry :: "provider_entry \<Rightarrow> provider_entry list"
where
  "flattenEntries [] = []"
| "flattenEntries (m # ms) = flattenEntry m @ flattenEntries ms"
| "flattenEntry (EList ms) = flattenEntries ms"
| "flattenEntry m = [m]"

text \<open>The same flattening applied to a result that may be an error.\<close>

definition lift_entries :: "provider_entry list named \<Rightarrow> provider_entry list named" where
  "lift_entries r = (case r of (Inl e, s') \<Rightarrow> (Inl e, s') | (Inr ms, s') \<Rightarrow> (Inr (flattenEntries ms), s'))"

definition lift_entry :: "provider_entry named \<Rightarrow> provider_entry list named" where
  "lift_entry r = (case r of (Inl e, s') \<Rightarrow> (Inl e, s') | (Inr m, s') \<Rightarrow> (Inr (flattenEntry m), s'))"

text \<open>An entry of the result has the shape of an entry of the input: a nested list for
  an entry that is, once dereferenced, an array, of as many entries, each of the shape
  of its entry; and otherwise no list.\<close>

fun sameShape :: "provider_entry \<Rightarrow> val \<Rightarrow> bool" where
  "sameShape (EList ms) v =
     (case resolveForwardRef v of VArr ps \<Rightarrow> list_all2 sameShape ms ps | _ \<Rightarrow> False)"
| "sameShape m v = (\<not> isArray (resolveForwardRef v))"

text \<open>A query can be constructed when it binds variables or has a selector;
  otherwise \<open>getQueryMetadata\<close> throws.\<close>

definition query_constructible :: "val QueryMetadata \<Rightarrow> bool" where
  "query_constructible q = (q_isVarBindingQuery q \<or> isPresent (q_selector q))"

text \<open>The queries of a resolved parameter can be constructed. Those of an unresolved
  parameter are not looked at.\<close>

definition queries_constructible :: "val \<Rightarrow> bool" where
  "queries_constructible param =
     (\<not> isBlank (ps_token (scanParam param)) \<longrightarrow>
        (\<forall>q. ps_query (scanParam param) = Some q \<or> ps_viewQuery (scanParam param) = Some q
           \<longrightarrow> query_constructible q))"

text \<open>What the message of an unresolved parameter list shows for one parameter, read in
  the names \<open>s\<close>: the token of a resolved parameter, \<^verbatim>\<open>?\<close> for an unresolved one; and
  the exception with the listing of all parameters.\<close>

definition listedParameter :: "env \<Rightarrow> anonymous_names \<Rightarrow> val \<Rightarrow> string" where
  "listedParameter E s param =
     (if isBlank (ps_token (scanParam param)) then ''?''
      else stringifyToken E (fst (getTokenMetadata E (ps_token (scanParam param)) s)))"

definition unresolvedParameters :: "env \<Rightarrow> val \<Rightarrow> val list \<Rightarrow> anonymous_names \<Rightarrow> error" where
  "unresolvedParameters E typeOrFunc params s =
     BaseException
       (''Can't resolve all parameters for '' @ stringify E typeOrFunc @ '': (''
        @ join '', '' (map (listedParameter E s) params) @ '').'')"

text \<open>The message of the error contains the text \<^verbatim>\<open>No Directive annotation\<close>, with
  which the directive resolver reports a type that has no directive annotation.\<close>

definition mentions_no_directive_annotation :: "error \<Rightarrow> bool" where
  "mentions_no_directive_annotation e =
     (\<exists>pre post. message e = pre @ ''No Directive annotation'' @ post)"

subsection \<open>Modules and the modules they nest\<close>

text \<open>What an annotation declares itself. The providers are resolved by
  \<open>getProvidersMetadata\<close>; the types under a key are flattened and resolved from left to
  right; a missing key gives nothing. \<open>declaredLists\<close> resolves the providers, the
  directives, the pipes and the precompiled types, in this order, and
  \<open>declaredModules\<close> are the flattened \<^verbatim>\<open>modules\<close> of the annotation.\<close>

definition declaredProviders ::
  "env \<Rightarrow> val list option \<Rightarrow> anonymous_names \<Rightarrow> provider_entry list named" where
  "declaredProviders E providers a =
     (case providers of None \<Rightarrow> (Inr [], a) | Some ps \<Rightarrow> getProvidersMetadata E ps a)"

definition declaredTypes ::
  "env \<Rightarrow> val list option \<Rightarrow> anonymous_names \<Rightarrow> CompileTypeMetadata list named" where
  "declaredTypes E types a =
     (case types of
        None \<Rightarrow> (Inr [], a)
      | Some ts \<Rightarrow>
          mapM (\<lambda>t. getTypeMetadata E t (staticTypeModuleUrl t) None) (flattenArray ts []) a)"

definition declaredLists ::
  "env \<Rightarrow> AppModuleMetadata \<Rightarrow> anonymous_names \<Rightarrow> module_lists named" where
  "declaredLists E meta a =
     (case declaredProviders E (mod_providers meta) a of
        (Inl e, a1) \<Rightarrow> (Inl e, a1)
      | (Inr providers, a1) \<Rightarrow>
     (case declaredTypes E (mod_directives meta) a1 of
        (Inl e, a2) \<Rightarrow> (Inl e, a2)
      | (Inr directives, a2) \<Rightarrow>
     (case declaredTypes E (mod_pipes meta) a2 of
        (Inl e, a3) \<Rightarrow> (Inl e, a3)
      | (Inr pipes, a3) \<Rightarrow>
     (case declaredTypes E (mod_precompile meta) a3 of
        (Inl e, a4) \<Rightarrow> (Inl e, a4)
      | (Inr precompile, a4) \<Rightarrow>
          (Inr \<lparr>ml_providers = providers, ml_directives = directives, ml_pipes = pipes,
                 ml_precompile = precompile, ml_modules = []\<rparr>, a4)))))"

definition declaredModules :: "AppModuleMetadata \<Rightarrow> val list" where
  "declaredModules meta =
     (case mod_modules meta of None \<Rightarrow> [] | Some ms \<Rightarrow> flattenArray ms [])"

text \<open>The metadata of the nested modules, resolved one after the other without an
  annotation, and the resolver they leave; \<open>None\<close> if one of them is not resolved.\<close>

fun nestedResults ::
  "nat \<Rightarrow> env \<Rightarrow> val list \<Rightarrow> resolver \<Rightarrow> (CompileAppModuleMetadata list \<times> resolver) option" where
  "nestedResults n E [] s = Some ([], s)"
| "nestedResults n E (moduleType # rest) s =
     (case getAppModuleMetadata n E moduleType None s of
        Some (Inr meta, s1) \<Rightarrow>
          (case nestedResults n E rest s1 of
             Some (metas, s2) \<Rightarrow> Some (meta # metas, s2)
           | None \<Rightarrow> None)
      | _ \<Rightarrow> None)"

text \<open>Module flattening: the metadata of a module with the type metadata \<open>type\<close>, the
  declared lists \<open>l\<close> and the metadata \<open>metas\<close> of its nested modules, in their order.
  Each list is what the module declares followed by the lists of the nested modules;
  the modules are, for each nested module, its type followed by its own modules.
  Nothing is removed.\<close>

definition flattenedModule ::
  "CompileTypeMetadata \<Rightarrow> module_lists \<Rightarrow> CompileAppModuleMetadata list
     \<Rightarrow> CompileAppModuleMetadata" where
  "flattenedModule type l metas =
     \<lparr>am_type = type,
      am_providers = ml_providers l @ concat (map am_providers metas),
      am_directives = ml_directives l @ concat (map am_directives metas),
      am_pipes = ml_pipes l @ concat (map am_pipes metas),
      am_precompile = ml_precompile l @ concat (map am_precompile metas),
      am_modules = concat (map (\<lambda>r. am_type r # am_modules r) metas)\<rparr>"

text \<open>The module type \<open>T\<close> is no forward reference, the reflector gives the
  annotation \<open>meta\<close> for it, and the annotation nests the modules \<open>items\<close>.\<close>

definition nests :: "env \<Rightarrow> val \<Rightarrow> AppModuleMetadata \<Rightarrow> val list \<Rightarrow> bool" where
  "nests E T meta items =
     (resolveForwardRef T = T \<and>
      findAppModuleMetadata (reflector_annotations E T) = Some meta \<and>
      declaredModules meta = items)"

text \<open>The nesting below the module type \<open>T\<close>, as the reflector gives it, is less than
  \<open>n\<close> deep.\<close>

fun nestingBelow :: "nat \<Rightarrow> env \<Rightarrow> val \<Rightarrow> bool" where
  "nestingBelow 0 E T = False"
| "nestingBelow (Suc n) E T =
     (case findAppModuleMetadata (reflector_annotations E (resolveForwardRef T)) of
        None \<Rightarrow> True
      | Some meta \<Rightarrow> (\<forall>m \<in> set (declaredModules meta). nestingBelow n E m))"

section \<open>The resolver over time\<close>

text \<open>
  The anonymous names are well formed when every number handed out is below the
  counter and no number is handed out twice. \<open>names_kept a a'\<close> says that \<open>a'\<close> still
  gives every token the number \<open>a\<close> gave it, and is well formed if \<open>a\<close> was.
\<close>

definition names_wf :: "anonymous_names \<Rightarrow> bool" where
  "names_wf a =
     ((\<forall>t n. anonymousTypes a t = Some n \<longrightarrow> n < anonymousTypeIndex a) \<and>
      (\<forall>t u n. anonymousTypes a t = Some n \<and> anonymousTypes a u = Some n \<longrightarrow> t = u))"

definition names_kept :: "anonymous_names \<Rightarrow> anonymous_names \<Rightarrow> bool" where
  "names_kept a a' =
     ((\<forall>t n. anonymousTypes a t = Some n \<longrightarrow> anonymousTypes a' t = Some n) \<and>
      (names_wf a \<longrightarrow> names_wf a'))"

text \<open>The resolver after any number of calls of its methods.\<close>

inductive later :: "env \<Rightarrow> resolver \<Rightarrow> resolver \<Rightarrow> bool" for E :: env and s :: resolver where
  later_now: "later E s s"
| later_clearCache: "later E s s1 \<Longrightarrow> later E s (clearCache s1)"
| later_clearCacheFor: "later E s s1 \<Longrightarrow> later E s (clearCacheFor type s1)"
| later_getDirectiveMetadata:
    "later E s s1 \<Longrightarrow> later E s (snd (getDirectiveMetadata E type s1))"
| later_maybeGetDirectiveMetadata:
    "later E s s1 \<Longrightarrow> later E s (snd (maybeGetDirectiveMetadata E type s1))"
| later_getPipeMetadata:
    "later E s s1 \<Longrightarrow> later E s (snd (getPipeMetadata E type s1))"
| later_getAppModuleMetadata:
    "later E s s1 \<Longrightarrow> getAppModuleMetadata n E type meta s1 = Some (r, s2) \<Longrightarrow> later E s s2"
| later_getViewDirectivesMetadata:
    "later E s s1 \<Longrightarrow> later E s (snd (getViewDirectivesMetadata E type s1))"
| later_getViewPipesMetadata:
    "later E s s1 \<Longrightarrow> later E s (snd (getViewPipesMetadata E type s1))"
| later_getTypeMetadata:
    "later E s s1 \<Longrightarrow>
     later E s (snd (withNames (getTypeMetadata E type moduleUrl dependencies) s1))"
| later_getFactoryMetadata:
    "later E s s1 \<Longrightarrow>
     later E s (snd (withNames (getFactoryMetadata E type moduleUrl dependencies) s1))"
| later_getDependenciesMetadata:
    "later E s s1 \<Longrightarrow>
     later E s (snd (withNames (getDependenciesMetadata E type dependencies) s1))"
| later_getTokenMetadata:
    "later E s s1 \<Longrightarrow> later E s (snd (withNames (getTokenMetadata E tok) s1))"
| later_getProvidersMetadata:
    "later E s s1 \<Longrightarrow> later E s (snd (withNames (getProvidersMetadata E providers) s1))"
| later_getProviderMetadata:
    "later E s s1 \<Longrightarrow> later E s (snd (withNames (getProviderMetadata E provider) s1))"
| later_getQueriesMetadata:
    "later E s s1 \<Longrightarrow>
     later E s (snd (withNames (getQueriesMetadata E queries isViewQuery type) s1))"
| later_getQueryMetadata:
    "later E s s1 \<Longrightarrow>
     later E s (snd (withNames (getQueryMetadata E q propertyName type) s1))"

section \<open>Properties\<close>

subsection \<open>Animation metadata\<close>

lemma getAnimationMetadata_null:
  "(getAnimationMetadata v = Inr None) =
   (\<not> animation_variant v \<and> \<not> instanceofAnimationWithStepsMetadata v)"
proof (cases v)
  case (AnimationWithStepsMetadata r)
  then show ?thesis by (cases r) (simp_all split: sum.splits)
qed (simp_all split: sum.splits)

lemma getAnimationStateMetadata_null:
  "(getAnimationStateMetadata v = Inr None) = (\<not> animation_state_variant v)"
  by (cases v) (simp_all split: sum.splits)

text \<open>
  C10, as amended. Animation metadata resolution is lenient: for every input node that
  is none of style, keyframes sequence and animate and is no instance of
  \<^verbatim>\<open>AnimationWithStepsMetadata\<close>, \<open>getAnimationMetadata\<close> returns \<^verbatim>\<open>null\<close> and raises
  nothing, and it returns \<^verbatim>\<open>null\<close> for no other node. An instance of
  \<^verbatim>\<open>AnimationWithStepsMetadata\<close> that is neither a group nor a sequence is resolved as
  a sequence of its steps, or raises what reading its steps raises. For every input
  node that is neither a state declaration nor a state transition, and for no other,
  \<open>getAnimationStateMetadata\<close> returns \<^verbatim>\<open>null\<close> and raises nothing.
\<close>

theorem animation_unrecognized_null:
  "(getAnimationMetadata v = Inr None) =
     (\<not> animation_variant v \<and> \<not> instanceofAnimationWithStepsMetadata v) \<and>
   getAnimationMetadata (AnimationWithStepsMetadata (Inr steps))
     = getAnimationMetadata (AnimationSequenceMetadata steps) \<and>
   getAnimationMetadata (AnimationWithStepsMetadata (Inl e)) = Inl e \<and>
   (getAnimationStateMetadata v = Inr None) = (\<not> animation_state_variant v)"
  using getAnimationMetadata_null [of v] getAnimationStateMetadata_null [of v] by simp

theorem animation_unrecognized_null_witness:
  "\<not> animation_variant (VOther 0) \<and> \<not> instanceofAnimationWithStepsMetadata (VOther 0) \<and>
   getAnimationMetadata (VOther 0) = Inr None \<and>
   \<not> animation_state_variant (AnimationGroupMetadata []) \<and>
   getAnimationStateMetadata (AnimationGroupMetadata []) = Inr None"
  using animation_unrecognized_null [of "VOther 0"]
    animation_unrecognized_null [of "AnimationGroupMetadata []"]
  by simp

text \<open>
  C10, as stated, fails: the node below is an \<^verbatim>\<open>AnimationWithStepsMetadata\<close> that is
  none of the enumerated variants, and it is resolved as a sequence, not as \<^verbatim>\<open>null\<close>;
  when reading its steps throws, the call throws.
\<close>

theorem animation_with_steps_counterexample:
  "\<not> animation_variant (AnimationWithStepsMetadata (Inr [])) \<and>
   getAnimationMetadata (AnimationWithStepsMetadata (Inr []))
     = Inr (Some (CompileAnimationSequenceMetadata [])) \<and>
   getAnimationMetadata (AnimationWithStepsMetadata (Inr [])) \<noteq> Inr None \<and>
   \<not> animation_variant (AnimationWithStepsMetadata (Inl (BaseException ''not implemented''))) \<and>
   getAnimationMetadata (AnimationWithStepsMetadata (Inl (BaseException ''not implemented'')))
     = Inl (BaseException ''not implemented'')"
  by simp

subsection \<open>Providers\<close>

lemma flattenArray_out:
  fixes d :: "val list"
  shows "\<forall>out'. flattenArray tree out' = out' @ flattenArray tree []"
    and "\<forall>out'. flattenItem item out' = out' @ flattenItem item []"
proof (induct tree d and item d rule: flattenArray_flattenItem.induct)
  case (1 out)
  show ?case by simp
next
  case (2 x tree out)
  show ?case
  proof
    fix out'
    have "flattenArray (x # tree) out' = flattenArray tree (flattenItem (resolveForwardRef x) out')"
      by simp
    also have "\<dots> = flattenItem (resolveForwardRef x) out' @ flattenArray tree []"
      using 2(2) by blast
    also have "\<dots> = (out' @ flattenItem (resolveForwardRef x) []) @ flattenArray tree []"
      using 2(1) by metis
    also have "\<dots> = out' @ (flattenItem (resolveForwardRef x) [] @ flattenArray tree [])"
      by simp
    also have "flattenItem (resolveForwardRef x) [] @ flattenArray tree []
        = flattenArray tree (flattenItem (resolveForwardRef x) [])"
      using 2(2) by metis
    finally show "flattenArray (x # tree) out' = out' @ flattenArray (x # tree) []"
      by simp
  qed
next
  case (3 tree out)
  show ?case unfolding flattenItem.simps by (rule 3)
qed simp_all

lemma mapM_append:
  "mapM f (xs @ ys) s =
     (case mapM f xs s of
        (Inl e, s1) \<Rightarrow> (Inl e, s1)
      | (Inr as, s1) \<Rightarrow>
          (case mapM f ys s1 of
             (Inl e, s2) \<Rightarrow> (Inl e, s2)
           | (Inr bs, s2) \<Rightarrow> (Inr (as @ bs), s2)))"
  by (induction xs arbitrary: s) (auto split: prod.splits sum.splits)

lemma resolved_leaf:
  "\<not> isArray v \<Longrightarrow> resolvedProviderMetadata E v s = (Inr m, s') \<Longrightarrow> flattenEntry m = [m]"
  by (cases v) (auto split: prod.splits sum.splits if_splits)

lemma mapM_single:
  "mapM f [x] s = (case f x s of (Inl e, s1) \<Rightarrow> (Inl e, s1) | (Inr y, s1) \<Rightarrow> (Inr [y], s1))"
  by (simp split: prod.splits sum.splits)

lemma resolved_leaf_flat:
  assumes "\<not> isArray v"
  shows "mapM (resolvedProviderMetadata E) (flattenItem v []) s
     = lift_entry (resolvedProviderMetadata E v s)"
proof -
  from assms have f: "flattenItem v [] = [v]" by (cases v) simp_all
  show ?thesis
  proof (cases "resolvedProviderMetadata E v s")
    case (Pair r s')
    show ?thesis
    proof (cases r)
      case (Inl e)
      with Pair f show ?thesis by (simp add: lift_entry_def)
    next
      case (Inr m)
      with Pair resolved_leaf [OF assms] have "flattenEntry m = [m]" by blast
      with Pair Inr f show ?thesis by (simp add: lift_entry_def)
    qed
  qed
qed

lemma providers_preorder:
  "mapM (resolvedProviderMetadata E) (flattenArray providers []) s
     = lift_entries (getProvidersMetadata E providers s)"
  "mapM (resolvedProviderMetadata E) (flattenItem (resolveForwardRef provider) []) s
     = lift_entry (providerMetadata E provider s)"
  "mapM (resolvedProviderMetadata E) (flattenItem v []) s
     = lift_entry (resolvedProviderMetadata E v s)"
proof (induct E providers s and E provider s and E v s
    rule: getProvidersMetadata_providerMetadata_resolvedProviderMetadata.induct)
  case (1 E s)
  show ?case by (simp add: lift_entries_def)
next
  case (2 E provider providers s)
  have a: "flattenArray (provider # providers) []
      = flattenItem (resolveForwardRef provider) [] @ flattenArray providers []"
    unfolding flattenArray.simps by (rule flattenArray_out(1) [rule_format])
  have "mapM (resolvedProviderMetadata E)
          (flattenItem (resolveForwardRef provider) [] @ flattenArray providers []) s
     = lift_entries (getProvidersMetadata E (provider # providers) s)"
  proof (cases "providerMetadata E provider s")
    case (Pair r s1)
    show ?thesis
    proof (cases r)
      case (Inl e)
      with Pair 2(1) show ?thesis
        by (simp add: mapM_append lift_entry_def lift_entries_def)
    next
      case (Inr m)
      with Pair 2(2) have "mapM (resolvedProviderMetadata E) (flattenArray providers []) s1
         = lift_entries (getProvidersMetadata E providers s1)" by simp
      with Pair Inr 2(1) show ?thesis
        by (simp add: mapM_append lift_entry_def lift_entries_def split: prod.splits sum.splits)
    qed
  qed
  then show ?case by (simp only: a)
next
  case (3 E provider s)
  then show ?case by simp
next
  case (4 E providers s)
  then show ?case
    by (simp add: lift_entry_def lift_entries_def split: prod.splits sum.splits)
qed (rule resolved_leaf_flat, simp)+

lemma providerMetadata_shape:
  "resolvedProviderMetadata E v s = (Inr m, s') \<Longrightarrow> isEList m = isArray v"
  by (cases v) (auto split: prod.splits sum.splits if_splits)

lemma getProvidersMetadata_shape:
  "getProvidersMetadata E providers s = (Inr ms, s') \<Longrightarrow>
   length ms = length providers \<and>
   (\<forall>i<length providers. isEList (ms ! i) = isArray (resolveForwardRef (providers ! i)))"
proof (induction providers arbitrary: s ms)
  case Nil
  then show ?case by simp
next
  case (Cons p ps)
  from Cons.prems obtain m s1 ms' where
    m: "resolvedProviderMetadata E (resolveForwardRef p) s = (Inr m, s1)" and
    r: "getProvidersMetadata E ps s1 = (Inr ms', s')" and ms: "ms = m # ms'"
    by (auto split: prod.splits sum.splits)
  from Cons.IH [OF r] have l: "length ms' = length ps" and
    e: "\<forall>i<length ps. isEList (ms' ! i) = isArray (resolveForwardRef (ps ! i))" by auto
  have "isEList ((m # ms') ! i) = isArray (resolveForwardRef ((p # ps) ! i))"
    if "i < length (p # ps)" for i
    using that e providerMetadata_shape [OF m] by (cases i) auto
  with l ms show ?case by simp
qed

lemma providers_same_shape:
  "\<forall>ms s'. getProvidersMetadata E providers s = (Inr ms, s') \<longrightarrow> list_all2 sameShape ms providers"
  "\<forall>m s'. providerMetadata E provider s = (Inr m, s') \<longrightarrow> sameShape m provider"
  "\<forall>m s'. resolvedProviderMetadata E v s = (Inr m, s') \<longrightarrow>
     (case v of VArr ps \<Rightarrow> (\<exists>ms. m = EList ms \<and> list_all2 sameShape ms ps)
      | _ \<Rightarrow> \<not> isEList m)"
proof (induct E providers s and E provider s and E v s
    rule: getProvidersMetadata_providerMetadata_resolvedProviderMetadata.induct)
  case (1 E s)
  show ?case by simp
next
  case (2 E provider providers s)
  show ?case
  proof (intro allI impI)
    fix ms s'
    assume a: "getProvidersMetadata E (provider # providers) s = (Inr ms, s')"
    then obtain m s1 ms' where
      m: "providerMetadata E provider s = (Inr m, s1)" and
      r: "getProvidersMetadata E providers s1 = (Inr ms', s')" and ms: "ms = m # ms'"
      by (auto split: prod.splits sum.splits)
    from 2(1) m have "sameShape m provider" by blast
    moreover from 2(2) [OF m [symmetric] refl] r have "list_all2 sameShape ms' providers" by blast
    ultimately show "list_all2 sameShape ms (provider # providers)" using ms by simp
  qed
next
  case (3 E provider s)
  show ?case
  proof (intro allI impI)
    fix m s'
    assume "providerMetadata E provider s = (Inr m, s')"
    then have "resolvedProviderMetadata E (resolveForwardRef provider) s = (Inr m, s')" by simp
    with 3 have c: "case resolveForwardRef provider of
        VArr ps \<Rightarrow> (\<exists>ms. m = EList ms \<and> list_all2 sameShape ms ps)
      | _ \<Rightarrow> \<not> isEList m" by blast
    show "sameShape m provider"
    proof (cases "resolveForwardRef provider")
      case (VArr ps)
      with c show ?thesis by auto
    qed (use c in \<open>cases m; simp\<close>)+
  qed
next
  case (4 E providers s)
  then show ?case by (auto split: prod.splits sum.splits)
qed (auto split: prod.splits sum.splits if_splits)

lemma flatten_cons:
  "flattenArray (p # ps) [] = flattenItem (resolveForwardRef p) [] @ flattenArray ps []"
  unfolding flattenArray.simps by (rule flattenArray_out(1) [rule_format])

lemma shape_leaves:
  "\<forall>v. sameShape m v \<longrightarrow> length (flattenEntry m) = length (flattenItem (resolveForwardRef v) [])"
proof (induction m)
  case (EList ms0)
  have l: "set ms \<subseteq> set ms0 \<Longrightarrow> list_all2 sameShape ms ps \<Longrightarrow>
      length (flattenEntries ms) = length (flattenArray ps [])" for ms ps
  proof (induction ms arbitrary: ps)
    case Nil
    then show ?case by simp
  next
    case (Cons m ms)
    from Cons.prems(2) obtain p ps' where ps: "ps = p # ps'" and m: "sameShape m p"
      and r: "list_all2 sameShape ms ps'" by (auto simp: list_all2_Cons1)
    from Cons.prems(1) have "m \<in> set ms0" by simp
    with EList.IH m
    have a: "length (flattenEntry m) = length (flattenItem (resolveForwardRef p) [])" by blast
    from Cons.prems(1) have "set ms \<subseteq> set ms0" by simp
    from Cons.IH [OF this r]
    have b: "length (flattenEntries ms) = length (flattenArray ps' [])" .
    show ?case unfolding ps flatten_cons using a b by simp
  qed
  show ?case
  proof (intro allI impI)
    fix v assume s: "sameShape (EList ms0) v"
    then obtain ps where v: "resolveForwardRef v = VArr ps" and a: "list_all2 sameShape ms0 ps"
      by (auto split: val.splits)
    from l [OF subset_refl a]
    have "length (flattenEntries ms0) = length (flattenArray ps [])" .
    with v show "length (flattenEntry (EList ms0)) = length (flattenItem (resolveForwardRef v) [])"
      by simp
  qed
next
  case (EProvider x)
  show ?case
  proof (intro allI impI)
    fix v assume "sameShape (EProvider x) v"
    then show "length (flattenEntry (EProvider x)) = length (flattenItem (resolveForwardRef v) [])"
      by (cases "resolveForwardRef v") simp_all
  qed
next
  case (EType x)
  show ?case
  proof (intro allI impI)
    fix v assume "sameShape (EType x) v"
    then show "length (flattenEntry (EType x)) = length (flattenItem (resolveForwardRef v) [])"
      by (cases "resolveForwardRef v") simp_all
  qed
qed

lemma shape_unique:
  "\<forall>v m'. sameShape m v \<and> sameShape m' v \<and> flattenEntry m = flattenEntry m' \<longrightarrow> m = m'"
proof (induction m)
  case (EList ms0)
  have l: "set ms \<subseteq> set ms0 \<Longrightarrow> list_all2 sameShape ms ps \<Longrightarrow> list_all2 sameShape ms' ps \<Longrightarrow>
      flattenEntries ms = flattenEntries ms' \<Longrightarrow> ms = ms'" for ms ms' ps
  proof (induction ms arbitrary: ps ms')
    case Nil
    then show ?case by simp
  next
    case (Cons m ms)
    from Cons.prems(2) obtain p ps' where ps: "ps = p # ps'" and m: "sameShape m p"
      and r: "list_all2 sameShape ms ps'" by (auto simp: list_all2_Cons1)
    from Cons.prems(3) ps obtain m' ms1 where ms': "ms' = m' # ms1" and m': "sameShape m' p"
      and r': "list_all2 sameShape ms1 ps'" by (auto simp: list_all2_Cons2)
    from shape_leaves m m' have "length (flattenEntry m) = length (flattenEntry m')" by simp
    with Cons.prems(4) ms' have e: "flattenEntry m = flattenEntry m'"
      and f: "flattenEntries ms = flattenEntries ms1" by simp_all
    from Cons.prems(1) have "m \<in> set ms0" by simp
    with EList.IH m m' e have "m = m'" by blast
    moreover from Cons.prems(1) have "set ms \<subseteq> set ms0" by simp
    from Cons.IH [OF this r r' f] have "ms = ms1" .
    ultimately show ?case using ms' by simp
  qed
  show ?case
  proof (intro allI impI)
    fix v m'
    assume a: "sameShape (EList ms0) v \<and> sameShape m' v \<and>
      flattenEntry (EList ms0) = flattenEntry m'"
    then obtain ps where v: "resolveForwardRef v = VArr ps" and s: "list_all2 sameShape ms0 ps"
      by (auto split: val.splits)
    from a v obtain ms' where m': "m' = EList ms'" and s': "list_all2 sameShape ms' ps"
      by (cases m') auto
    from a m' have "flattenEntries ms0 = flattenEntries ms'" by simp
    from l [OF subset_refl s s' this] have "ms0 = ms'" .
    with m' show "EList ms0 = m'" by simp
  qed
next
  case (EProvider x)
  show ?case
  proof (intro allI impI)
    fix v m'
    assume a: "sameShape (EProvider x) v \<and> sameShape m' v \<and>
      flattenEntry (EProvider x) = flattenEntry m'"
    then have "\<not> isArray (resolveForwardRef v)" by simp
    with a have "\<not> isEList m'" by (cases m'; cases "resolveForwardRef v") auto
    with a show "EProvider x = m'" by (cases m') auto
  qed
next
  case (EType x)
  show ?case
  proof (intro allI impI)
    fix v m'
    assume a: "sameShape (EType x) v \<and> sameShape m' v \<and>
      flattenEntry (EType x) = flattenEntry m'"
    then have "\<not> isArray (resolveForwardRef v)" by simp
    with a have "\<not> isEList m'" by (cases m'; cases "resolveForwardRef v") auto
    with a show "EType x = m'" by (cases m') auto
  qed
qed

lemma shapes_unique:
  "list_all2 sameShape ms ps \<Longrightarrow> list_all2 sameShape ms' ps \<Longrightarrow>
   flattenEntries ms = flattenEntries ms' \<Longrightarrow> ms = ms'"
proof -
  assume a: "list_all2 sameShape ms ps" "list_all2 sameShape ms' ps"
    "flattenEntries ms = flattenEntries ms'"
  then have "sameShape (EList ms) (VArr ps)" "sameShape (EList ms') (VArr ps)"
    "flattenEntry (EList ms) = flattenEntry (EList ms')" by simp_all
  with shape_unique [of "EList ms"] have "EList ms = EList ms'" by blast
  then show ?thesis by simp
qed

text \<open>
  C1, as amended. \<open>getProvidersMetadata\<close> returns one entry for each entry of its
  input: a nested list for an entry that is (after dereferencing) an array, and
  otherwise the metadata of the entry. Nested sub-lists are returned as nested lists of
  the same shape, at every depth; it is the pre-order flattening of the result that
  equals, entry by entry from left to right, the metadata of the entries of the
  pre-order flattening (\<open>flattenArray\<close>) of the input, with the same final resolver, and
  the result is the only nesting of these entries that has the shape of the input. When
  the call throws, resolving the flattened input throws the same exception.
\<close>

theorem providers_keep_nesting:
  "(\<forall>ms s'. getProvidersMetadata E providers s = (Inr ms, s') \<longrightarrow>
      length ms = length providers \<and>
      (\<forall>i<length providers. isEList (ms ! i) = isArray (resolveForwardRef (providers ! i))) \<and>
      list_all2 sameShape ms providers \<and>
      mapM (resolvedProviderMetadata E) (flattenArray providers []) s
        = (Inr (flattenEntries ms), s') \<and>
      (\<forall>ms'. list_all2 sameShape ms' providers \<and> flattenEntries ms' = flattenEntries ms
         \<longrightarrow> ms' = ms)) \<and>
   (\<forall>e s'. getProvidersMetadata E providers s = (Inl e, s') \<longrightarrow>
      mapM (resolvedProviderMetadata E) (flattenArray providers []) s = (Inl e, s'))"
proof -
  have a: "length ms = length providers \<and>
      (\<forall>i<length providers. isEList (ms ! i) = isArray (resolveForwardRef (providers ! i))) \<and>
      list_all2 sameShape ms providers \<and>
      mapM (resolvedProviderMetadata E) (flattenArray providers []) s
        = (Inr (flattenEntries ms), s') \<and>
      (\<forall>ms'. list_all2 sameShape ms' providers \<and> flattenEntries ms' = flattenEntries ms
         \<longrightarrow> ms' = ms)"
    if r: "getProvidersMetadata E providers s = (Inr ms, s')" for ms s'
  proof -
    note getProvidersMetadata_shape [OF r]
    moreover from providers_same_shape(1) r have sh: "list_all2 sameShape ms providers"
      by blast
    moreover from providers_preorder(1) [of E providers s] r
    have "mapM (resolvedProviderMetadata E) (flattenArray providers []) s
        = (Inr (flattenEntries ms), s')"
      by (simp add: lift_entries_def)
    moreover have "\<forall>ms'. list_all2 sameShape ms' providers \<and>
        flattenEntries ms' = flattenEntries ms \<longrightarrow> ms' = ms"
      using sh shapes_unique [of _ providers ms] by simp
    ultimately show ?thesis by simp
  qed
  have b: "mapM (resolvedProviderMetadata E) (flattenArray providers []) s = (Inl e, s')"
    if "getProvidersMetadata E providers s = (Inl e, s')" for e s'
    using that providers_preorder(1) [of E providers s] by (simp add: lift_entries_def)
  show ?thesis
  proof (rule conjI)
    show "\<forall>ms s'. getProvidersMetadata E providers s = (Inr ms, s') \<longrightarrow>
      length ms = length providers \<and>
      (\<forall>i<length providers. isEList (ms ! i) = isArray (resolveForwardRef (providers ! i))) \<and>
      list_all2 sameShape ms providers \<and>
      mapM (resolvedProviderMetadata E) (flattenArray providers []) s
        = (Inr (flattenEntries ms), s') \<and>
      (\<forall>ms'. list_all2 sameShape ms' providers \<and> flattenEntries ms' = flattenEntries ms
         \<longrightarrow> ms' = ms)"
      by (intro allI impI, erule a)
    show "\<forall>e s'. getProvidersMetadata E providers s = (Inl e, s') \<longrightarrow>
      mapM (resolvedProviderMetadata E) (flattenArray providers []) s = (Inl e, s')"
      by (intro allI impI, erule b)
  qed
qed

theorem providers_keep_nesting_witness:
  "fst (getProvidersMetadata sample_env
          [VType 1, VArr [VType 2, VArr [VType 3]], VFwd (VArr [VType 4])] new_names)
     = Inr [EType (sample_type_metadata 1),
            EList [EType (sample_type_metadata 2), EList [EType (sample_type_metadata 3)]],
            EList [EType (sample_type_metadata 4)]] \<and>
   list_all2 sameShape
     [EType (sample_type_metadata 1),
      EList [EType (sample_type_metadata 2), EList [EType (sample_type_metadata 3)]],
      EList [EType (sample_type_metadata 4)]]
     [VType 1, VArr [VType 2, VArr [VType 3]], VFwd (VArr [VType 4])] \<and>
   \<not> list_all2 sameShape
     [EType (sample_type_metadata 1),
      EList [EType (sample_type_metadata 2), EType (sample_type_metadata 3)],
      EList [EType (sample_type_metadata 4)]]
     [VType 1, VArr [VType 2, VArr [VType 3]], VFwd (VArr [VType 4])] \<and>
   fst (mapM (resolvedProviderMetadata sample_env)
          (flattenArray [VType 1, VArr [VType 2, VArr [VType 3]], VFwd (VArr [VType 4])] [])
          new_names)
     = Inr [EType (sample_type_metadata 1), EType (sample_type_metadata 2),
            EType (sample_type_metadata 3), EType (sample_type_metadata 4)]"
proof -
  let ?ps = "[VType 1, VArr [VType 2, VArr [VType 3]], VFwd (VArr [VType 4])]"
  let ?ms = "[EType (sample_type_metadata 1),
            EList [EType (sample_type_metadata 2), EList [EType (sample_type_metadata 3)]],
            EList [EType (sample_type_metadata 4)]]"
  let ?r = "getProvidersMetadata sample_env ?ps new_names"
  have f: "fst ?r = Inr ?ms" by code_simp
  then have h: "?r = (Inr ?ms, snd ?r)" by (simp add: prod_eq_iff)
  from providers_keep_nesting [of sample_env ?ps new_names] h
  have m: "mapM (resolvedProviderMetadata sample_env) (flattenArray ?ps []) new_names
        = (Inr (flattenEntries ?ms), snd ?r)"
    and sh: "list_all2 sameShape ?ms ?ps" by blast+
  from m have "fst (mapM (resolvedProviderMetadata sample_env) (flattenArray ?ps []) new_names)
        = Inr (flattenEntries ?ms)" by simp
  moreover have "\<not> list_all2 sameShape
     [EType (sample_type_metadata 1),
      EList [EType (sample_type_metadata 2), EType (sample_type_metadata 3)],
      EList [EType (sample_type_metadata 4)]] ?ps" by simp
  ultimately show ?thesis using f sh by simp
qed

text \<open>
  C1, as stated, fails: for a list that holds a list of one type, the result holds a
  nested list, not the single flat entry.
\<close>

theorem providers_not_flat_counterexample:
  "fst (getProvidersMetadata sample_env [VArr [VType 1]] new_names)
     = Inr [EList [EType (sample_type_metadata 1)]] \<and>
   fst (getProvidersMetadata sample_env [VArr [VType 1]] new_names)
     \<noteq> Inr [EType (sample_type_metadata 1)]"
  by code_simp

subsection \<open>Dependencies\<close>

lemma getQueryMetadata_returns:
  "query_constructible q \<Longrightarrow> \<exists>m s'. getQueryMetadata E q pn f s = (Inr m, s')"
  by (auto simp: getQueryMetadata_def query_constructible_def split: prod.splits)

lemma optQueryMetadata_returns:
  "(\<And>q. query = Some q \<Longrightarrow> query_constructible q) \<Longrightarrow>
   \<exists>m s'. optQueryMetadata E query f s = (Inr m, s')"
proof (cases query)
  case None
  then show ?thesis by (simp add: optQueryMetadata_def)
next
  case (Some q)
  assume "\<And>q. query = Some q \<Longrightarrow> query_constructible q"
  with Some have "query_constructible q" by simp
  from getQueryMetadata_returns [OF this, of E None f s] obtain m s' where
    "getQueryMetadata E q None f s = (Inr m, s')" by blast
  with Some show ?thesis by (simp add: optQueryMetadata_def)
qed

lemma dependencyMetadata_unresolved:
  "(fst (dependencyMetadata E typeOrFunc param s) = Inr None) =
   isBlank (ps_token (scanParam param))"
  by (auto simp: dependencyMetadata_def Let_def split: prod.splits sum.splits)

lemma dependencyMetadata_token:
  "dependencyMetadata E typeOrFunc param s = (Inr (Some d), s') \<Longrightarrow>
   \<exists>s0. dd_token d = fst (getTokenMetadata E (ps_token (scanParam param)) s0)"
proof -
  assume a: "dependencyMetadata E typeOrFunc param s = (Inr (Some d), s')"
  then obtain s2 where "dd_token d = fst (getTokenMetadata E (ps_token (scanParam param)) s2)"
    by (auto simp: dependencyMetadata_def Let_def split: prod.splits sum.splits if_splits)
       (metis fst_conv)
  then show ?thesis by blast
qed

lemma dependencyMetadata_returns:
  assumes "queries_constructible param"
  shows "\<exists>d s'. dependencyMetadata E typeOrFunc param s = (Inr d, s')"
proof (cases "isBlank (ps_token (scanParam param))")
  case True
  then show ?thesis by (simp add: dependencyMetadata_def)
next
  case False
  from assms False obtain query s1 where
    q: "optQueryMetadata E (ps_query (scanParam param)) typeOrFunc s = (Inr query, s1)"
    using optQueryMetadata_returns [of "ps_query (scanParam param)" E typeOrFunc s]
    by (auto simp: queries_constructible_def)
  from assms False obtain viewQuery s2 where
    v: "optQueryMetadata E (ps_viewQuery (scanParam param)) typeOrFunc s1 = (Inr viewQuery, s2)"
    using optQueryMetadata_returns [of "ps_viewQuery (scanParam param)" E typeOrFunc s1]
    by (auto simp: queries_constructible_def)
  from False q v show ?thesis
    by (simp add: dependencyMetadata_def Let_def split: prod.splits)
qed

lemma mapM_returns:
  "(\<And>x s. x \<in> set xs \<Longrightarrow> \<exists>y s'. f x s = (Inr y, s')) \<Longrightarrow> \<exists>ys s'. mapM f xs s = (Inr ys, s')"
proof (induction xs arbitrary: s)
  case Nil
  then show ?case by simp
next
  case (Cons x xs)
  from Cons.prems [of x s] obtain y s1 where y: "f x s = (Inr y, s1)" by auto
  from Cons.IH [of s1] Cons.prems obtain ys s2 where "mapM f xs s1 = (Inr ys, s2)"
    by (meson list.set_intros(2))
  with y show ?case by simp
qed

lemma mapM_elements:
  "mapM f xs s = (Inr ys, s') \<Longrightarrow>
   length ys = length xs \<and> (\<forall>i<length xs. \<exists>s0 s1. f (xs ! i) s0 = (Inr (ys ! i), s1))"
proof (induction xs arbitrary: s ys)
  case Nil
  then show ?case by simp
next
  case (Cons x xs)
  from Cons.prems obtain y s1 zs where
    y: "f x s = (Inr y, s1)" and zs: "mapM f xs s1 = (Inr zs, s')" and ys: "ys = y # zs"
    by (auto split: prod.splits sum.splits)
  from Cons.IH [OF zs] have
    l: "length zs = length xs" and
    e: "\<forall>i<length xs. \<exists>s0 s1. f (xs ! i) s0 = (Inr (zs ! i), s1)" by auto
  have "\<exists>s0 s1. f ((x # xs) ! i) s0 = (Inr ((y # zs) ! i), s1)" if "i < length (x # xs)" for i
    using that y e by (cases i) auto
  with l ys show ?case by simp
qed

lemma getDependenciesMetadata_fails:
  assumes "p \<in> set (dependencyParams E typeOrFunc dependencies)"
    and "isBlank (ps_token (scanParam p))"
  shows "\<exists>e s'. getDependenciesMetadata E typeOrFunc dependencies s = (Inl e, s')"
proof (cases "mapM (dependencyMetadata E typeOrFunc) (dependencyParams E typeOrFunc dependencies) s")
  case (Pair r s1)
  show ?thesis
  proof (cases r)
    case (Inl e)
    with Pair show ?thesis by (simp add: getDependenciesMetadata_def)
  next
    case (Inr deps)
    from assms(1) obtain i where i: "i < length (dependencyParams E typeOrFunc dependencies)"
      and p: "dependencyParams E typeOrFunc dependencies ! i = p"
      by (auto simp: in_set_conv_nth)
    from Pair Inr have m: "mapM (dependencyMetadata E typeOrFunc)
        (dependencyParams E typeOrFunc dependencies) s = (Inr deps, s1)" by simp
    from mapM_elements [OF m] have
      l: "length deps = length (dependencyParams E typeOrFunc dependencies)" and
      el: "\<forall>i<length (dependencyParams E typeOrFunc dependencies). \<exists>s0 s1.
             dependencyMetadata E typeOrFunc (dependencyParams E typeOrFunc dependencies ! i) s0
               = (Inr (deps ! i), s1)"
      by simp_all
    from el i p obtain s0 s2 where
      d: "dependencyMetadata E typeOrFunc p s0 = (Inr (deps ! i), s2)"
      by auto
    from d dependencyMetadata_unresolved [of E typeOrFunc p s0] assms(2)
    have "deps ! i = None" by simp
    with i l have "None \<in> set deps" using nth_mem [of i deps] by simp
    with Pair Inr show ?thesis by (simp add: getDependenciesMetadata_def)
  qed
qed

text \<open>
  C2, as amended. A parameter is marked unresolved (the callback returns \<^verbatim>\<open>null\<close>)
  exactly when the scan of its qualifiers leaves the token blank, whatever query or
  view query the scan found; and a parameter whose token is blank makes the whole call
  fail, also when its qualifier list yields a query or a view query.
\<close>

theorem unresolved_parameter:
  "(fst (dependencyMetadata E typeOrFunc param s) = Inr None) =
     isBlank (ps_token (scanParam param)) \<and>
   (param \<in> set (dependencyParams E typeOrFunc dependencies) \<and>
    isBlank (ps_token (scanParam param)) \<longrightarrow>
      (\<exists>e s'. getDependenciesMetadata E typeOrFunc dependencies s = (Inl e, s')))"
  using dependencyMetadata_unresolved [of E typeOrFunc param s]
    getDependenciesMetadata_fails [of param E typeOrFunc dependencies s]
  by simp

theorem unresolved_parameter_witness:
  "isBlank (ps_token (scanParam (VArr [OptionalMetadata, VQuery sample_query]))) \<and>
   fst (dependencyMetadata sample_env (VType 5) (VArr [OptionalMetadata, VQuery sample_query])
          new_names) = Inr None \<and>
   (\<exists>e s'. getDependenciesMetadata sample_env (VType 5)
              (Some [VType 7, VArr [OptionalMetadata, VQuery sample_query]]) new_names
            = (Inl e, s'))"
  using unresolved_parameter [of sample_env "VType 5"
      "VArr [OptionalMetadata, VQuery sample_query]" new_names
      "Some [VType 7, VArr [OptionalMetadata, VQuery sample_query]]"]
  by (simp add: dependencyParams_def scan_init_def sample_query_def)

text \<open>
  C2, as stated, fails: the qualifier list of the parameter below yields a query and no
  token; the parameter is marked unresolved and the call fails.
\<close>

theorem query_without_token_counterexample:
  "ps_query (scanParam (VArr [VQuery sample_query])) = Some sample_query \<and>
   fst (dependencyMetadata sample_env (VType 5) (VArr [VQuery sample_query]) new_names)
     = Inr None \<and>
   fst (getDependenciesMetadata sample_env (VType 5) (Some [VArr [VQuery sample_query]])
          new_names)
     = Inl (BaseException ''Can't resolve all parameters for T5: (?).'')"
  by code_simp

subsection \<open>The directive cache\<close>


lemma directive_metadata_hit:
  "directiveCache s (resolveForwardRef directiveType) = Some meta \<Longrightarrow>
   getDirectiveMetadata E directiveType s = (Inr meta, s)"
  by (simp add: getDirectiveMetadata_def)

lemma directive_metadata_miss:
  "directiveCache s (resolveForwardRef directiveType) = None \<Longrightarrow>
   getDirectiveMetadata E directiveType s =
     (case withNames (loadDirectiveMetadata E (resolveForwardRef directiveType)) s of
        (Inl e, s1) \<Rightarrow> (Inl e, s1)
      | (Inr meta, s1) \<Rightarrow>
          (Inr meta, s1\<lparr>directiveCache :=
             (directiveCache s1)(resolveForwardRef directiveType \<mapsto> meta)\<rparr>))"
  by (simp add: getDirectiveMetadata_def Let_def)

lemma pipe_metadata_miss:
  "pipeCache s (resolveForwardRef pipeType) = None \<Longrightarrow>
   getPipeMetadata E pipeType s =
     (case withNames (loadPipeMetadata E (resolveForwardRef pipeType)) s of
        (Inl e, s1) \<Rightarrow> (Inl e, s1)
      | (Inr meta, s1) \<Rightarrow>
          (Inr meta, s1\<lparr>pipeCache := (pipeCache s1)(resolveForwardRef pipeType \<mapsto> meta)\<rparr>))"
  by (simp add: getPipeMetadata_def Let_def)

lemma module_metadata_miss:
  "appModuleCache s (resolveForwardRef moduleType) = None \<Longrightarrow>
   getAppModuleMetadata (Suc n) E moduleType None s =
     (case loadAppModuleMetadata n E (resolveForwardRef moduleType) None s of
        None \<Rightarrow> None
      | Some (Inl e, s1) \<Rightarrow> Some (Inl e, s1)
      | Some (Inr meta, s1) \<Rightarrow>
          Some (Inr meta, s1\<lparr>appModuleCache :=
             (appModuleCache s1)(resolveForwardRef moduleType \<mapsto> meta)\<rparr>))"
  by (simp add: getAppModuleMetadata.simps Let_def
      cong: option.case_cong sum.case_cong prod.case_cong)




text \<open>
  \<open>clearCacheFor T\<close> removes the entries stored under the key \<open>T\<close> itself from the
  directive, pipe and module caches, leaves the entries of every other key as they are
  and does not touch the anonymous-identity map or its counter. When \<open>T\<close> is its own
  dereferenced form (it is not a forward reference), the next resolution of \<open>T\<close> as a
  directive, as a pipe or as a module computes the metadata again.
\<close>

lemma clearCacheFor_evicts:
  "(\<forall>U. directiveCache (clearCacheFor T s) U = (if U = T then None else directiveCache s U)) \<and>
   (\<forall>U. pipeCache (clearCacheFor T s) U = (if U = T then None else pipeCache s U)) \<and>
   (\<forall>U. appModuleCache (clearCacheFor T s) U = (if U = T then None else appModuleCache s U)) \<and>
   anonymous (clearCacheFor T s) = anonymous s \<and>
   (resolveForwardRef T = T \<longrightarrow>
      getDirectiveMetadata E T (clearCacheFor T s) =
        (case withNames (loadDirectiveMetadata E T) (clearCacheFor T s) of
           (Inl e, s1) \<Rightarrow> (Inl e, s1)
         | (Inr meta, s1) \<Rightarrow>
             (Inr meta, s1\<lparr>directiveCache := (directiveCache s1)(T \<mapsto> meta)\<rparr>)) \<and>
      getPipeMetadata E T (clearCacheFor T s) =
        (case withNames (loadPipeMetadata E T) (clearCacheFor T s) of
           (Inl e, s1) \<Rightarrow> (Inl e, s1)
         | (Inr meta, s1) \<Rightarrow>
             (Inr meta, s1\<lparr>pipeCache := (pipeCache s1)(T \<mapsto> meta)\<rparr>)) \<and>
      getAppModuleMetadata (Suc n) E T None (clearCacheFor T s) =
        (case loadAppModuleMetadata n E T None (clearCacheFor T s) of
           None \<Rightarrow> None
         | Some (Inl e, s1) \<Rightarrow> Some (Inl e, s1)
         | Some (Inr meta, s1) \<Rightarrow>
             Some (Inr meta, s1\<lparr>appModuleCache := (appModuleCache s1)(T \<mapsto> meta)\<rparr>)))"
proof -
  have c: "directiveCache (clearCacheFor T s) T = None" "pipeCache (clearCacheFor T s) T = None"
    "appModuleCache (clearCacheFor T s) T = None"
    by (simp_all add: clearCacheFor_def)
  have "resolveForwardRef T = T \<longrightarrow>
      getDirectiveMetadata E T (clearCacheFor T s) =
        (case withNames (loadDirectiveMetadata E T) (clearCacheFor T s) of
           (Inl e, s1) \<Rightarrow> (Inl e, s1)
         | (Inr meta, s1) \<Rightarrow>
             (Inr meta, s1\<lparr>directiveCache := (directiveCache s1)(T \<mapsto> meta)\<rparr>))"
    using directive_metadata_miss [of "clearCacheFor T s" T E] c by (cases "resolveForwardRef T = T") (simp_all cong: option.case_cong sum.case_cong prod.case_cong)
  moreover have "resolveForwardRef T = T \<longrightarrow>
      getPipeMetadata E T (clearCacheFor T s) =
        (case withNames (loadPipeMetadata E T) (clearCacheFor T s) of
           (Inl e, s1) \<Rightarrow> (Inl e, s1)
         | (Inr meta, s1) \<Rightarrow>
             (Inr meta, s1\<lparr>pipeCache := (pipeCache s1)(T \<mapsto> meta)\<rparr>))"
    using pipe_metadata_miss [of "clearCacheFor T s" T E] c by (cases "resolveForwardRef T = T") (simp_all cong: option.case_cong sum.case_cong prod.case_cong)
  moreover have "resolveForwardRef T = T \<longrightarrow>
      getAppModuleMetadata (Suc n) E T None (clearCacheFor T s) =
        (case loadAppModuleMetadata n E T None (clearCacheFor T s) of
           None \<Rightarrow> None
         | Some (Inl e, s1) \<Rightarrow> Some (Inl e, s1)
         | Some (Inr meta, s1) \<Rightarrow>
             Some (Inr meta, s1\<lparr>appModuleCache := (appModuleCache s1)(T \<mapsto> meta)\<rparr>))"
    using module_metadata_miss [of "clearCacheFor T s" T n E] c by (cases "resolveForwardRef T = T") (simp_all cong: option.case_cong sum.case_cong prod.case_cong)
  moreover have "\<forall>U. directiveCache (clearCacheFor T s) U = (if U = T then None else directiveCache s U)"
    "\<forall>U. pipeCache (clearCacheFor T s) U = (if U = T then None else pipeCache s U)"
    "\<forall>U. appModuleCache (clearCacheFor T s) U = (if U = T then None else appModuleCache s U)"
    "anonymous (clearCacheFor T s) = anonymous s"
    by (simp_all add: clearCacheFor_def)
  ultimately show ?thesis by blast
qed

lemma clearCacheFor_evicts_sample:
  "resolveForwardRef (VType 1) = VType 1 \<and>
   directiveCache (snd (getDirectiveMetadata sample_env (VType 1) new_resolver)) (VType 1)
     = Some sample_directive_metadata \<and>
   directiveCache
     (clearCacheFor (VType 1) (snd (getDirectiveMetadata sample_env (VType 1) new_resolver)))
     (VType 1) = None \<and>
   fst (getDirectiveMetadata no_directives_env (VType 1)
     (clearCacheFor (VType 1) (snd (getDirectiveMetadata sample_env (VType 1) new_resolver))))
     = Inl (BaseException ''No Directive annotation found on T1'')"
proof -
  let ?s = "snd (getDirectiveMetadata sample_env (VType 1) new_resolver)"
  have c: "directiveCache ?s (VType 1) = Some sample_directive_metadata"
    by code_simp
  have l: "fst (withNames (loadDirectiveMetadata no_directives_env (VType 1))
           (clearCacheFor (VType 1) ?s))
     = Inl (BaseException ''No Directive annotation found on T1'')"
    by code_simp
  from clearCacheFor_evicts [of "VType 1" ?s no_directives_env 0]
  have e: "directiveCache (clearCacheFor (VType 1) ?s) (VType 1) = None"
    and g: "getDirectiveMetadata no_directives_env (VType 1) (clearCacheFor (VType 1) ?s) =
        (case withNames (loadDirectiveMetadata no_directives_env (VType 1))
                (clearCacheFor (VType 1) ?s) of
           (Inl e, s1) \<Rightarrow> (Inl e, s1)
         | (Inr meta, s1) \<Rightarrow>
             (Inr meta, s1\<lparr>directiveCache := (directiveCache s1)(VType 1 \<mapsto> meta)\<rparr>))"
    by simp_all
  from l have "fst (getDirectiveMetadata no_directives_env (VType 1)
      (clearCacheFor (VType 1) ?s)) = Inl (BaseException ''No Directive annotation found on T1'')"
    unfolding g by (auto split: prod.splits sum.splits)
  with c e show ?thesis by simp
qed

lemma sample_directive_still_cached:
  "directiveCache
     (clearCacheFor (VFwd (VType 1))
        (snd (getDirectiveMetadata sample_env (VFwd (VType 1)) new_resolver)))
     (VType 1) = Some sample_directive_metadata"
  by code_simp

text \<open>
  C7. \<open>clearCacheFor T\<close> is to evict the entries of \<open>T\<close>, so that the next resolution
  of \<open>T\<close> computes again. The code misses this for a forward reference: the three
  resolving methods dereference the type before they touch their cache, and
  \<open>clearCacheFor\<close> deletes the key as it is given. The directive resolved through the
  forward reference below is cached under the type behind it, \<open>clearCacheFor\<close> of the
  forward reference leaves that entry in place, and the next resolution of the forward
  reference returns it with the resolver unchanged, although computing it again would
  fail now.
\<close>

theorem clearCacheFor_forward_reference:
  "directiveCache
     (clearCacheFor (VFwd (VType 1))
        (snd (getDirectiveMetadata sample_env (VFwd (VType 1)) new_resolver)))
     (resolveForwardRef (VFwd (VType 1))) = Some sample_directive_metadata \<and>
   getDirectiveMetadata no_directives_env (VFwd (VType 1))
     (clearCacheFor (VFwd (VType 1))
        (snd (getDirectiveMetadata sample_env (VFwd (VType 1)) new_resolver)))
   = (Inr sample_directive_metadata,
      clearCacheFor (VFwd (VType 1))
        (snd (getDirectiveMetadata sample_env (VFwd (VType 1)) new_resolver))) \<and>
   fst (withNames (loadDirectiveMetadata no_directives_env (VType 1))
     (clearCacheFor (VFwd (VType 1))
        (snd (getDirectiveMetadata sample_env (VFwd (VType 1)) new_resolver))))
   = Inl (BaseException ''No Directive annotation found on T1'')"
proof -
  have "fst (withNames (loadDirectiveMetadata no_directives_env (VType 1))
     (clearCacheFor (VFwd (VType 1))
        (snd (getDirectiveMetadata sample_env (VFwd (VType 1)) new_resolver))))
   = Inl (BaseException ''No Directive annotation found on T1'')"
    by code_simp
  with sample_directive_still_cached directive_metadata_hit [of _ "VFwd (VType 1)"]
  show ?thesis by simp
qed

subsection \<open>Directives that are none\<close>

lemma indexOf_from_absent:
  "0 \<le> i \<Longrightarrow> (indexOf_from str sub i = - 1) = (\<not> (\<exists>pre post. str = pre @ sub @ post))"
proof (induction str arbitrary: i)
  case Nil
  then show ?case by auto
next
  case (Cons c cs)
  show ?case
  proof (cases "take (length sub) (c # cs) = sub")
    case True
    then have "c # cs = [] @ sub @ drop (length sub) (c # cs)"
      by (metis append_Nil append_take_drop_id)
    then have "\<exists>pre post. c # cs = pre @ sub @ post" by blast
    with True Cons.prems show ?thesis by simp
  next
    case False
    have "(\<exists>pre post. c # cs = pre @ sub @ post) = (\<exists>pre post. cs = pre @ sub @ post)"
    proof
      assume "\<exists>pre post. c # cs = pre @ sub @ post"
      then obtain pre post where e: "c # cs = pre @ sub @ post" by blast
      show "\<exists>pre post. cs = pre @ sub @ post"
      proof (cases pre)
        case Nil
        with e have "take (length sub) (c # cs) = sub" by simp
        with False show ?thesis by simp
      next
        case (Cons p pre')
        with e have "cs = pre' @ sub @ post" by simp
        then show ?thesis by blast
      qed
    next
      assume "\<exists>pre post. cs = pre @ sub @ post"
      then obtain pre post where "cs = pre @ sub @ post" by blast
      then have "c # cs = (c # pre) @ sub @ post" by simp
      then show "\<exists>pre post. c # cs = pre @ sub @ post" by blast
    qed
    with False Cons.IH [of "i + 1"] Cons.prems show ?thesis by simp
  qed
qed

lemma indexOf_absent:
  "(indexOf str sub = - 1) = (\<not> (\<exists>pre post. str = pre @ sub @ post))"
  by (simp add: indexOf_def indexOf_from_absent)

lemma unannotated_directive:
  assumes "directiveCache s (resolveForwardRef someType) = None"
    and "directiveResolver E (resolveForwardRef someType) = Inl e"
  shows "getDirectiveMetadata E someType s = (Inl e, s)"
proof -
  from assms(2) have "loadDirectiveMetadata E (resolveForwardRef someType) (anonymous s)
      = (Inl e, anonymous s)"
    by (simp add: loadDirectiveMetadata_def bindR_def throwing_def)
  then have "withNames (loadDirectiveMetadata E (resolveForwardRef someType)) s = (Inl e, s)"
    by (simp add: withNames_def)
  with assms(1) show ?thesis by (simp add: getDirectiveMetadata_def)
qed

text \<open>
  C9, as amended. \<open>maybeGetDirectiveMetadata\<close> returns what \<open>getDirectiveMetadata\<close>
  returns and leaves the resolver as \<open>getDirectiveMetadata\<close> leaves it; when
  \<open>getDirectiveMetadata\<close> throws, every exception whose message contains the text
  \<^verbatim>\<open>No Directive annotation\<close> becomes the result \<^verbatim>\<open>null\<close>, whatever raised it, and
  every exception whose message does not contain this text is thrown again unchanged.
  In particular the failure with which the directive resolver reports a type without
  directive annotation, its message containing the text, becomes \<^verbatim>\<open>null\<close>, and the
  resolver is then left as it was.
\<close>

theorem maybeGetDirectiveMetadata_cases:
  "(getDirectiveMetadata E someType s = (Inr meta, s1) \<longrightarrow>
      maybeGetDirectiveMetadata E someType s = (Inr (Some meta), s1)) \<and>
   (getDirectiveMetadata E someType s = (Inl e, s1) \<and> mentions_no_directive_annotation e \<longrightarrow>
      maybeGetDirectiveMetadata E someType s = (Inr None, s1)) \<and>
   (getDirectiveMetadata E someType s = (Inl e, s1) \<and> \<not> mentions_no_directive_annotation e \<longrightarrow>
      maybeGetDirectiveMetadata E someType s = (Inl e, s1)) \<and>
   (directiveCache s (resolveForwardRef someType) = None \<and>
    directiveResolver E (resolveForwardRef someType) = Inl e \<and>
    mentions_no_directive_annotation e \<longrightarrow>
      maybeGetDirectiveMetadata E someType s = (Inr None, s))"
  using unannotated_directive [of s someType E e]
  by (simp add: maybeGetDirectiveMetadata_def mentions_no_directive_annotation_def indexOf_absent)

theorem maybeGetDirectiveMetadata_cases_witness:
  "fst (maybeGetDirectiveMetadata sample_env (VType 1) new_resolver)
     = Inr (Some sample_directive_metadata) \<and>
   directiveCache new_resolver (resolveForwardRef (VType 2)) = None \<and>
   directiveResolver sample_env (resolveForwardRef (VType 2))
     = Inl (BaseException ''No Directive annotation found on T2'') \<and>
   mentions_no_directive_annotation (BaseException ''No Directive annotation found on T2'') \<and>
   maybeGetDirectiveMetadata sample_env (VType 2) new_resolver = (Inr None, new_resolver) \<and>
   \<not> mentions_no_directive_annotation (invalidProvider sample_env (VOther 0)) \<and>
   fst (maybeGetDirectiveMetadata sample_env (VType 3) new_resolver)
     = Inl (invalidProvider sample_env (VOther 0))"
proof -
  let ?g = "\<lambda>t. getDirectiveMetadata sample_env t new_resolver"
  have 1: "?g (VType 1) = (Inr sample_directive_metadata, snd (?g (VType 1)))"
  proof -
    have "fst (?g (VType 1)) = Inr sample_directive_metadata" by code_simp
    then show ?thesis by (simp add: prod_eq_iff)
  qed
  have c2: "directiveCache new_resolver (resolveForwardRef (VType 2)) = None"
    by (simp add: new_resolver_def)
  have r2: "directiveResolver sample_env (resolveForwardRef (VType 2))
     = Inl (BaseException ''No Directive annotation found on T2'')"
    by code_simp
  have 2: "?g (VType 2)
    = (Inl (BaseException ''No Directive annotation found on T2''), new_resolver)"
    using c2 r2 by (rule unannotated_directive)
  have 3: "?g (VType 3) = (Inl (invalidProvider sample_env (VOther 0)), snd (?g (VType 3)))"
  proof -
    have "fst (?g (VType 3)) = Inl (invalidProvider sample_env (VOther 0))" by code_simp
    then show ?thesis by (simp add: prod_eq_iff)
  qed
  have n2: "mentions_no_directive_annotation
      (BaseException ''No Directive annotation found on T2'')"
  proof -
    have "indexOf ''No Directive annotation found on T2'' ''No Directive annotation'' \<noteq> - 1"
      by code_simp
    then show ?thesis by (simp add: mentions_no_directive_annotation_def indexOf_absent)
  qed
  have n3: "\<not> mentions_no_directive_annotation (invalidProvider sample_env (VOther 0))"
  proof -
    have "indexOf (message (invalidProvider sample_env (VOther 0)))
            ''No Directive annotation'' = - 1"
      by code_simp
    then show ?thesis by (simp add: mentions_no_directive_annotation_def indexOf_absent)
  qed
  from maybeGetDirectiveMetadata_cases [of sample_env "VType 1" new_resolver
      sample_directive_metadata "snd (?g (VType 1))"] 1
  have "fst (maybeGetDirectiveMetadata sample_env (VType 1) new_resolver)
     = Inr (Some sample_directive_metadata)" by simp
  moreover from maybeGetDirectiveMetadata_cases [of sample_env "VType 2" new_resolver _ _
      "BaseException ''No Directive annotation found on T2''"] c2 r2 n2
  have "maybeGetDirectiveMetadata sample_env (VType 2) new_resolver = (Inr None, new_resolver)"
    by simp
  moreover from maybeGetDirectiveMetadata_cases [of sample_env "VType 3" new_resolver _ _
      "invalidProvider sample_env (VOther 0)"] 3 n3
  have "fst (maybeGetDirectiveMetadata sample_env (VType 3) new_resolver)
     = Inl (invalidProvider sample_env (VOther 0))" by simp
  ultimately show ?thesis using c2 r2 n2 n3 by simp
qed

text \<open>
  C9, as stated, fails: the type below is annotated as a directive and one of its
  providers is the string \<^verbatim>\<open>No Directive annotation\<close>; \<open>getDirectiveMetadata\<close> throws
  the exception of an invalid provider, whose message ends with the string, and
  \<open>maybeGetDirectiveMetadata\<close> returns \<^verbatim>\<open>null\<close> instead of throwing it again.
\<close>

theorem annotated_directive_null_counterexample:
  "(case directiveResolver sample_env (VType 4) of Inr _ \<Rightarrow> True | Inl _ \<Rightarrow> False) \<and>
   fst (getDirectiveMetadata sample_env (VType 4) new_resolver)
     = Inl (BaseException
         ''Invalid provider - only instances of Provider and Type are allowed, got: No Directive annotation'') \<and>
   fst (maybeGetDirectiveMetadata sample_env (VType 4) new_resolver) = Inr None"
  by code_simp

subsection \<open>Names of anonymous tokens\<close>

text \<open>Every function of the resolver keeps the anonymous names it finds.\<close>

lemma names_kept_refl: "names_kept a a"
  by (simp add: names_kept_def)

lemma names_kept_trans: "names_kept a b \<Longrightarrow> names_kept b c \<Longrightarrow> names_kept a c"
  by (simp add: names_kept_def)

lemma sanitizeTokenName_kept: "names_kept a (snd (sanitizeTokenName E t a))"
proof -
  have "names_wf (a\<lparr>anonymousTypes := (anonymousTypes a)(t \<mapsto> anonymousTypeIndex a),
                    anonymousTypeIndex := anonymousTypeIndex a + 1\<rparr>)"
    if w: "names_wf a" and n: "anonymousTypes a t = None"
    unfolding names_wf_def
  proof (intro conjI allI impI)
    fix u k
    assume "anonymousTypes (a\<lparr>anonymousTypes := (anonymousTypes a)(t \<mapsto> anonymousTypeIndex a),
                    anonymousTypeIndex := anonymousTypeIndex a + 1\<rparr>) u = Some k"
    with w show "k < anonymousTypeIndex (a\<lparr>anonymousTypes := (anonymousTypes a)(t \<mapsto> anonymousTypeIndex a),
                    anonymousTypeIndex := anonymousTypeIndex a + 1\<rparr>)"
      by (cases "u = t") (auto simp: names_wf_def less_Suc_eq)
  next
    fix u v k
    assume "anonymousTypes (a\<lparr>anonymousTypes := (anonymousTypes a)(t \<mapsto> anonymousTypeIndex a),
                    anonymousTypeIndex := anonymousTypeIndex a + 1\<rparr>) u = Some k \<and>
            anonymousTypes (a\<lparr>anonymousTypes := (anonymousTypes a)(t \<mapsto> anonymousTypeIndex a),
                    anonymousTypeIndex := anonymousTypeIndex a + 1\<rparr>) v = Some k"
    with w show "u = v"
      by (cases "u = t"; cases "v = t") (auto simp: names_wf_def)
  qed
  then show ?thesis
    by (auto simp: sanitizeTokenName_def names_kept_def Let_def split: option.splits)
qed

lemma sanitizeTokenName_keptD: "sanitizeTokenName E t a = (r, a') \<Longrightarrow> names_kept a a'"
  using sanitizeTokenName_kept [of a E t] by simp

lemma getTokenMetadata_keptD: "getTokenMetadata E t a = (r, a') \<Longrightarrow> names_kept a a'"
  by (auto simp: getTokenMetadata_def Let_def names_kept_refl split: if_splits prod.splits
      dest: sanitizeTokenName_keptD)

lemma mapS_keptD:
  assumes "\<And>x a r a'. f x a = (r, a') \<Longrightarrow> names_kept a a'"
  shows "mapS f xs a = (r, a') \<Longrightarrow> names_kept a a'"
proof (induction xs arbitrary: a r)
  case Nil
  then show ?case by (simp add: names_kept_refl)
next
  case (Cons x xs)
  from Cons.prems obtain y a1 ys where
    "f x a = (y, a1)" "mapS f xs a1 = (ys, a')"
    by (auto split: prod.splits)
  with assms Cons.IH show ?case by (blast intro: names_kept_trans)
qed

lemma mapM_keptD:
  assumes "\<And>x a r a'. f x a = (r, a') \<Longrightarrow> names_kept a a'"
  shows "mapM f xs a = (r, a') \<Longrightarrow> names_kept a a'"
proof (induction xs arbitrary: a r a')
  case Nil
  then show ?case by (simp add: names_kept_refl)
next
  case (Cons x xs)
  obtain y a1 where y: "f x a = (y, a1)" by (cases "f x a")
  with assms have k: "names_kept a a1" by blast
  show ?case
  proof (cases y)
    case (Inl e)
    with y Cons.prems k show ?thesis by simp
  next
    case (Inr v)
    obtain ys a2 where ys: "mapM f xs a1 = (ys, a2)" by (cases "mapM f xs a1")
    with Cons.IH have "names_kept a1 a2" by blast
    moreover from y Inr ys Cons.prems have "a' = a2" by (auto split: sum.splits)
    ultimately show ?thesis using k by (blast intro: names_kept_trans)
  qed
qed

lemma bindR_keptD:
  assumes "names_kept a (snd m)"
    and "\<And>x a1 r a'. f x a1 = (r, a') \<Longrightarrow> names_kept a1 a'"
  shows "bindR m f = (r, a') \<Longrightarrow> names_kept a a'"
  using assms
  by (cases m; cases "fst m") (auto simp: bindR_def intro: names_kept_trans)

lemma getQueryMetadata_keptD:
  "getQueryMetadata E q pn f a = (r, a') \<Longrightarrow> names_kept a a'"
  by (auto simp: getQueryMetadata_def names_kept_refl
      split: if_splits prod.splits sum.splits
      dest!: mapS_keptD [rotated] getTokenMetadata_keptD intro: names_kept_trans)

lemma optQueryMetadata_keptD:
  "optQueryMetadata E query f a = (r, a') \<Longrightarrow> names_kept a a'"
  by (auto simp: optQueryMetadata_def names_kept_refl split: option.splits prod.splits sum.splits
      dest!: getQueryMetadata_keptD)

lemma dependencyMetadata_keptD:
  "dependencyMetadata E f param a = (r, a') \<Longrightarrow> names_kept a a'"
  by (auto simp: dependencyMetadata_def Let_def names_kept_refl
      split: if_splits prod.splits sum.splits
      dest!: optQueryMetadata_keptD getTokenMetadata_keptD intro: names_kept_trans)

lemma getDependenciesMetadata_keptD:
  "getDependenciesMetadata E f deps a = (r, a') \<Longrightarrow> names_kept a a'"
  by (auto simp: getDependenciesMetadata_def Let_def
      split: if_splits prod.splits sum.splits
      dest!: mapM_keptD [rotated] dependencyMetadata_keptD)

lemma getTypeMetadata_keptD:
  "getTypeMetadata E t url deps a = (r, a') \<Longrightarrow> names_kept a a'"
  by (auto simp: getTypeMetadata_def Let_def
      split: if_splits prod.splits sum.splits
      dest!: sanitizeTokenName_keptD getDependenciesMetadata_keptD intro: names_kept_trans)

lemma getFactoryMetadata_keptD:
  "getFactoryMetadata E t url deps a = (r, a') \<Longrightarrow> names_kept a a'"
  by (auto simp: getFactoryMetadata_def Let_def
      split: if_splits prod.splits sum.splits
      dest!: sanitizeTokenName_keptD getDependenciesMetadata_keptD intro: names_kept_trans)

lemma getProviderMetadata_keptD:
  "getProviderMetadata E p a = (r, a') \<Longrightarrow> names_kept a a'"
  by (auto simp: getProviderMetadata_def Let_def names_kept_refl
      split: if_splits prod.splits sum.splits
      dest!: getTypeMetadata_keptD getFactoryMetadata_keptD getTokenMetadata_keptD
      intro: names_kept_trans)

lemma getProvidersMetadata_keptD:
  "getProvidersMetadata E ps a = (r, a') \<Longrightarrow> names_kept a a'"
  "providerMetadata E p a = (r1, a1') \<Longrightarrow> names_kept a a1'"
  "resolvedProviderMetadata E v a = (r2, a2') \<Longrightarrow> names_kept a a2'"
proof (induct E ps a and E p a and E v a arbitrary: r a' and r1 a1' and r2 a2'
    rule: getProvidersMetadata_providerMetadata_resolvedProviderMetadata.induct)
  case (1 E s)
  then show ?case by (simp add: names_kept_refl)
next
  case (2 E provider providers s)
  obtain m s1 where m: "providerMetadata E provider s = (m, s1)"
    by (cases "providerMetadata E provider s")
  with 2(1) have k: "names_kept s s1" by blast
  show ?case
  proof (cases m)
    case (Inl e)
    with m 2(3) k show ?thesis by simp
  next
    case (Inr x)
    obtain ms s2 where ms: "getProvidersMetadata E providers s1 = (ms, s2)"
      by (cases "getProvidersMetadata E providers s1")
    from 2(2) [OF m [symmetric] Inr ms] have "names_kept s1 s2" .
    moreover from m Inr ms 2(3) have "a' = s2" by (auto split: sum.splits)
    ultimately show ?thesis using k by (blast intro: names_kept_trans)
  qed
next
  case (3 E provider s)
  then show ?case by simp
next
  case (4 E providers s)
  then show ?case by (auto split: prod.splits sum.splits)
qed (auto simp: names_kept_refl split: if_splits prod.splits sum.splits
      dest!: getProviderMetadata_keptD getTypeMetadata_keptD)

lemma typesMetadata_keptD:
  "typesMetadata E ts a = (r, a') \<Longrightarrow> names_kept a a'"
  by (auto simp: typesMetadata_def dest!: mapM_keptD [rotated] getTypeMetadata_keptD)

lemma verifiedProvidersMetadata_keptD:
  "verifiedProvidersMetadata E t tree pt a = (r, a') \<Longrightarrow> names_kept a a'"
  by (auto simp: verifiedProvidersMetadata_def bindR_def throwing_def names_kept_refl
      split: sum.splits dest!: getProvidersMetadata_keptD(1))

lemma getQueriesMetadata_keptD:
  "getQueriesMetadata E qs v t a = (r, a') \<Longrightarrow> names_kept a a'"
  by (auto simp: getQueriesMetadata_def
      dest!: mapM_keptD [rotated] getQueryMetadata_keptD split: prod.splits)

lemma ownModuleLists_keptD:
  "ownModuleLists E meta a = (r, a') \<Longrightarrow> names_kept a a'"
  by (auto simp: ownModuleLists_def bindR_def names_kept_refl
      split: option.splits sum.splits prod.splits
      dest!: getProvidersMetadata_keptD(1) typesMetadata_keptD intro: names_kept_trans)

lemma loadPipeMetadata_keptD:
  "loadPipeMetadata E t a = (r, a') \<Longrightarrow> names_kept a a'"
  by (auto simp: loadPipeMetadata_def bindR_def throwing_def names_kept_refl
      split: option.splits sum.splits prod.splits
      dest!: getTypeMetadata_keptD)

lemma componentMetadata_keptD:
  "componentMetadata E t c a = (r, a') \<Longrightarrow> names_kept a a'"
  by (auto simp: componentMetadata_def bindR_def throwing_def asserting_def names_kept_refl
      split: option.splits sum.splits prod.splits
      dest!: verifiedProvidersMetadata_keptD typesMetadata_keptD intro: names_kept_trans)

lemma loadDirectiveMetadata_keptD:
  "loadDirectiveMetadata E t a = (r, a') \<Longrightarrow> names_kept a a'"
  by (auto simp: loadDirectiveMetadata_def bindR_def throwing_def names_kept_refl
      split: option.splits sum.splits prod.splits
      dest!: componentMetadata_keptD verifiedProvidersMetadata_keptD getQueriesMetadata_keptD
        getTypeMetadata_keptD
      intro: names_kept_trans)
     (blast intro: names_kept_trans)+

lemma withNames_keptD:
  assumes "withNames f s = (r, s')" and "\<And>a r a'. f a = (r, a') \<Longrightarrow> names_kept a a'"
  shows "names_kept (anonymous s) (anonymous s')"
  using assms by (auto simp: withNames_def split: prod.splits)

lemma withNames_caches:
  assumes "withNames f s = (r, s')"
  shows "directiveCache s' = directiveCache s \<and> pipeCache s' = pipeCache s \<and>
    appModuleCache s' = appModuleCache s"
  using assms by (auto simp: withNames_def split: prod.splits)

lemma getDirectiveMetadata_keptD:
  "getDirectiveMetadata E T s = (r, s') \<Longrightarrow> names_kept (anonymous s) (anonymous s')"
  by (auto simp: getDirectiveMetadata_def Let_def names_kept_refl
      split: option.splits sum.splits prod.splits
      dest!: withNames_keptD [OF _ loadDirectiveMetadata_keptD])

lemma maybeGetDirectiveMetadata_keptD:
  "maybeGetDirectiveMetadata E T s = (r, s') \<Longrightarrow> names_kept (anonymous s) (anonymous s')"
  by (auto simp: maybeGetDirectiveMetadata_def
      split: sum.splits prod.splits if_splits dest!: getDirectiveMetadata_keptD)

lemma getPipeMetadata_keptD:
  "getPipeMetadata E T s = (r, s') \<Longrightarrow> names_kept (anonymous s) (anonymous s')"
  by (auto simp: getPipeMetadata_def Let_def names_kept_refl
      split: option.splits sum.splits prod.splits
      dest!: withNames_keptD [OF _ loadPipeMetadata_keptD])

lemma clearCache_names: "anonymous (clearCache s) = anonymous s"
  by (simp add: clearCache_def)

lemma clearCacheFor_names: "anonymous (clearCacheFor T s) = anonymous s"
  by (simp add: clearCacheFor_def)

lemma getAppModuleMetadata_keptD:
  "getAppModuleMetadata n E T meta s = Some (r, s') \<Longrightarrow>
     names_kept (anonymous s) (anonymous s')"
  "loadAppModuleMetadata n1 E1 T1 meta1 s1 = Some (r1, s1') \<Longrightarrow>
     names_kept (anonymous s1) (anonymous s1')"
  "nestedModules n2 E2 ms l s2 = Some (r2, s2') \<Longrightarrow>
     names_kept (anonymous s2) (anonymous s2')"
proof (induct n E T meta s and n1 E1 T1 meta1 s1 and n2 E2 ms l s2
    arbitrary: r s' and r1 s1' and r2 s2'
    rule: getAppModuleMetadata_loadAppModuleMetadata_nestedModules.induct)
  case (1 E moduleType0 meta0 s)
  then show ?case by simp
next
  case (2 n E moduleType0 meta0 s)
  show ?case
  proof (cases "appModuleCache s (resolveForwardRef moduleType0) = None \<or> meta0 \<noteq> None")
    case True
    with 2(2) obtain r1 t1 where
      l: "loadAppModuleMetadata n E (resolveForwardRef moduleType0) meta0 s = Some (r1, t1)"
      and a: "anonymous s' = anonymous t1"
      by (auto simp: getAppModuleMetadata.simps Let_def
          split: option.splits prod.splits sum.splits if_splits)
    from True have "appModuleCache s (resolveForwardRef moduleType0) = None
        \<or> \<not> (meta0 = None)" by simp
    from 2(1) [OF refl refl refl this l] a show ?thesis by simp
  next
    case False
    with 2(2) show ?thesis by (auto simp: getAppModuleMetadata.simps Let_def names_kept_refl)
  qed
next
  case (3 n E moduleType meta0 s)
  note run = 3(2) [unfolded loadAppModuleMetadata.simps]
  show ?case
  proof (cases "case meta0 of Some m \<Rightarrow> Some m
      | None \<Rightarrow> findAppModuleMetadata (reflector_annotations E moduleType)")
    case None
    with run show ?thesis by (simp add: names_kept_refl)
  next
    case (Some meta)
    obtain o1 t1 where o: "withNames (ownModuleLists E meta) s = (o1, t1)"
      by (cases "withNames (ownModuleLists E meta) s")
    from withNames_keptD [OF o ownModuleLists_keptD]
    have k1: "names_kept (anonymous s) (anonymous t1)" .
    show ?thesis
    proof (cases o1)
      case (Inl e)
      with Some o run k1 show ?thesis by simp
    next
      case (Inr own)
      let ?ms = "nestedModuleItems meta"
      show ?thesis
      proof (cases "nestedModules n E ?ms own t1")
        case None
        with Some o Inr run show ?thesis by simp
      next
        case Some2: (Some x)
        obtain o2 t2 where x: "x = (o2, t2)" by (cases x)
        from 3(1) [OF Some o [symmetric] Inr] Some2 x
        have k2: "names_kept (anonymous t1) (anonymous t2)" by simp
        show ?thesis
        proof (cases o2)
          case (Inl e)
          with Some o Inr Some2 x run k1 k2 show ?thesis
            by (auto intro: names_kept_trans)
        next
          case Inr2: (Inr l)
          obtain o3 t3 where t: "withNames (getTypeMetadata E moduleType
              (staticTypeModuleUrl moduleType) None) t2 = (o3, t3)"
            by (cases "withNames (getTypeMetadata E moduleType
              (staticTypeModuleUrl moduleType) None) t2")
          from withNames_keptD [OF t getTypeMetadata_keptD]
          have k3: "names_kept (anonymous t2) (anonymous t3)" .
          from k1 k2 k3 have "names_kept (anonymous s) (anonymous t3)"
            by (blast intro: names_kept_trans)
          moreover from Some o Inr Some2 x Inr2 t run have "s1' = t3"
            by (auto split: sum.splits)
          ultimately show ?thesis by simp
        qed
      qed
    qed
  qed
next
  case (4 n E l s)
  then show ?case by (simp add: names_kept_refl)
next
  case (5 n E moduleType rest l s)
  show ?case
  proof (cases "getAppModuleMetadata n E moduleType None s")
    case None
    with 5(3) show ?thesis by simp
  next
    case (Some x)
    obtain o1 t1 where x: "x = (o1, t1)" by (cases x)
    from 5(1) Some x have k1: "names_kept (anonymous s) (anonymous t1)" by simp
    show ?thesis
    proof (cases o1)
      case (Inl e)
      with Some x 5(3) k1 show ?thesis by simp
    next
      case (Inr meta)
      with Some x 5(3) have "nestedModules n E rest (pushModule meta l) t1 = Some (r2, s2')"
        by simp
      from 5(2) [OF Some x [symmetric] Inr this] k1 show ?thesis
        by (blast intro: names_kept_trans)
    qed
  qed
qed

lemma mapM_resolver_keptD:
  assumes "\<And>x s r s'. f x s = (r, s') \<Longrightarrow> names_kept (anonymous s) (anonymous s')"
  shows "mapM f xs s = (r, s') \<Longrightarrow> names_kept (anonymous s) (anonymous s')"
proof (induction xs arbitrary: s r s')
  case Nil
  then show ?case by (simp add: names_kept_refl)
next
  case (Cons x xs)
  obtain y s1 where y: "f x s = (y, s1)" by (cases "f x s")
  with assms have k: "names_kept (anonymous s) (anonymous s1)" by blast
  show ?case
  proof (cases y)
    case (Inl e)
    with y Cons.prems k show ?thesis by simp
  next
    case (Inr v)
    obtain ys s2 where ys: "mapM f xs s1 = (ys, s2)" by (cases "mapM f xs s1")
    with Cons.IH have "names_kept (anonymous s1) (anonymous s2)" by blast
    moreover from y Inr ys Cons.prems have "s' = s2" by (auto split: sum.splits)
    ultimately show ?thesis using k by (blast intro: names_kept_trans)
  qed
qed

lemma getViewDirectivesMetadata_keptD:
  "getViewDirectivesMetadata E c s = (r, s') \<Longrightarrow> names_kept (anonymous s) (anonymous s')"
  by (auto simp: getViewDirectivesMetadata_def bindR_def throwing_def Let_def names_kept_refl
      split: sum.splits option.splits
      dest!: mapM_resolver_keptD [rotated] getDirectiveMetadata_keptD)

lemma getViewPipesMetadata_keptD:
  "getViewPipesMetadata E c s = (r, s') \<Longrightarrow> names_kept (anonymous s) (anonymous s')"
  by (auto simp: getViewPipesMetadata_def bindR_def throwing_def Let_def names_kept_refl
      split: sum.splits option.splits
      dest!: mapM_resolver_keptD [rotated] getPipeMetadata_keptD)

lemma withNames_kept:
  assumes "\<And>a r a'. f a = (r, a') \<Longrightarrow> names_kept a a'"
  shows "names_kept (anonymous s) (anonymous (snd (withNames f s)))"
  using withNames_keptD [of f s "fst (withNames f s)" "snd (withNames f s)"] assms by simp

lemma later_names_kept: "later E s s' \<Longrightarrow> names_kept (anonymous s) (anonymous s')"
proof (induction rule: later.induct)
  case later_now
  show ?case by (rule names_kept_refl)
next
  case (later_clearCache s1)
  then show ?case by (simp add: clearCache_names)
next
  case (later_clearCacheFor s1 type)
  then show ?case by (simp add: clearCacheFor_names)
next
  case (later_getDirectiveMetadata s1 type)
  from getDirectiveMetadata_keptD [of E type s1 "fst (getDirectiveMetadata E type s1)"
      "snd (getDirectiveMetadata E type s1)"] later_getDirectiveMetadata.IH
  show ?case by (auto intro: names_kept_trans)
next
  case (later_maybeGetDirectiveMetadata s1 type)
  from maybeGetDirectiveMetadata_keptD [of E type s1 "fst (maybeGetDirectiveMetadata E type s1)"
      "snd (maybeGetDirectiveMetadata E type s1)"] later_maybeGetDirectiveMetadata.IH
  show ?case by (auto intro: names_kept_trans)
next
  case (later_getPipeMetadata s1 type)
  from getPipeMetadata_keptD [of E type s1 "fst (getPipeMetadata E type s1)"
      "snd (getPipeMetadata E type s1)"] later_getPipeMetadata.IH
  show ?case by (auto intro: names_kept_trans)
next
  case (later_getAppModuleMetadata s1 n type meta r s2)
  from getAppModuleMetadata_keptD(1) [OF later_getAppModuleMetadata.hyps(2)]
    later_getAppModuleMetadata.IH
  show ?case by (auto intro: names_kept_trans)
next
  case (later_getViewDirectivesMetadata s1 type)
  from getViewDirectivesMetadata_keptD [of E type s1 "fst (getViewDirectivesMetadata E type s1)"
      "snd (getViewDirectivesMetadata E type s1)"] later_getViewDirectivesMetadata.IH
  show ?case by (auto intro: names_kept_trans)
next
  case (later_getViewPipesMetadata s1 type)
  from getViewPipesMetadata_keptD [of E type s1 "fst (getViewPipesMetadata E type s1)"
      "snd (getViewPipesMetadata E type s1)"] later_getViewPipesMetadata.IH
  show ?case by (auto intro: names_kept_trans)
next
  case (later_getTypeMetadata s1 type moduleUrl dependencies)
  from withNames_kept [of "getTypeMetadata E type moduleUrl dependencies" s1]
    getTypeMetadata_keptD later_getTypeMetadata.IH
  show ?case by (blast intro: names_kept_trans)
next
  case (later_getFactoryMetadata s1 type moduleUrl dependencies)
  from withNames_kept [of "getFactoryMetadata E type moduleUrl dependencies" s1]
    getFactoryMetadata_keptD later_getFactoryMetadata.IH
  show ?case by (blast intro: names_kept_trans)
next
  case (later_getDependenciesMetadata s1 type dependencies)
  from withNames_kept [of "getDependenciesMetadata E type dependencies" s1]
    getDependenciesMetadata_keptD later_getDependenciesMetadata.IH
  show ?case by (blast intro: names_kept_trans)
next
  case (later_getTokenMetadata s1 tok)
  from withNames_kept [of "getTokenMetadata E tok" s1]
    getTokenMetadata_keptD later_getTokenMetadata.IH
  show ?case by (blast intro: names_kept_trans)
next
  case (later_getProvidersMetadata s1 providers)
  from withNames_kept [of "getProvidersMetadata E providers" s1]
    getProvidersMetadata_keptD(1) later_getProvidersMetadata.IH
  show ?case by (blast intro: names_kept_trans)
next
  case (later_getProviderMetadata s1 provider)
  from withNames_kept [of "getProviderMetadata E provider" s1]
    getProviderMetadata_keptD later_getProviderMetadata.IH
  show ?case by (blast intro: names_kept_trans)
next
  case (later_getQueriesMetadata s1 queries isViewQuery type)
  from withNames_kept [of "getQueriesMetadata E queries isViewQuery type" s1]
    getQueriesMetadata_keptD later_getQueriesMetadata.IH
  show ?case by (blast intro: names_kept_trans)
next
  case (later_getQueryMetadata s1 q propertyName type)
  from withNames_kept [of "getQueryMetadata E q propertyName type" s1]
    getQueryMetadata_keptD later_getQueryMetadata.IH
  show ?case by (blast intro: names_kept_trans)
qed

text \<open>The decimal numerals of different numbers differ.\<close>

lemma string_of_nat_nonempty: "string_of_nat n \<noteq> []"
  by (subst string_of_nat.simps) simp

lemma digit_inj:
  assumes "i < 10" "j < 10" "''0123456789'' ! i = ''0123456789'' ! j"
  shows "i = j"
proof -
  have "distinct ''0123456789''" by simp
  with assms show ?thesis by (simp add: nth_eq_iff_index_eq)
qed

lemma string_of_nat_inj: "string_of_nat n = string_of_nat m \<Longrightarrow> n = m"
proof (induction n arbitrary: m rule: less_induct)
  case (less n)
  show ?case
  proof (cases "n < 10")
    case True
    then have n: "string_of_nat n = [''0123456789'' ! n]"
      by (subst string_of_nat.simps) simp
    show ?thesis
    proof (cases "m < 10")
      case m: True
      then have "string_of_nat m = [''0123456789'' ! m]"
        by (subst string_of_nat.simps) simp
      with n less.prems True m show ?thesis by (simp add: digit_inj)
    next
      case False
      then have "string_of_nat m = string_of_nat (m div 10) @ [''0123456789'' ! (m mod 10)]"
        by (subst string_of_nat.simps) simp
      with n less.prems string_of_nat_nonempty [of "m div 10"] show ?thesis by simp
    qed
  next
    case False
    then have n: "string_of_nat n = string_of_nat (n div 10) @ [''0123456789'' ! (n mod 10)]"
      by (subst string_of_nat.simps) simp
    show ?thesis
    proof (cases "m < 10")
      case True
      then have "string_of_nat m = [''0123456789'' ! m]"
        by (subst string_of_nat.simps) simp
      with n less.prems string_of_nat_nonempty [of "n div 10"] show ?thesis by simp
    next
      case m: False
      then have "string_of_nat m = string_of_nat (m div 10) @ [''0123456789'' ! (m mod 10)]"
        by (subst string_of_nat.simps) simp
      with n less.prems have
        a: "string_of_nat (n div 10) = string_of_nat (m div 10)" and
        b: "''0123456789'' ! (n mod 10) = ''0123456789'' ! (m mod 10)"
        by simp_all
      from False have "n div 10 < n" by simp
      from less.IH [OF this a] have "n div 10 = m div 10" .
      moreover from b have "n mod 10 = m mod 10" by (simp add: digit_inj)
      ultimately show ?thesis by (metis div_mult_mod_eq)
    qed
  qed
qed

lemma anonymous_token_inj: "anonymous_token n = anonymous_token m \<Longrightarrow> n = m"
  by (simp add: anonymous_token_def string_of_nat_inj)

lemma sanitizeTokenName_anonymous:
  assumes "CHR ''('' \<in> set (stringify E t)" and "sanitizeTokenName E t a = (name, a')"
  shows "\<exists>N. anonymousTypes a' t = Some N \<and> name = sanitizeIdentifier E (anonymous_token N)"
  using assms by (auto simp: sanitizeTokenName_def Let_def split: option.splits)

lemma names_wf_new: "names_wf new_names"
  by (simp add: names_wf_def new_names_def)

lemma digits_word_chars: "k < 10 \<Longrightarrow> word_char (''0123456789'' ! k)"
proof -
  assume "k < 10"
  then have "''0123456789'' ! k \<in> set ''0123456789''" by (intro nth_mem) simp
  then show ?thesis unfolding word_char_def by auto
qed

lemma string_of_nat_word_chars: "\<forall>c \<in> set (string_of_nat n). word_char c"
proof (induction n rule: string_of_nat.induct)
  case (1 n)
  show ?case
  proof (cases "n < 10")
    case True
    then show ?thesis by (subst string_of_nat.simps) (simp add: digits_word_chars)
  next
    case False
    with 1 show ?thesis by (subst string_of_nat.simps) (simp add: digits_word_chars)
  qed
qed

lemma sample_sanitize_anonymous:
  "sanitizeIdentifier sample_env (anonymous_token n) = anonymous_token n"
proof -
  have "\<forall>c \<in> set (anonymous_token n). word_char c"
    using string_of_nat_word_chars [of n]
    by (auto simp: anonymous_token_def word_char_def)
  then have "sample_sanitizeIdentifier (anonymous_token n) = anonymous_token n"
    by (simp add: sample_sanitizeIdentifier_def map_idI)
  then show ?thesis by (simp add: sample_env_def)
qed

text \<open>
  C6. Let \<open>sanitizeIdentifier\<close> leave the synthetic names as they are. In a resolver
  that started empty, let an anonymous token (one that prints with an opening
  parenthesis) be named, let the resolver then go through any calls of its methods,
  \<open>clearCache\<close> and \<open>clearCacheFor\<close> among them, and let an anonymous token be named
  again. Then the first name has the shape \<^verbatim>\<open>anonymous_token_<N>_\<close>, the second name is
  the same if the token is the same, and differs if the token is another one.
\<close>

theorem anonymous_names_stable:
  assumes san: "\<forall>n. sanitizeIdentifier E (anonymous_token n) = anonymous_token n"
    and reach: "later E new_resolver s"
    and t: "CHR ''('' \<in> set (stringify E t)"
    and u: "CHR ''('' \<in> set (stringify E u)"
    and first: "withNames (sanitizeTokenName E t) s = (name_t, s1)"
    and between: "later E s1 s2"
    and second: "withNames (sanitizeTokenName E u) s2 = (name_u, s3)"
  shows "(\<exists>N. name_t = anonymous_token N) \<and> (u = t \<longrightarrow> name_u = name_t) \<and>
    (u \<noteq> t \<longrightarrow> name_u \<noteq> name_t)"
proof -
  from later_names_kept [OF reach] names_wf_new have w: "names_wf (anonymous s)"
    by (simp add: names_kept_def new_resolver_def)
  from first have f: "sanitizeTokenName E t (anonymous s) = (name_t, anonymous s1)"
    by (auto simp: withNames_def split: prod.splits)
  from second have g: "sanitizeTokenName E u (anonymous s2) = (name_u, anonymous s3)"
    by (auto simp: withNames_def split: prod.splits)
  from sanitizeTokenName_anonymous [OF t f] san obtain N where
    N: "anonymousTypes (anonymous s1) t = Some N" and nt: "name_t = anonymous_token N"
    by auto
  from sanitizeTokenName_anonymous [OF u g] san obtain M where
    M: "anonymousTypes (anonymous s3) u = Some M" and nu: "name_u = anonymous_token M"
    by auto
  have k1: "names_kept (anonymous s) (anonymous s1)"
    using sanitizeTokenName_keptD [OF f] .
  have k2: "names_kept (anonymous s1) (anonymous s2)"
    using later_names_kept [OF between] .
  have k3: "names_kept (anonymous s2) (anonymous s3)"
    using sanitizeTokenName_keptD [OF g] .
  from k1 k2 k3 w have w3: "names_wf (anonymous s3)" by (simp add: names_kept_def)
  from k2 k3 N have N3: "anonymousTypes (anonymous s3) t = Some N" by (simp add: names_kept_def)
  have same: "name_u = name_t" if "u = t"
    using that M N3 nt nu by simp
  have differ: "name_u \<noteq> name_t" if "u \<noteq> t"
  proof
    assume "name_u = name_t"
    with nt nu have "M = N" by (simp add: anonymous_token_inj)
    with M N3 w3 have "u = t" unfolding names_wf_def by blast
    with that show False by simp
  qed
  from nt same differ show ?thesis by blast
qed

theorem anonymous_names_stable_witness:
  "fst (withNames (sanitizeTokenName sample_env (VType 100)) new_resolver)
     = ''anonymous_token_0_'' \<and>
   fst (withNames (sanitizeTokenName sample_env (VType 100))
          (clearCache (snd (withNames (sanitizeTokenName sample_env (VType 100)) new_resolver))))
     = ''anonymous_token_0_'' \<and>
   fst (withNames (sanitizeTokenName sample_env (VType 101))
          (clearCacheFor (VType 100)
             (snd (withNames (sanitizeTokenName sample_env (VType 100)) new_resolver))))
     \<noteq> ''anonymous_token_0_''"
proof -
  let ?s1 = "snd (withNames (sanitizeTokenName sample_env (VType 100)) new_resolver)"
  have san: "\<forall>n. sanitizeIdentifier sample_env (anonymous_token n) = anonymous_token n"
    by (simp add: sample_sanitize_anonymous)
  have t: "CHR ''('' \<in> set (stringify sample_env (VType 100))"
    and u: "CHR ''('' \<in> set (stringify sample_env (VType 101))"
    by (simp_all add: sample_env_def)
  have n: "fst (withNames (sanitizeTokenName sample_env (VType 100)) new_resolver)
     = ''anonymous_token_0_''" by code_simp
  then have first: "withNames (sanitizeTokenName sample_env (VType 100)) new_resolver
     = (''anonymous_token_0_'', ?s1)" by (simp add: prod_eq_iff)
  have b1: "later sample_env ?s1 (clearCache ?s1)"
    by (intro later_clearCache later_now)
  have b2: "later sample_env ?s1 (clearCacheFor (VType 100) ?s1)"
    by (intro later_clearCacheFor later_now)
  from anonymous_names_stable [OF san later_now t t first b1, of
      "fst (withNames (sanitizeTokenName sample_env (VType 100)) (clearCache ?s1))"
      "snd (withNames (sanitizeTokenName sample_env (VType 100)) (clearCache ?s1))"]
  have "fst (withNames (sanitizeTokenName sample_env (VType 100)) (clearCache ?s1))
     = ''anonymous_token_0_''" by simp
  moreover
  from anonymous_names_stable [OF san later_now t u first b2, of
      "fst (withNames (sanitizeTokenName sample_env (VType 101)) (clearCacheFor (VType 100) ?s1))"
      "snd (withNames (sanitizeTokenName sample_env (VType 101)) (clearCacheFor (VType 100) ?s1))"]
  have "fst (withNames (sanitizeTokenName sample_env (VType 101))
          (clearCacheFor (VType 100) ?s1)) \<noteq> ''anonymous_token_0_''" by simp
  ultimately show ?thesis using n by simp
qed

subsection \<open>Unresolved parameters\<close>

lemma sanitizeTokenName_stable:
  assumes "sanitizeTokenName E tok s = (name, s1)" and "names_kept s1 s'"
  shows "fst (sanitizeTokenName E tok s') = name"
proof (cases "CHR ''('' \<in> set (stringify E tok)")
  case False
  with assms(1) show ?thesis by (simp add: sanitizeTokenName_def Let_def)
next
  case True
  with assms(1) obtain found where
    "anonymousTypes s1 tok = Some found" "name = sanitizeIdentifier E (anonymous_token found)"
    by (auto simp: sanitizeTokenName_def Let_def split: option.splits)
  moreover from this assms(2) have "anonymousTypes s' tok = Some found"
    by (simp add: names_kept_def)
  ultimately show ?thesis using True by (simp add: sanitizeTokenName_def Let_def)
qed

lemma getTokenMetadata_stable:
  assumes "getTokenMetadata E tok s = (t, s1)" and "names_kept s1 s'"
  shows "fst (getTokenMetadata E tok s') = t"
proof (cases "isString (resolveForwardRef tok)")
  case True
  with assms(1) show ?thesis by (auto simp: getTokenMetadata_def Let_def)
next
  case False
  with assms(1) obtain name where
    n: "sanitizeTokenName E (resolveForwardRef tok) s = (name, s1)" and
    t: "t = \<lparr>ct_value = VNull,
               ct_identifier = Some \<lparr>ci_runtime = resolveForwardRef tok, ci_name = Some name,
                 ci_moduleUrl = staticTypeModuleUrl (resolveForwardRef tok)\<rparr>\<rparr>"
    by (auto simp: getTokenMetadata_def Let_def split: prod.splits)
  from sanitizeTokenName_stable [OF n assms(2)] False t show ?thesis
    by (auto simp: getTokenMetadata_def Let_def split: prod.splits)
qed

lemma dependencyMetadata_listed:
  assumes "dependencyMetadata E typeOrFunc param s = (Inr dep, s1)" and "names_kept s1 s'"
  shows "(case dep of Some d \<Rightarrow> stringifyToken E (dd_token d) | None \<Rightarrow> ''?'')
    = listedParameter E s' param"
proof (cases "isBlank (ps_token (scanParam param))")
  case True
  with assms(1) show ?thesis
    by (auto simp: dependencyMetadata_def listedParameter_def)
next
  case False
  with assms(1) obtain s2 tok where
    g: "getTokenMetadata E (ps_token (scanParam param)) s2 = (tok, s1)" and
    d: "\<exists>d. dep = Some d \<and> dd_token d = tok"
    by (auto simp: dependencyMetadata_def Let_def split: prod.splits sum.splits)
  from getTokenMetadata_stable [OF g assms(2)] d False show ?thesis
    by (auto simp: listedParameter_def)
qed

lemma listedParameter_kept:
  assumes "dependencyMetadata E typeOrFunc param s = (Inr dep, s1)"
    and "names_kept s1 s2" and "names_kept s2 s'"
  shows "listedParameter E s2 param = listedParameter E s' param"
  using dependencyMetadata_listed [OF assms(1,2)]
    dependencyMetadata_listed [OF assms(1) names_kept_trans [OF assms(2,3)]]
  by simp

lemma dependencies_listed:
  "mapM (dependencyMetadata E typeOrFunc) params s = (Inr deps, s') \<Longrightarrow>
   map (\<lambda>dep. case dep of Some d \<Rightarrow> stringifyToken E (dd_token d) | None \<Rightarrow> ''?'') deps
     = map (listedParameter E s') params"
proof (induction params arbitrary: s deps)
  case Nil
  then show ?case by simp
next
  case (Cons p ps)
  from Cons.prems obtain dep s1 deps' where
    d: "dependencyMetadata E typeOrFunc p s = (Inr dep, s1)" and
    r: "mapM (dependencyMetadata E typeOrFunc) ps s1 = (Inr deps', s')" and
    deps: "deps = dep # deps'"
    by (auto split: prod.splits sum.splits)
  have k: "names_kept s1 s'"
    using r by (rule mapM_keptD [rotated]) (rule dependencyMetadata_keptD)
  from dependencyMetadata_listed [OF d k] Cons.IH [OF r] deps show ?case by simp
qed

lemma getQueryMetadata_fails:
  "\<not> query_constructible q \<Longrightarrow>
   getQueryMetadata E q pn f s = (Inl (selectorNotDefined E pn f), s)"
  by (simp add: getQueryMetadata_def query_constructible_def)

lemma dependencyMetadata_fails:
  assumes "\<not> queries_constructible param"
  shows "\<exists>s'. dependencyMetadata E typeOrFunc param s
    = (Inl (selectorNotDefined E None typeOrFunc), s')"
proof -
  let ?a = "scanParam param"
  from assms have b: "\<not> isBlank (ps_token ?a)" by (simp add: queries_constructible_def)
  show ?thesis
  proof (cases "\<exists>q. ps_query ?a = Some q \<and> \<not> query_constructible q")
    case True
    then obtain q where "ps_query ?a = Some q" "\<not> query_constructible q" by blast
    with b show ?thesis
      by (simp add: dependencyMetadata_def optQueryMetadata_def getQueryMetadata_fails)
  next
    case False
    with assms obtain q where v: "ps_viewQuery ?a = Some q" "\<not> query_constructible q"
      by (auto simp: queries_constructible_def)
    from False obtain query s1 where
      "optQueryMetadata E (ps_query ?a) typeOrFunc s = (Inr query, s1)"
      using optQueryMetadata_returns [of "ps_query ?a" E typeOrFunc s] by auto
    with b v show ?thesis
      by (simp add: dependencyMetadata_def optQueryMetadata_def getQueryMetadata_fails)
  qed
qed

lemma dependencies_query_fails:
  "\<not> (\<forall>p \<in> set params. queries_constructible p) \<Longrightarrow>
   \<exists>s'. mapM (dependencyMetadata E typeOrFunc) params s
     = (Inl (selectorNotDefined E None typeOrFunc), s')"
proof (induction params arbitrary: s)
  case Nil
  then show ?case by simp
next
  case (Cons p ps)
  show ?case
  proof (cases "queries_constructible p")
    case False
    from dependencyMetadata_fails [OF this, of E typeOrFunc s] show ?thesis by auto
  next
    case True
    from dependencyMetadata_returns [OF this, of E typeOrFunc s] obtain d s1 where
      d: "dependencyMetadata E typeOrFunc p s = (Inr d, s1)" by blast
    from True Cons.prems have "\<not> (\<forall>p \<in> set ps. queries_constructible p)" by simp
    from Cons.IH [OF this, of s1] d show ?thesis by auto
  qed
qed

text \<open>
  C3, as amended. If any parameter of the list is unresolved, the whole call throws
  and returns no list. When the queries of all resolved parameters can be constructed,
  the exception is the one whose message lists, for every parameter in order, its
  resolved token (as the names the call leaves give it) or \<^verbatim>\<open>?\<close> for an unresolved
  one. Otherwise the query of a resolved parameter throws first, and the exception is
  the one of a query without selector, whose message lists no parameter.
\<close>

theorem dependencies_all_or_nothing:
  assumes "\<exists>p \<in> set (dependencyParams E typeOrFunc dependencies). isBlank (ps_token (scanParam p))"
  shows "\<exists>e s'. getDependenciesMetadata E typeOrFunc dependencies s = (Inl e, s') \<and>
    ((\<forall>p \<in> set (dependencyParams E typeOrFunc dependencies). queries_constructible p) \<longrightarrow>
       e = unresolvedParameters E typeOrFunc (dependencyParams E typeOrFunc dependencies) s') \<and>
    (\<not> (\<forall>p \<in> set (dependencyParams E typeOrFunc dependencies). queries_constructible p) \<longrightarrow>
       e = selectorNotDefined E None typeOrFunc)"
proof (cases "\<forall>p \<in> set (dependencyParams E typeOrFunc dependencies). queries_constructible p")
  case True
  let ?params = "dependencyParams E typeOrFunc dependencies"
  from True dependencyMetadata_returns obtain deps s1 where
    m: "mapM (dependencyMetadata E typeOrFunc) ?params s = (Inr deps, s1)"
    using mapM_returns [of ?params "dependencyMetadata E typeOrFunc" s] by blast
  from assms getDependenciesMetadata_fails obtain e s' where
    r: "getDependenciesMetadata E typeOrFunc dependencies s = (Inl e, s')" by blast
  with m have e: "e = cannotResolveParameters E typeOrFunc deps" and s': "s' = s1"
    by (auto simp: getDependenciesMetadata_def Let_def split: if_splits)
  from dependencies_listed [OF m] e
  have "e = unresolvedParameters E typeOrFunc ?params s1"
    by (simp add: cannotResolveParameters_def depsTokens_def unresolvedParameters_def)
  with r s' True show ?thesis by simp
next
  case False
  from dependencies_query_fails [OF this, of E typeOrFunc s] obtain s' where
    "mapM (dependencyMetadata E typeOrFunc) (dependencyParams E typeOrFunc dependencies) s
     = (Inl (selectorNotDefined E None typeOrFunc), s')" by blast
  then have "getDependenciesMetadata E typeOrFunc dependencies s
     = (Inl (selectorNotDefined E None typeOrFunc), s')"
    by (simp add: getDependenciesMetadata_def)
  with False show ?thesis by auto
qed

theorem dependencies_all_or_nothing_witness:
  "(\<exists>p \<in> set (dependencyParams sample_env (VType 5)
               (Some [VType 7, VArr [VQuery unselected_query], VType 8])).
      isBlank (ps_token (scanParam p))) \<and>
   queries_constructible (VType 7) \<and>
   queries_constructible (VArr [VQuery unselected_query]) \<and>
   queries_constructible (VType 8) \<and>
   fst (getDependenciesMetadata sample_env (VType 5)
          (Some [VType 7, VArr [VQuery unselected_query], VType 8]) new_names)
     = Inl (unresolvedParameters sample_env (VType 5)
         [VType 7, VArr [VQuery unselected_query], VType 8]
         (snd (getDependenciesMetadata sample_env (VType 5)
          (Some [VType 7, VArr [VQuery unselected_query], VType 8]) new_names))) \<and>
   unresolvedParameters sample_env (VType 5)
         [VType 7, VArr [VQuery unselected_query], VType 8]
         (snd (getDependenciesMetadata sample_env (VType 5)
          (Some [VType 7, VArr [VQuery unselected_query], VType 8]) new_names))
     = BaseException ''Can't resolve all parameters for T5: (T7, ?, T8).''"
proof -
  let ?d = "Some [VType 7, VArr [VQuery unselected_query], VType 8]"
  have p: "dependencyParams sample_env (VType 5) ?d
      = [VType 7, VArr [VQuery unselected_query], VType 8]"
    by (simp add: dependencyParams_def)
  have h: "\<exists>p \<in> set (dependencyParams sample_env (VType 5) ?d).
      isBlank (ps_token (scanParam p))"
    by (simp add: dependencyParams_def scan_init_def unselected_query_def)
  have c: "\<forall>p \<in> set (dependencyParams sample_env (VType 5) ?d). queries_constructible p"
    by (simp add: dependencyParams_def queries_constructible_def scan_init_def
        unselected_query_def)
  from dependencies_all_or_nothing [OF h, of new_names] c
  have e: "fst (getDependenciesMetadata sample_env (VType 5) ?d new_names)
     = Inl (unresolvedParameters sample_env (VType 5) (dependencyParams sample_env (VType 5) ?d)
         (snd (getDependenciesMetadata sample_env (VType 5) ?d new_names)))"
    by auto
  have "unresolvedParameters sample_env (VType 5)
         [VType 7, VArr [VQuery unselected_query], VType 8]
         (snd (getDependenciesMetadata sample_env (VType 5) ?d new_names))
     = BaseException ''Can't resolve all parameters for T5: (T7, ?, T8).''"
    by code_simp
  with h c e p show ?thesis by simp
qed

text \<open>
  C3, as stated, fails: the second parameter below is unresolved, but the query of the
  first one has no selector, and the call throws the exception of the query, whose
  message lists no parameter.
\<close>

theorem query_error_first_counterexample:
  "isBlank (ps_token (scanParam (VArr [InjectMetadata VNull]))) \<and>
   fst (getDependenciesMetadata sample_env (VType 5)
          (Some [VArr [VType 7, VQuery unselected_query], VArr [InjectMetadata VNull]])
          new_names)
     = Inl (BaseException
         ''Can't construct a query for the property \"null\" of \"T5\" since the query selector wasn't defined.'')"
  by code_simp

subsection \<open>Modules\<close>

lemma ownModuleLists_declared: "ownModuleLists E meta a = declaredLists E meta a"
  by (simp add: ownModuleLists_def declaredLists_def declaredProviders_def declaredTypes_def
      typesMetadata_def bindR_def
      split: option.splits prod.splits sum.splits)

lemma nestedModuleItems_declared: "nestedModuleItems meta = declaredModules meta"
  by (simp add: nestedModuleItems_def declaredModules_def)

lemma fold_pushModule:
  "fold pushModule metas l =
     \<lparr>ml_providers = ml_providers l @ concat (map am_providers metas),
      ml_directives = ml_directives l @ concat (map am_directives metas),
      ml_pipes = ml_pipes l @ concat (map am_pipes metas),
      ml_precompile = ml_precompile l @ concat (map am_precompile metas),
      ml_modules = ml_modules l @ concat (map (\<lambda>r. am_type r # am_modules r) metas)\<rparr>"
  by (induction metas arbitrary: l) (simp_all add: pushModule_def)

lemma nestedModules_results:
  "(nestedModules n E ms l s = Some (Inr l', s')) =
   (\<exists>metas. nestedResults n E ms s = Some (metas, s') \<and> l' = fold pushModule metas l)"
proof (induction ms arbitrary: l s)
  case Nil
  then show ?case by auto
next
  case (Cons m ms)
  show ?case
  proof (cases "getAppModuleMetadata n E m None s")
    case None
    then show ?thesis by simp
  next
    case (Some r)
    obtain x s1 where r: "r = (x, s1)" by (cases r)
    show ?thesis
    proof (cases x)
      case (Inl e)
      with Some r show ?thesis by simp
    next
      case (Inr meta)
      have "(nestedModules n E (m # ms) l s = Some (Inr l', s')) =
        (nestedModules n E ms (pushModule meta l) s1 = Some (Inr l', s'))"
        using Some r Inr by simp
      also have "\<dots> = (\<exists>metas. nestedResults n E ms s1 = Some (metas, s') \<and>
          l' = fold pushModule metas (pushModule meta l))"
        by (rule Cons.IH)
      also have "\<dots> = (\<exists>metas. nestedResults n E (m # ms) s = Some (metas, s') \<and>
          l' = fold pushModule metas l)"
      proof
        assume "\<exists>metas. nestedResults n E ms s1 = Some (metas, s') \<and>
          l' = fold pushModule metas (pushModule meta l)"
        then obtain metas where "nestedResults n E ms s1 = Some (metas, s')"
          "l' = fold pushModule metas (pushModule meta l)" by blast
        with Some r Inr have "nestedResults n E (m # ms) s = Some (meta # metas, s') \<and>
          l' = fold pushModule (meta # metas) l" by simp
        then show "\<exists>metas. nestedResults n E (m # ms) s = Some (metas, s') \<and>
          l' = fold pushModule metas l" by blast
      next
        assume "\<exists>metas. nestedResults n E (m # ms) s = Some (metas, s') \<and>
          l' = fold pushModule metas l"
        then obtain metas where a: "nestedResults n E (m # ms) s = Some (metas, s')"
          and b: "l' = fold pushModule metas l" by blast
        from a Some r Inr obtain metas' where "nestedResults n E ms s1 = Some (metas', s')"
          "metas = meta # metas'" by (auto split: option.splits)
        with b show "\<exists>metas. nestedResults n E ms s1 = Some (metas, s') \<and>
          l' = fold pushModule metas (pushModule meta l)" by auto
      qed
      finally show ?thesis .
    qed
  qed
qed

lemma nestedResults_length:
  "nestedResults n E ms s = Some (metas, s') \<Longrightarrow> length metas = length ms"
  by (induction ms arbitrary: s metas) (auto split: option.splits prod.splits sum.splits)

lemma declaredLists_modules: "declaredLists E meta a = (Inr l, a') \<Longrightarrow> ml_modules l = []"
  by (auto simp: declaredLists_def split: prod.splits sum.splits)

lemma flattened_fold:
  "ml_modules l = [] \<Longrightarrow>
   \<lparr>am_type = ty, am_providers = ml_providers (fold pushModule metas l),
     am_directives = ml_directives (fold pushModule metas l),
     am_pipes = ml_pipes (fold pushModule metas l),
     am_precompile = ml_precompile (fold pushModule metas l),
     am_modules = ml_modules (fold pushModule metas l)\<rparr> = flattenedModule ty l metas"
  by (simp add: fold_pushModule flattenedModule_def)

lemma withNames_eq:
  "(withNames f s = (r, s')) = (\<exists>a. f (anonymous s) = (r, a) \<and> s' = s\<lparr>anonymous := a\<rparr>)"
  by (auto simp: withNames_def split: prod.splits)

lemma load_law:
  "(loadAppModuleMetadata n E T (Some meta) s = Some (Inr m, t)) =
   (\<exists>l a1 metas s2 ty a5.
      declaredLists E meta (anonymous s) = (Inr l, a1) \<and>
      nestedResults n E (declaredModules meta) (s\<lparr>anonymous := a1\<rparr>) = Some (metas, s2) \<and>
      getTypeMetadata E T (staticTypeModuleUrl T) None (anonymous s2) = (Inr ty, a5) \<and>
      m = flattenedModule ty l metas \<and> t = s2\<lparr>anonymous := a5\<rparr>)"
  (is "?L = ?R")
proof
  assume ?L
  then obtain own s1 l' s2 ty where
    o: "withNames (ownModuleLists E meta) s = (Inr own, s1)" and
    ne: "nestedModules n E (nestedModuleItems meta) own s1 = Some (Inr l', s2)" and
    ty: "withNames (getTypeMetadata E T (staticTypeModuleUrl T) None) s2 = (Inr ty, t)" and
    m: "m = \<lparr>am_type = ty, am_providers = ml_providers l', am_directives = ml_directives l',
             am_pipes = ml_pipes l', am_precompile = ml_precompile l',
             am_modules = ml_modules l'\<rparr>"
    by (auto simp: loadAppModuleMetadata.simps split: option.splits prod.splits sum.splits)
  from o obtain a1 where d: "declaredLists E meta (anonymous s) = (Inr own, a1)"
    and s1: "s1 = s\<lparr>anonymous := a1\<rparr>"
    by (auto simp: withNames_eq ownModuleLists_declared)
  from ne obtain metas where nr: "nestedResults n E (declaredModules meta) s1 = Some (metas, s2)"
    and l': "l' = fold pushModule metas own"
    by (auto simp: nestedModules_results nestedModuleItems_declared)
  from ty obtain a5 where
    g: "getTypeMetadata E T (staticTypeModuleUrl T) None (anonymous s2) = (Inr ty, a5)"
    and t: "t = s2\<lparr>anonymous := a5\<rparr>"
    by (auto simp: withNames_eq)
  from m l' flattened_fold [OF declaredLists_modules [OF d]]
  have "m = flattenedModule ty own metas" by simp
  with d nr s1 g t show ?R by blast
next
  assume ?R
  then obtain l a1 metas s2 ty a5 where
    d: "declaredLists E meta (anonymous s) = (Inr l, a1)" and
    nr: "nestedResults n E (declaredModules meta) (s\<lparr>anonymous := a1\<rparr>) = Some (metas, s2)" and
    g: "getTypeMetadata E T (staticTypeModuleUrl T) None (anonymous s2) = (Inr ty, a5)" and
    m: "m = flattenedModule ty l metas" and t: "t = s2\<lparr>anonymous := a5\<rparr>"
    by blast
  from d have o: "withNames (ownModuleLists E meta) s = (Inr l, s\<lparr>anonymous := a1\<rparr>)"
    by (simp add: withNames_eq ownModuleLists_declared)
  from nr have ne: "nestedModules n E (nestedModuleItems meta) l (s\<lparr>anonymous := a1\<rparr>)
      = Some (Inr (fold pushModule metas l), s2)"
    by (simp add: nestedModules_results nestedModuleItems_declared)
  from g t have ty: "withNames (getTypeMetadata E T (staticTypeModuleUrl T) None) s2
      = (Inr ty, t)"
    by (simp add: withNames_eq)
  from o ne ty m flattened_fold [OF declaredLists_modules [OF d], of ty metas]
  show ?L by (simp add: loadAppModuleMetadata.simps)
qed

lemma load_reflective:
  "findAppModuleMetadata (reflector_annotations E T) = Some meta \<Longrightarrow>
   loadAppModuleMetadata n E T None s = loadAppModuleMetadata n E T (Some meta) s"
  by (simp add: loadAppModuleMetadata.simps)

lemma supplied_law:
  "(getAppModuleMetadata (Suc n) E T (Some meta) s = Some (Inr m, s')) =
   (\<exists>l a1 metas s2 ty a5.
      declaredLists E meta (anonymous s) = (Inr l, a1) \<and>
      nestedResults n E (declaredModules meta) (s\<lparr>anonymous := a1\<rparr>) = Some (metas, s2) \<and>
      getTypeMetadata E (resolveForwardRef T)
        (staticTypeModuleUrl (resolveForwardRef T)) None (anonymous s2) = (Inr ty, a5) \<and>
      m = flattenedModule ty l metas \<and> s' = s2\<lparr>anonymous := a5\<rparr>)"
proof -
  have "(getAppModuleMetadata (Suc n) E T (Some meta) s = Some (Inr m, s')) =
    (loadAppModuleMetadata n E (resolveForwardRef T) (Some meta) s = Some (Inr m, s'))"
    by (auto simp: getAppModuleMetadata.simps Let_def
        split: option.splits prod.splits sum.splits)
  then show ?thesis by (simp only: load_law)
qed

lemma reflective_law:
  assumes "appModuleCache s (resolveForwardRef T) = None"
    and "findAppModuleMetadata (reflector_annotations E (resolveForwardRef T)) = Some meta"
  shows "(getAppModuleMetadata (Suc n) E T None s = Some (Inr m, s')) =
   (\<exists>l a1 metas s2 ty a5.
      declaredLists E meta (anonymous s) = (Inr l, a1) \<and>
      nestedResults n E (declaredModules meta) (s\<lparr>anonymous := a1\<rparr>) = Some (metas, s2) \<and>
      getTypeMetadata E (resolveForwardRef T)
        (staticTypeModuleUrl (resolveForwardRef T)) None (anonymous s2) = (Inr ty, a5) \<and>
      m = flattenedModule ty l metas \<and>
      s' = s2\<lparr>anonymous := a5,
             appModuleCache := (appModuleCache s2)(resolveForwardRef T \<mapsto> m)\<rparr>)"
  (is "?L = ?R")
proof -
  let ?T = "resolveForwardRef T"
  have "?L = (\<exists>t. loadAppModuleMetadata n E ?T (Some meta) s = Some (Inr m, t) \<and>
      s' = t\<lparr>appModuleCache := (appModuleCache t)(?T \<mapsto> m)\<rparr>)"
    using assms(1)
    by (auto simp: getAppModuleMetadata.simps Let_def load_reflective [OF assms(2)]
        split: option.splits prod.splits sum.splits)
  also have "\<dots> = ?R"
  proof
    assume "\<exists>t. loadAppModuleMetadata n E ?T (Some meta) s = Some (Inr m, t) \<and>
      s' = t\<lparr>appModuleCache := (appModuleCache t)(?T \<mapsto> m)\<rparr>"
    then obtain t where l: "loadAppModuleMetadata n E ?T (Some meta) s = Some (Inr m, t)"
      and s': "s' = t\<lparr>appModuleCache := (appModuleCache t)(?T \<mapsto> m)\<rparr>" by blast
    from l [unfolded load_law] obtain l a1 metas s2 ty a5 where
      "declaredLists E meta (anonymous s) = (Inr l, a1)"
      "nestedResults n E (declaredModules meta) (s\<lparr>anonymous := a1\<rparr>) = Some (metas, s2)"
      "getTypeMetadata E ?T (staticTypeModuleUrl ?T) None (anonymous s2) = (Inr ty, a5)"
      "m = flattenedModule ty l metas" "t = s2\<lparr>anonymous := a5\<rparr>" by blast
    with s' show ?R by auto
  next
    assume ?R
    then obtain l a1 metas s2 ty a5 where
      p: "declaredLists E meta (anonymous s) = (Inr l, a1)"
      "nestedResults n E (declaredModules meta) (s\<lparr>anonymous := a1\<rparr>) = Some (metas, s2)"
      "getTypeMetadata E ?T (staticTypeModuleUrl ?T) None (anonymous s2) = (Inr ty, a5)"
      "m = flattenedModule ty l metas" and
      s': "s' = s2\<lparr>anonymous := a5, appModuleCache := (appModuleCache s2)(?T \<mapsto> m)\<rparr>"
      by blast
    from p have "loadAppModuleMetadata n E ?T (Some meta) s = Some (Inr m, s2\<lparr>anonymous := a5\<rparr>)"
      unfolding load_law by blast
    with s' show "\<exists>t. loadAppModuleMetadata n E ?T (Some meta) s = Some (Inr m, t) \<and>
      s' = t\<lparr>appModuleCache := (appModuleCache t)(?T \<mapsto> m)\<rparr>" by auto
  qed
  finally show ?thesis .
qed

lemma nestedModules_fuel:
  assumes "\<And>T s x. getAppModuleMetadata n E T None s = Some x \<Longrightarrow>
      getAppModuleMetadata (Suc n) E T None s = Some x"
  shows "nestedModules n E ms l s = Some y \<Longrightarrow> nestedModules (Suc n) E ms l s = Some y"
proof (induction ms arbitrary: l s)
  case Nil
  then show ?case by simp
next
  case (Cons m ms)
  from Cons.prems obtain r s1 where g: "getAppModuleMetadata n E m None s = Some (r, s1)"
    by (auto split: option.splits)
  from assms [OF g] have g': "getAppModuleMetadata (Suc n) E m None s = Some (r, s1)" .
  show ?case
  proof (cases r)
    case (Inl e)
    with g g' Cons.prems show ?thesis
      by simp
  next
    case (Inr meta)
    with g Cons.prems have "nestedModules n E ms (pushModule meta l) s1 = Some y" by simp
    from Cons.IH [OF this] g' Inr show ?thesis
      by simp
  qed
qed

lemma loadAppModuleMetadata_fuel:
  assumes "\<And>ms l s y. nestedModules n E ms l s = Some y \<Longrightarrow>
      nestedModules (Suc n) E ms l s = Some y"
  shows "loadAppModuleMetadata n E T meta0 s = Some x \<Longrightarrow>
    loadAppModuleMetadata (Suc n) E T meta0 s = Some x"
proof -
  assume a: "loadAppModuleMetadata n E T meta0 s = Some x"
  show ?thesis
  proof (cases "case meta0 of Some m \<Rightarrow> Some m
      | None \<Rightarrow> findAppModuleMetadata (reflector_annotations E T)")
    case None
    with a show ?thesis by (simp add: loadAppModuleMetadata.simps)
  next
    case (Some meta)
    obtain o1 s1 where o: "withNames (ownModuleLists E meta) s = (o1, s1)"
      by (cases "withNames (ownModuleLists E meta) s")
    show ?thesis
    proof (cases o1)
      case (Inl e)
      with a Some o show ?thesis by (simp add: loadAppModuleMetadata.simps)
    next
      case (Inr own)
      with a Some o obtain y where
        ne: "nestedModules n E (nestedModuleItems meta) own s1 = Some y"
        by (auto simp: loadAppModuleMetadata.simps split: option.splits)
      from assms [OF ne] ne a Some o Inr show ?thesis
        by (simp add: loadAppModuleMetadata.simps)
    qed
  qed
qed

lemma getAppModuleMetadata_fuel:
  "getAppModuleMetadata n E T meta0 s = Some x \<Longrightarrow>
   getAppModuleMetadata (Suc n) E T meta0 s = Some x"
proof (induction n arbitrary: T meta0 s x)
  case 0
  then show ?case by simp
next
  case (Suc n)
  have l: "loadAppModuleMetadata n E T' m' s' = Some x' \<Longrightarrow>
      loadAppModuleMetadata (Suc n) E T' m' s' = Some x'" for T' m' s' x'
    by (rule loadAppModuleMetadata_fuel, rule nestedModules_fuel, rule Suc.IH)
  show ?case
  proof (cases "appModuleCache s (resolveForwardRef T) = None \<or> meta0 \<noteq> None")
    case False
    with Suc.prems show ?thesis by (auto simp: getAppModuleMetadata.simps Let_def)
  next
    case True
    with Suc.prems obtain y where
      y: "loadAppModuleMetadata n E (resolveForwardRef T) meta0 s = Some y"
      by (auto simp: getAppModuleMetadata.simps Let_def split: option.splits)
    from l [OF y] y True Suc.prems show ?thesis
      by (simp add: getAppModuleMetadata.simps Let_def)
  qed
qed

lemma getAppModuleMetadata_fuel_add:
  "getAppModuleMetadata n E T meta0 s = Some x \<Longrightarrow>
   getAppModuleMetadata (n + k) E T meta0 s = Some x"
  by (induction k) (simp_all add: getAppModuleMetadata_fuel)

lemma nestedModules_returns:
  assumes "\<And>m s. m \<in> set ms \<Longrightarrow> \<exists>r s'. getAppModuleMetadata n E m None s = Some (r, s')"
  shows "\<exists>r s'. nestedModules n E ms l s = Some (r, s')"
  using assms
proof (induction ms arbitrary: l s)
  case Nil
  then show ?case by simp
next
  case (Cons m ms)
  from Cons.prems [of m s] obtain r s1 where
    g: "getAppModuleMetadata n E m None s = Some (r, s1)" by auto
  show ?case
  proof (cases r)
    case (Inl e)
    with g show ?thesis by simp
  next
    case (Inr meta)
    from Cons.IH [of "pushModule meta l" s1] Cons.prems obtain r' s' where
      "nestedModules n E ms (pushModule meta l) s1 = Some (r', s')"
      by (meson list.set_intros(2))
    with g Inr show ?thesis by simp
  qed
qed

lemma loadAppModuleMetadata_returns:
  assumes "\<And>m s. m \<in> set (declaredModules meta) \<Longrightarrow>
      \<exists>r s'. getAppModuleMetadata n E m None s = Some (r, s')"
  shows "\<exists>r t. loadAppModuleMetadata n E T (Some meta) s = Some (r, t)"
proof -
  obtain o1 s1 where o: "withNames (ownModuleLists E meta) s = (o1, s1)"
    by (cases "withNames (ownModuleLists E meta) s")
  show ?thesis
  proof (cases o1)
    case (Inl e)
    with o show ?thesis by (simp add: loadAppModuleMetadata.simps)
  next
    case (Inr own)
    from nestedModules_returns [of "nestedModuleItems meta" n E own s1] assms
    obtain r2 s2 where
      ne: "nestedModules n E (nestedModuleItems meta) own s1 = Some (r2, s2)"
      by (auto simp: nestedModuleItems_declared)
    with o Inr show ?thesis
      by (cases r2) (auto simp: loadAppModuleMetadata.simps split: prod.splits sum.splits)
  qed
qed

lemma supplied_returns:
  assumes "\<And>m s. m \<in> set (declaredModules meta) \<Longrightarrow>
      \<exists>r s'. getAppModuleMetadata n E m None s = Some (r, s')"
  shows "\<exists>r s'. getAppModuleMetadata (Suc n) E T (Some meta) s = Some (r, s')"
proof -
  from loadAppModuleMetadata_returns [OF assms] obtain r t where
    "loadAppModuleMetadata n E (resolveForwardRef T) (Some meta) s = Some (r, t)" by blast
  then show ?thesis by (cases r) (simp_all add: getAppModuleMetadata.simps Let_def)
qed

lemma cached_module:
  "appModuleCache s (resolveForwardRef T) = Some c \<Longrightarrow>
   getAppModuleMetadata (Suc n) E T None s = Some (Inr c, s)"
  by (simp add: getAppModuleMetadata.simps)

lemma nestingBelow_returns:
  "nestingBelow n E T \<Longrightarrow> \<exists>r s'. getAppModuleMetadata n E T None s = Some (r, s')"
proof (induction n arbitrary: T s)
  case 0
  then show ?case by simp
next
  case (Suc n)
  let ?T = "resolveForwardRef T"
  show ?case
  proof (cases "appModuleCache s ?T")
    case (Some c)
    then show ?thesis by (simp add: cached_module)
  next
    case None
    have "\<exists>r t. loadAppModuleMetadata n E ?T None s = Some (r, t)"
    proof (cases "findAppModuleMetadata (reflector_annotations E ?T)")
      case None
      then show ?thesis by (simp add: loadAppModuleMetadata.simps)
    next
      case (Some meta)
      with Suc.prems have "\<forall>m \<in> set (declaredModules meta). nestingBelow n E m" by simp
      with Suc.IH have "\<And>m s. m \<in> set (declaredModules meta) \<Longrightarrow>
        \<exists>r s'. getAppModuleMetadata n E m None s = Some (r, s')" by blast
      from loadAppModuleMetadata_returns [OF this] show ?thesis
        by (simp add: load_reflective [OF Some])
    qed
    then obtain r t where "loadAppModuleMetadata n E ?T None s = Some (r, t)" by blast
    with None show ?thesis
      by (cases r) (simp_all add: getAppModuleMetadata.simps Let_def)
  qed
qed

lemma nestingBelow_supplied_returns:
  assumes "\<forall>m \<in> set (declaredModules meta). nestingBelow n E m"
  shows "\<exists>r s'. getAppModuleMetadata (Suc n) E T (Some meta) s = Some (r, s')"
  by (rule supplied_returns) (use assms nestingBelow_returns in blast)

lemma nestedResults_one:
  "(nestedResults n E [T] s = Some (metas, s')) =
   (\<exists>m. metas = [m] \<and> getAppModuleMetadata n E T None s = Some (Inr m, s'))"
  by (auto split: option.splits prod.splits sum.splits)

lemma leaf_law:
  assumes "nests E C metaC []" and "appModuleCache s C = None"
  shows "(getAppModuleMetadata (Suc n) E C None s = Some (Inr m, s')) =
    (\<exists>lc a3 ty a4.
       declaredLists E metaC (anonymous s) = (Inr lc, a3) \<and>
       getTypeMetadata E C (staticTypeModuleUrl C) None a3 = (Inr ty, a4) \<and>
       m = flattenedModule ty lc [] \<and>
       s' = s\<lparr>anonymous := a4, appModuleCache := (appModuleCache s)(C \<mapsto> m)\<rparr>)"
proof -
  from assms have r: "resolveForwardRef C = C"
    and c: "appModuleCache s (resolveForwardRef C) = None"
    and f: "findAppModuleMetadata (reflector_annotations E (resolveForwardRef C)) = Some metaC"
    and d: "declaredModules metaC = []"
    by (simp_all add: nests_def)
  show ?thesis
    unfolding reflective_law [OF c f] d r by auto
qed

lemma single_law:
  assumes "nests E B metaB [C]" and "appModuleCache s B = None"
  shows "(getAppModuleMetadata (Suc n) E B None s = Some (Inr m, s')) =
    (\<exists>lb a2 mC sC ty a5.
       declaredLists E metaB (anonymous s) = (Inr lb, a2) \<and>
       getAppModuleMetadata n E C None (s\<lparr>anonymous := a2\<rparr>) = Some (Inr mC, sC) \<and>
       getTypeMetadata E B (staticTypeModuleUrl B) None (anonymous sC) = (Inr ty, a5) \<and>
       m = flattenedModule ty lb [mC] \<and>
       s' = sC\<lparr>anonymous := a5, appModuleCache := (appModuleCache sC)(B \<mapsto> m)\<rparr>)"
proof -
  from assms have r: "resolveForwardRef B = B"
    and c: "appModuleCache s (resolveForwardRef B) = None"
    and f: "findAppModuleMetadata (reflector_annotations E (resolveForwardRef B)) = Some metaB"
    and d: "declaredModules metaB = [C]"
    by (simp_all add: nests_def)
  show ?thesis
    unfolding reflective_law [OF c f] d r nestedResults_one by blast
qed

lemma double_law:
  assumes "nests E A metaA [B, B']" and "appModuleCache s A = None"
  shows "(getAppModuleMetadata (Suc n) E A None s = Some (Inr m, s')) =
    (\<exists>la a1 mB sB mB' sB' ty a5.
       declaredLists E metaA (anonymous s) = (Inr la, a1) \<and>
       getAppModuleMetadata n E B None (s\<lparr>anonymous := a1\<rparr>) = Some (Inr mB, sB) \<and>
       getAppModuleMetadata n E B' None sB = Some (Inr mB', sB') \<and>
       getTypeMetadata E A (staticTypeModuleUrl A) None (anonymous sB') = (Inr ty, a5) \<and>
       m = flattenedModule ty la [mB, mB'] \<and>
       s' = sB'\<lparr>anonymous := a5, appModuleCache := (appModuleCache sB')(A \<mapsto> m)\<rparr>)"
proof -
  from assms have r: "resolveForwardRef A = A"
    and c: "appModuleCache s (resolveForwardRef A) = None"
    and f: "findAppModuleMetadata (reflector_annotations E (resolveForwardRef A)) = Some metaA"
    and d: "declaredModules metaA = [B, B']"
    by (simp_all add: nests_def)
  have two: "(nestedResults n E [B, B'] t = Some (metas, t')) =
    (\<exists>mB sB mB'. metas = [mB, mB'] \<and> getAppModuleMetadata n E B None t = Some (Inr mB, sB) \<and>
       getAppModuleMetadata n E B' None sB = Some (Inr mB', t'))" for t metas t'
    by (auto split: option.splits prod.splits sum.splits)
  show ?thesis
    unfolding reflective_law [OF c f] d r two by blast
qed

lemma chain_law:
  assumes A: "nests E A metaA [B]" and B: "nests E B metaB [C]" and C: "nests E C metaC []"
    and miss: "appModuleCache s A = None" "appModuleCache s B = None"
      "appModuleCache s C = None"
  shows "(getAppModuleMetadata (Suc (Suc (Suc n))) E A None s = Some (Inr m, s')) =
    (\<exists>la a1 lb a2 lc a3 tyC a4 tyB a5 tyA a6.
       declaredLists E metaA (anonymous s) = (Inr la, a1) \<and>
       declaredLists E metaB a1 = (Inr lb, a2) \<and>
       declaredLists E metaC a2 = (Inr lc, a3) \<and>
       getTypeMetadata E C (staticTypeModuleUrl C) None a3 = (Inr tyC, a4) \<and>
       getTypeMetadata E B (staticTypeModuleUrl B) None a4 = (Inr tyB, a5) \<and>
       getTypeMetadata E A (staticTypeModuleUrl A) None a5 = (Inr tyA, a6) \<and>
       m = flattenedModule tyA la [flattenedModule tyB lb [flattenedModule tyC lc []]] \<and>
       s' = s\<lparr>anonymous := a6,
              appModuleCache := (appModuleCache s)
                (C \<mapsto> flattenedModule tyC lc [],
                 B \<mapsto> flattenedModule tyB lb [flattenedModule tyC lc []],
                 A \<mapsto> m)\<rparr>)"
  (is "?L = ?R")
proof
  assume ?L
  from this [unfolded single_law [OF A miss(1)]] obtain la a1 mB sB tyA a6 where
    dA: "declaredLists E metaA (anonymous s) = (Inr la, a1)" and
    gB: "getAppModuleMetadata (Suc (Suc n)) E B None (s\<lparr>anonymous := a1\<rparr>) = Some (Inr mB, sB)" and
    tA: "getTypeMetadata E A (staticTypeModuleUrl A) None (anonymous sB) = (Inr tyA, a6)" and
    m: "m = flattenedModule tyA la [mB]" and
    s': "s' = sB\<lparr>anonymous := a6, appModuleCache := (appModuleCache sB)(A \<mapsto> m)\<rparr>"
    by blast
  have mB: "appModuleCache (s\<lparr>anonymous := a1\<rparr>) B = None" using miss by simp
  from gB [unfolded single_law [OF B mB]] obtain lb a2 mC sC tyB a5 where
    dB: "declaredLists E metaB a1 = (Inr lb, a2)" and
    gC: "getAppModuleMetadata (Suc n) E C None (s\<lparr>anonymous := a2\<rparr>) = Some (Inr mC, sC)" and
    tB: "getTypeMetadata E B (staticTypeModuleUrl B) None (anonymous sC) = (Inr tyB, a5)" and
    mB': "mB = flattenedModule tyB lb [mC]" and
    sB: "sB = sC\<lparr>anonymous := a5, appModuleCache := (appModuleCache sC)(B \<mapsto> mB)\<rparr>"
    by auto
  have mC: "appModuleCache (s\<lparr>anonymous := a2\<rparr>) C = None" using miss by simp
  from gC [unfolded leaf_law [OF C mC]] obtain lc a3 tyC a4 where
    dC: "declaredLists E metaC a2 = (Inr lc, a3)" and
    tC: "getTypeMetadata E C (staticTypeModuleUrl C) None a3 = (Inr tyC, a4)" and
    mC': "mC = flattenedModule tyC lc []" and
    sC: "sC = s\<lparr>anonymous := a4, appModuleCache := (appModuleCache s)(C \<mapsto> mC)\<rparr>"
    by auto
  from tB sC have tB': "getTypeMetadata E B (staticTypeModuleUrl B) None a4 = (Inr tyB, a5)"
    by simp
  from tA sB have tA': "getTypeMetadata E A (staticTypeModuleUrl A) None a5 = (Inr tyA, a6)"
    by simp
  from m mB' mC'
  have m': "m = flattenedModule tyA la [flattenedModule tyB lb [flattenedModule tyC lc []]]"
    by simp
  from s' sB sC mB' mC'
  have "s' = s\<lparr>anonymous := a6,
              appModuleCache := (appModuleCache s)
                (C \<mapsto> flattenedModule tyC lc [],
                 B \<mapsto> flattenedModule tyB lb [flattenedModule tyC lc []],
                 A \<mapsto> m)\<rparr>" by simp
  with dA dB dC tC tB' tA' m' show ?R by blast
next
  assume ?R
  then obtain la a1 lb a2 lc a3 tyC a4 tyB a5 tyA a6 where
    dA: "declaredLists E metaA (anonymous s) = (Inr la, a1)" and
    dB: "declaredLists E metaB a1 = (Inr lb, a2)" and
    dC: "declaredLists E metaC a2 = (Inr lc, a3)" and
    tC: "getTypeMetadata E C (staticTypeModuleUrl C) None a3 = (Inr tyC, a4)" and
    tB: "getTypeMetadata E B (staticTypeModuleUrl B) None a4 = (Inr tyB, a5)" and
    tA: "getTypeMetadata E A (staticTypeModuleUrl A) None a5 = (Inr tyA, a6)" and
    m: "m = flattenedModule tyA la [flattenedModule tyB lb [flattenedModule tyC lc []]]" and
    s': "s' = s\<lparr>anonymous := a6,
              appModuleCache := (appModuleCache s)
                (C \<mapsto> flattenedModule tyC lc [],
                 B \<mapsto> flattenedModule tyB lb [flattenedModule tyC lc []],
                 A \<mapsto> m)\<rparr>"
    by blast
  let ?mC = "flattenedModule tyC lc []"
  let ?mB = "flattenedModule tyB lb [?mC]"
  let ?sC = "s\<lparr>anonymous := a4, appModuleCache := (appModuleCache s)(C \<mapsto> ?mC)\<rparr>"
  let ?sB = "?sC\<lparr>anonymous := a5, appModuleCache := (appModuleCache ?sC)(B \<mapsto> ?mB)\<rparr>"
  have mC: "appModuleCache (s\<lparr>anonymous := a2\<rparr>) C = None" using miss by simp
  have gC: "getAppModuleMetadata (Suc n) E C None (s\<lparr>anonymous := a2\<rparr>) = Some (Inr ?mC, ?sC)"
    unfolding leaf_law [OF C mC] using dC tC by simp
  have mB: "appModuleCache (s\<lparr>anonymous := a1\<rparr>) B = None" using miss by simp
  have gB: "getAppModuleMetadata (Suc (Suc n)) E B None (s\<lparr>anonymous := a1\<rparr>)
      = Some (Inr ?mB, ?sB)"
    unfolding single_law [OF B mB]
    by (intro exI [where x = lb] exI [where x = a2] exI [where x = ?mC] exI [where x = ?sC]
        exI [where x = tyB] exI [where x = a5]) (use dB gC tB in simp)
  have "getAppModuleMetadata (Suc (Suc (Suc n))) E A None s
      = Some (Inr m, ?sB\<lparr>anonymous := a6, appModuleCache := (appModuleCache ?sB)(A \<mapsto> m)\<rparr>)"
    unfolding single_law [OF A miss(1)]
    by (intro exI [where x = la] exI [where x = a1] exI [where x = ?mB] exI [where x = ?sB]
        exI [where x = tyA] exI [where x = a6]) (use dA gB tA m in simp)
  with s' show ?L by simp
qed

lemma repeated_law:
  assumes A: "nests E A metaA [B, B]" and B: "nests E B metaB []"
    and miss: "appModuleCache s A = None" "appModuleCache s B = None"
  shows "(getAppModuleMetadata (Suc (Suc n)) E A None s = Some (Inr m, s')) =
    (\<exists>la a1 lb a2 tyB a3 tyA a4.
       declaredLists E metaA (anonymous s) = (Inr la, a1) \<and>
       declaredLists E metaB a1 = (Inr lb, a2) \<and>
       getTypeMetadata E B (staticTypeModuleUrl B) None a2 = (Inr tyB, a3) \<and>
       getTypeMetadata E A (staticTypeModuleUrl A) None a3 = (Inr tyA, a4) \<and>
       m = flattenedModule tyA la [flattenedModule tyB lb [], flattenedModule tyB lb []] \<and>
       s' = s\<lparr>anonymous := a4,
              appModuleCache := (appModuleCache s)
                (B \<mapsto> flattenedModule tyB lb [], A \<mapsto> m)\<rparr>)"
  (is "?L = ?R")
proof -
  from B have rB: "resolveForwardRef B = B" by (simp add: nests_def)
  have again: "getAppModuleMetadata (Suc n) E B None
       (t\<lparr>anonymous := a, appModuleCache := (appModuleCache t)(B \<mapsto> c)\<rparr>)
     = Some (Inr c, t\<lparr>anonymous := a, appModuleCache := (appModuleCache t)(B \<mapsto> c)\<rparr>)"
    for t a c
    by (rule cached_module) (simp add: rB)
  show ?thesis
  proof
    assume ?L
    from this [unfolded double_law [OF A miss(1)]] obtain la a1 mB sB mB' sB' tyA a4 where
      dA: "declaredLists E metaA (anonymous s) = (Inr la, a1)" and
      g1: "getAppModuleMetadata (Suc n) E B None (s\<lparr>anonymous := a1\<rparr>) = Some (Inr mB, sB)" and
      g2: "getAppModuleMetadata (Suc n) E B None sB = Some (Inr mB', sB')" and
      tA: "getTypeMetadata E A (staticTypeModuleUrl A) None (anonymous sB') = (Inr tyA, a4)" and
      m: "m = flattenedModule tyA la [mB, mB']" and
      s': "s' = sB'\<lparr>anonymous := a4, appModuleCache := (appModuleCache sB')(A \<mapsto> m)\<rparr>"
      by blast
    have mB: "appModuleCache (s\<lparr>anonymous := a1\<rparr>) B = None" using miss by simp
    from g1 [unfolded leaf_law [OF B mB]] obtain lb a2 tyB a3 where
      dB: "declaredLists E metaB a1 = (Inr lb, a2)" and
      tB: "getTypeMetadata E B (staticTypeModuleUrl B) None a2 = (Inr tyB, a3)" and
      mB': "mB = flattenedModule tyB lb []" and
      sB: "sB = s\<lparr>anonymous := a3, appModuleCache := (appModuleCache s)(B \<mapsto> mB)\<rparr>"
      by auto
    have g2': "getAppModuleMetadata (Suc n) E B None sB = Some (Inr mB, sB)"
      unfolding sB by (rule again)
    from g2 g2' have e: "mB' = mB" "sB' = sB" by simp_all
    from tA e sB have tA': "getTypeMetadata E A (staticTypeModuleUrl A) None a3 = (Inr tyA, a4)"
      by simp
    from m e mB'
    have m': "m = flattenedModule tyA la [flattenedModule tyB lb [], flattenedModule tyB lb []]"
      by simp
    from s' e sB mB'
    have "s' = s\<lparr>anonymous := a4,
              appModuleCache := (appModuleCache s)
                (B \<mapsto> flattenedModule tyB lb [], A \<mapsto> m)\<rparr>" by simp
    with dA dB tB tA' m' show ?R by blast
  next
    assume ?R
    then obtain la a1 lb a2 tyB a3 tyA a4 where
      dA: "declaredLists E metaA (anonymous s) = (Inr la, a1)" and
      dB: "declaredLists E metaB a1 = (Inr lb, a2)" and
      tB: "getTypeMetadata E B (staticTypeModuleUrl B) None a2 = (Inr tyB, a3)" and
      tA: "getTypeMetadata E A (staticTypeModuleUrl A) None a3 = (Inr tyA, a4)" and
      m: "m = flattenedModule tyA la [flattenedModule tyB lb [], flattenedModule tyB lb []]" and
      s': "s' = s\<lparr>anonymous := a4,
              appModuleCache := (appModuleCache s)
                (B \<mapsto> flattenedModule tyB lb [], A \<mapsto> m)\<rparr>"
      by blast
    let ?mB = "flattenedModule tyB lb []"
    let ?sB = "s\<lparr>anonymous := a3, appModuleCache := (appModuleCache s)(B \<mapsto> ?mB)\<rparr>"
    have mB: "appModuleCache (s\<lparr>anonymous := a1\<rparr>) B = None" using miss by simp
    have g1: "getAppModuleMetadata (Suc n) E B None (s\<lparr>anonymous := a1\<rparr>) = Some (Inr ?mB, ?sB)"
      unfolding leaf_law [OF B mB] using dB tB by simp
    have g2: "getAppModuleMetadata (Suc n) E B None ?sB = Some (Inr ?mB, ?sB)"
      by (rule again)
    have "getAppModuleMetadata (Suc (Suc n)) E A None s
      = Some (Inr m, ?sB\<lparr>anonymous := a4, appModuleCache := (appModuleCache ?sB)(A \<mapsto> m)\<rparr>)"
      unfolding double_law [OF A miss(1)]
      by (intro exI [where x = la] exI [where x = a1] exI [where x = ?mB] exI [where x = ?sB]
          exI [where x = ?mB] exI [where x = ?sB] exI [where x = tyA] exI [where x = a4])
        (use dA g1 g2 tA m in simp)
    with s' show ?L by simp
  qed
qed

lemma flattened_chain:
  "flattenedModule tyA la [flattenedModule tyB lb [flattenedModule tyC lc []]] =
     \<lparr>am_type = tyA,
      am_providers = ml_providers la @ ml_providers lb @ ml_providers lc,
      am_directives = ml_directives la @ ml_directives lb @ ml_directives lc,
      am_pipes = ml_pipes la @ ml_pipes lb @ ml_pipes lc,
      am_precompile = ml_precompile la @ ml_precompile lb @ ml_precompile lc,
      am_modules = [tyB, tyC]\<rparr>"
  by (simp add: flattenedModule_def)

lemma flattened_repeated:
  "flattenedModule tyA la [flattenedModule tyB lb [], flattenedModule tyB lb []] =
     \<lparr>am_type = tyA,
      am_providers = ml_providers la @ ml_providers lb @ ml_providers lb,
      am_directives = ml_directives la @ ml_directives lb @ ml_directives lb,
      am_pipes = ml_pipes la @ ml_pipes lb @ ml_pipes lb,
      am_precompile = ml_precompile la @ ml_precompile lb @ ml_precompile lb,
      am_modules = [tyB, tyB]\<rparr>"
  by (simp add: flattenedModule_def)

lemma getTypeMetadata_runtime:
  "getTypeMetadata E t url d a = (Inr ty, a') \<Longrightarrow> ty_runtime ty = resolveForwardRef t"
  by (auto simp: getTypeMetadata_def Let_def split: prod.splits sum.splits)

lemma chain_explicit:
  assumes A: "nests E A metaA [B]" and B: "nests E B metaB [C]" and C: "nests E C metaC []"
    and miss: "appModuleCache s A = None" "appModuleCache s B = None"
      "appModuleCache s C = None"
  shows "(getAppModuleMetadata (Suc (Suc (Suc n))) E A None s = Some (Inr m, s')) =
      (\<exists>la a1 lb a2 lc a3 tyC a4 tyB a5 tyA a6.
         declaredLists E metaA (anonymous s) = (Inr la, a1) \<and>
         declaredLists E metaB a1 = (Inr lb, a2) \<and>
         declaredLists E metaC a2 = (Inr lc, a3) \<and>
         getTypeMetadata E C (staticTypeModuleUrl C) None a3 = (Inr tyC, a4) \<and>
         getTypeMetadata E B (staticTypeModuleUrl B) None a4 = (Inr tyB, a5) \<and>
         getTypeMetadata E A (staticTypeModuleUrl A) None a5 = (Inr tyA, a6) \<and>
         m = \<lparr>am_type = tyA,
               am_providers = ml_providers la @ ml_providers lb @ ml_providers lc,
               am_directives = ml_directives la @ ml_directives lb @ ml_directives lc,
               am_pipes = ml_pipes la @ ml_pipes lb @ ml_pipes lc,
               am_precompile = ml_precompile la @ ml_precompile lb @ ml_precompile lc,
               am_modules = [tyB, tyC]\<rparr> \<and>
         ty_runtime tyB = B \<and> ty_runtime tyC = C \<and>
         s' = s\<lparr>anonymous := a6,
                appModuleCache := (appModuleCache s)
                  (C \<mapsto> flattenedModule tyC lc [],
                   B \<mapsto> flattenedModule tyB lb [flattenedModule tyC lc []],
                   A \<mapsto> m)\<rparr>)"
  (is "?L = ?R")
proof
  assume ?L
  from this [unfolded chain_law [OF A B C miss] flattened_chain]
  obtain la a1 lb a2 lc a3 tyC a4 tyB a5 tyA a6 where
    dA: "declaredLists E metaA (anonymous s) = (Inr la, a1)" and
    dB: "declaredLists E metaB a1 = (Inr lb, a2)" and
    dC: "declaredLists E metaC a2 = (Inr lc, a3)" and
    tC: "getTypeMetadata E C (staticTypeModuleUrl C) None a3 = (Inr tyC, a4)" and
    tB: "getTypeMetadata E B (staticTypeModuleUrl B) None a4 = (Inr tyB, a5)" and
    tA: "getTypeMetadata E A (staticTypeModuleUrl A) None a5 = (Inr tyA, a6)" and
    m: "m = \<lparr>am_type = tyA,
               am_providers = ml_providers la @ ml_providers lb @ ml_providers lc,
               am_directives = ml_directives la @ ml_directives lb @ ml_directives lc,
               am_pipes = ml_pipes la @ ml_pipes lb @ ml_pipes lc,
               am_precompile = ml_precompile la @ ml_precompile lb @ ml_precompile lc,
               am_modules = [tyB, tyC]\<rparr>" and
    s': "s' = s\<lparr>anonymous := a6,
                appModuleCache := (appModuleCache s)
                  (C \<mapsto> flattenedModule tyC lc [],
                   B \<mapsto> flattenedModule tyB lb [flattenedModule tyC lc []],
                   A \<mapsto> m)\<rparr>"
    by (elim exE conjE) (rule that)
  from getTypeMetadata_runtime [OF tB] B have rB: "ty_runtime tyB = B" by (simp add: nests_def)
  from getTypeMetadata_runtime [OF tC] C have rC: "ty_runtime tyC = C" by (simp add: nests_def)
  show ?R
    by (rule exI [where x = la], rule exI [where x = a1], rule exI [where x = lb],
        rule exI [where x = a2], rule exI [where x = lc], rule exI [where x = a3],
        rule exI [where x = tyC], rule exI [where x = a4], rule exI [where x = tyB],
        rule exI [where x = a5], rule exI [where x = tyA], rule exI [where x = a6], intro conjI)
      (rule dA dB dC tC tB tA m rB rC s')+
next
  assume ?R
  then obtain la a1 lb a2 lc a3 tyC a4 tyB a5 tyA a6 where
    dA: "declaredLists E metaA (anonymous s) = (Inr la, a1)" and
    dB: "declaredLists E metaB a1 = (Inr lb, a2)" and
    dC: "declaredLists E metaC a2 = (Inr lc, a3)" and
    tC: "getTypeMetadata E C (staticTypeModuleUrl C) None a3 = (Inr tyC, a4)" and
    tB: "getTypeMetadata E B (staticTypeModuleUrl B) None a4 = (Inr tyB, a5)" and
    tA: "getTypeMetadata E A (staticTypeModuleUrl A) None a5 = (Inr tyA, a6)" and
    m: "m = \<lparr>am_type = tyA,
               am_providers = ml_providers la @ ml_providers lb @ ml_providers lc,
               am_directives = ml_directives la @ ml_directives lb @ ml_directives lc,
               am_pipes = ml_pipes la @ ml_pipes lb @ ml_pipes lc,
               am_precompile = ml_precompile la @ ml_precompile lb @ ml_precompile lc,
               am_modules = [tyB, tyC]\<rparr>" and
    s': "s' = s\<lparr>anonymous := a6,
                appModuleCache := (appModuleCache s)
                  (C \<mapsto> flattenedModule tyC lc [],
                   B \<mapsto> flattenedModule tyB lb [flattenedModule tyC lc []],
                   A \<mapsto> m)\<rparr>"
    by (elim exE conjE) (rule that)
  show ?L
    unfolding chain_law [OF A B C miss] flattened_chain
    by (rule exI [where x = la], rule exI [where x = a1], rule exI [where x = lb],
        rule exI [where x = a2], rule exI [where x = lc], rule exI [where x = a3],
        rule exI [where x = tyC], rule exI [where x = a4], rule exI [where x = tyB],
        rule exI [where x = a5], rule exI [where x = tyA], rule exI [where x = a6], intro conjI)
      (rule dA dB dC tC tB tA m s')+
qed

lemma repeated_explicit:
  assumes P: "nests E P metaP [Q, Q]" and Q: "nests E Q metaQ []"
    and miss: "appModuleCache s P = None" "appModuleCache s Q = None"
  shows "(getAppModuleMetadata (Suc (Suc n)) E P None s = Some (Inr m, s')) =
      (\<exists>lp a1 lq a2 tyQ a3 tyP a4.
         declaredLists E metaP (anonymous s) = (Inr lp, a1) \<and>
         declaredLists E metaQ a1 = (Inr lq, a2) \<and>
         getTypeMetadata E Q (staticTypeModuleUrl Q) None a2 = (Inr tyQ, a3) \<and>
         getTypeMetadata E P (staticTypeModuleUrl P) None a3 = (Inr tyP, a4) \<and>
         m = \<lparr>am_type = tyP,
               am_providers = ml_providers lp @ ml_providers lq @ ml_providers lq,
               am_directives = ml_directives lp @ ml_directives lq @ ml_directives lq,
               am_pipes = ml_pipes lp @ ml_pipes lq @ ml_pipes lq,
               am_precompile = ml_precompile lp @ ml_precompile lq @ ml_precompile lq,
               am_modules = [tyQ, tyQ]\<rparr> \<and>
         ty_runtime tyQ = Q \<and>
         s' = s\<lparr>anonymous := a4,
                appModuleCache := (appModuleCache s)
                  (Q \<mapsto> flattenedModule tyQ lq [], P \<mapsto> m)\<rparr>)"
  (is "?L = ?R")
proof
  assume ?L
  from this [unfolded repeated_law [OF P Q miss] flattened_repeated]
  obtain lp a1 lq a2 tyQ a3 tyP a4 where
    dP: "declaredLists E metaP (anonymous s) = (Inr lp, a1)" and
    dQ: "declaredLists E metaQ a1 = (Inr lq, a2)" and
    tQ: "getTypeMetadata E Q (staticTypeModuleUrl Q) None a2 = (Inr tyQ, a3)" and
    tP: "getTypeMetadata E P (staticTypeModuleUrl P) None a3 = (Inr tyP, a4)" and
    m: "m = \<lparr>am_type = tyP,
               am_providers = ml_providers lp @ ml_providers lq @ ml_providers lq,
               am_directives = ml_directives lp @ ml_directives lq @ ml_directives lq,
               am_pipes = ml_pipes lp @ ml_pipes lq @ ml_pipes lq,
               am_precompile = ml_precompile lp @ ml_precompile lq @ ml_precompile lq,
               am_modules = [tyQ, tyQ]\<rparr>" and
    s': "s' = s\<lparr>anonymous := a4,
                appModuleCache := (appModuleCache s)
                  (Q \<mapsto> flattenedModule tyQ lq [], P \<mapsto> m)\<rparr>"
    by (elim exE conjE) (rule that)
  from getTypeMetadata_runtime [OF tQ] Q have rQ: "ty_runtime tyQ = Q" by (simp add: nests_def)
  show ?R
    by (rule exI [where x = lp], rule exI [where x = a1], rule exI [where x = lq],
        rule exI [where x = a2], rule exI [where x = tyQ], rule exI [where x = a3],
        rule exI [where x = tyP], rule exI [where x = a4], intro conjI)
      (rule dP dQ tQ tP m rQ s')+
next
  assume ?R
  then obtain lp a1 lq a2 tyQ a3 tyP a4 where
    dP: "declaredLists E metaP (anonymous s) = (Inr lp, a1)" and
    dQ: "declaredLists E metaQ a1 = (Inr lq, a2)" and
    tQ: "getTypeMetadata E Q (staticTypeModuleUrl Q) None a2 = (Inr tyQ, a3)" and
    tP: "getTypeMetadata E P (staticTypeModuleUrl P) None a3 = (Inr tyP, a4)" and
    m: "m = \<lparr>am_type = tyP,
               am_providers = ml_providers lp @ ml_providers lq @ ml_providers lq,
               am_directives = ml_directives lp @ ml_directives lq @ ml_directives lq,
               am_pipes = ml_pipes lp @ ml_pipes lq @ ml_pipes lq,
               am_precompile = ml_precompile lp @ ml_precompile lq @ ml_precompile lq,
               am_modules = [tyQ, tyQ]\<rparr>" and
    s': "s' = s\<lparr>anonymous := a4,
                appModuleCache := (appModuleCache s)
                  (Q \<mapsto> flattenedModule tyQ lq [], P \<mapsto> m)\<rparr>"
    by (elim exE conjE) (rule that)
  show ?L
    unfolding repeated_law [OF P Q miss] flattened_repeated
    by (rule exI [where x = lp], rule exI [where x = a1], rule exI [where x = lq],
        rule exI [where x = a2], rule exI [where x = tyQ], rule exI [where x = a3],
        rule exI [where x = tyP], rule exI [where x = a4], intro conjI)
      (rule dP dQ tQ tP m s')+
qed

lemma sample_modules_nest:
  "nests sample_env (VType 10) sample_module_A [VType 11]"
  "nests sample_env (VType 11) sample_module_B [VType 12]"
  "nests sample_env (VType 12) sample_module_C []"
  "nests sample_env (VType 14) sample_module_E [VType 12, VType 12]"
  by (simp_all add: nests_def sample_env_def sample_annotations_def declaredModules_def
      sample_module_A_def sample_module_B_def sample_module_C_def sample_module_E_def)

text \<open>The sample modules resolved: the chain 10, 11, 12; the module 14, which nests 12
  twice; the module 13, which nests 11 twice, so that 11 and 12 appear twice; and an
  annotation supplied for 12 that nests 12, whose nested resolution stores the metadata
  the reflector gives for 12 under the type of the call.\<close>

lemma sample_modules_resolved:
  "(case getAppModuleMetadata 3 sample_env (VType 10) None new_resolver of
      Some (Inr m, s') \<Rightarrow>
        am_type m = sample_type_metadata 10 \<and>
        am_providers m = [EType (sample_type_metadata 20), EType (sample_type_metadata 21),
          EType (sample_type_metadata 22)] \<and>
        am_directives m = [sample_type_metadata 30] \<and>
        am_pipes m = [sample_type_metadata 41] \<and>
        am_precompile m = [sample_type_metadata 52] \<and>
        am_modules m = [sample_type_metadata 11, sample_type_metadata 12]
    | _ \<Rightarrow> False)"
  by code_simp

lemma sample_modules_twice:
  "(case getAppModuleMetadata 2 sample_env (VType 14) None new_resolver of
      Some (Inr m, s') \<Rightarrow>
        am_modules m = [sample_type_metadata 12, sample_type_metadata 12] \<and>
        am_providers m = [EType (sample_type_metadata 24), EType (sample_type_metadata 22),
          EType (sample_type_metadata 22)] \<and>
        am_precompile m = [sample_type_metadata 52, sample_type_metadata 52]
    | _ \<Rightarrow> False)"
  by code_simp

lemma sample_modules_repeated:
  "(case getAppModuleMetadata 3 sample_env (VType 13) None new_resolver of
      Some (Inr m, s') \<Rightarrow>
        am_modules m = [sample_type_metadata 11, sample_type_metadata 12,
          sample_type_metadata 11, sample_type_metadata 12] \<and>
        am_providers m = [EType (sample_type_metadata 21), EType (sample_type_metadata 22),
          EType (sample_type_metadata 21), EType (sample_type_metadata 22)]
    | _ \<Rightarrow> False)"
  by code_simp

lemma sample_module_self_nesting:
  "(case getAppModuleMetadata 2 sample_env (VType 12) (Some sample_module_self) new_resolver of
      Some (Inr m, s') \<Rightarrow>
        am_providers m = [EType (sample_type_metadata 25), EType (sample_type_metadata 22)] \<and>
        am_modules m = [sample_type_metadata 12] \<and>
        (case appModuleCache s' (VType 12) of
           Some c \<Rightarrow> am_providers c = [EType (sample_type_metadata 22)] \<and> am_modules c = []
         | None \<Rightarrow> False)
    | _ \<Rightarrow> False)"
  by code_simp

lemma sample_nestingBelow:
  "nestingBelow 3 sample_env (VType 10)" "nestingBelow 2 sample_env (VType 14)"
  "nestingBelow 1 sample_env (VType 12)"
  by code_simp+

lemma module_supplied:
  "getAppModuleMetadata (Suc n) E moduleType (Some meta) s =
   loadAppModuleMetadata n E (resolveForwardRef moduleType) (Some meta) s"
  by (simp add: getAppModuleMetadata.simps Let_def split: option.splits prod.splits sum.splits)

lemma load_without_nested:
  assumes "declaredModules meta = []"
  shows "\<exists>r a. loadAppModuleMetadata n E T (Some meta) s = Some (r, s\<lparr>anonymous := a\<rparr>) \<and>
    (\<forall>c. loadAppModuleMetadata n E T (Some meta) (s\<lparr>appModuleCache := c\<rparr>)
       = Some (r, s\<lparr>anonymous := a, appModuleCache := c\<rparr>))"
proof -
  obtain o1 a1 where o: "ownModuleLists E meta (anonymous s) = (o1, a1)"
    by (cases "ownModuleLists E meta (anonymous s)")
  show ?thesis
  proof (cases o1)
    case (Inl e)
    with o assms
    have "loadAppModuleMetadata n E T (Some meta) s = Some (Inl e, s\<lparr>anonymous := a1\<rparr>) \<and>
      (\<forall>c. loadAppModuleMetadata n E T (Some meta) (s\<lparr>appModuleCache := c\<rparr>)
         = Some (Inl e, s\<lparr>anonymous := a1, appModuleCache := c\<rparr>))"
      by (simp add: loadAppModuleMetadata.simps withNames_def nestedModuleItems_declared)
    then show ?thesis by blast
  next
    case (Inr own)
    obtain t1 a2 where t: "getTypeMetadata E T (staticTypeModuleUrl T) None a1 = (t1, a2)"
      by (cases "getTypeMetadata E T (staticTypeModuleUrl T) None a1")
    let ?r = "case t1 of Inl e \<Rightarrow> Inl e
      | Inr type \<Rightarrow> Inr \<lparr>am_type = type, am_providers = ml_providers own,
          am_directives = ml_directives own, am_pipes = ml_pipes own,
          am_precompile = ml_precompile own, am_modules = ml_modules own\<rparr>"
    from t o Inr assms
    have "loadAppModuleMetadata n E T (Some meta) s = Some (?r, s\<lparr>anonymous := a2\<rparr>) \<and>
      (\<forall>c. loadAppModuleMetadata n E T (Some meta) (s\<lparr>appModuleCache := c\<rparr>)
         = Some (?r, s\<lparr>anonymous := a2, appModuleCache := c\<rparr>))"
      by (cases t1)
        (simp_all add: loadAppModuleMetadata.simps withNames_def nestedModuleItems_declared)
    then show ?thesis by blast
  qed
qed

lemma supplied_without_nested:
  assumes "declaredModules meta = []"
  shows "\<exists>r s'. getAppModuleMetadata (Suc n) E T (Some meta) s = Some (r, s') \<and>
     directiveCache s' = directiveCache s \<and> pipeCache s' = pipeCache s \<and>
     appModuleCache s' = appModuleCache s \<and>
     (\<forall>c. getAppModuleMetadata (Suc n) E T (Some meta) (s\<lparr>appModuleCache := c\<rparr>)
        = Some (r, s'\<lparr>appModuleCache := c\<rparr>))"
proof -
  from load_without_nested [OF assms, of n E "resolveForwardRef T" s] obtain r a where
    l: "loadAppModuleMetadata n E (resolveForwardRef T) (Some meta) s
          = Some (r, s\<lparr>anonymous := a\<rparr>)" and
    c: "\<forall>c. loadAppModuleMetadata n E (resolveForwardRef T) (Some meta) (s\<lparr>appModuleCache := c\<rparr>)
       = Some (r, s\<lparr>anonymous := a, appModuleCache := c\<rparr>)"
    by blast
  have "getAppModuleMetadata (Suc n) E T (Some meta) s = Some (r, s\<lparr>anonymous := a\<rparr>) \<and>
     directiveCache (s\<lparr>anonymous := a\<rparr>) = directiveCache s \<and>
     pipeCache (s\<lparr>anonymous := a\<rparr>) = pipeCache s \<and>
     appModuleCache (s\<lparr>anonymous := a\<rparr>) = appModuleCache s \<and>
     (\<forall>c. getAppModuleMetadata (Suc n) E T (Some meta) (s\<lparr>appModuleCache := c\<rparr>)
        = Some (r, s\<lparr>anonymous := a\<rparr>\<lparr>appModuleCache := c\<rparr>))"
    using l c by (simp add: module_supplied)
  then show ?thesis by blast
qed

lemma not_a_module:
  assumes "appModuleCache s (resolveForwardRef T) = None"
    and "findAppModuleMetadata (reflector_annotations E (resolveForwardRef T)) = None"
  shows "getAppModuleMetadata (Suc n) E T None s
    = Some (Inl (notAppModule E (resolveForwardRef T)), s)"
  using assms by (simp add: getAppModuleMetadata.simps loadAppModuleMetadata.simps Let_def)

lemma sample_supplied_resolved:
  "(case getAppModuleMetadata 3 sample_env (VType 10) (Some sample_module_A) new_resolver of
      Some (Inr m, s') \<Rightarrow> am_modules m = [sample_type_metadata 11, sample_type_metadata 12]
    | _ \<Rightarrow> False)"
  by code_simp

text \<open>
  C8, as amended. When an annotation is supplied, the call itself neither reads the
  entry cached for the module type nor stores its result: it succeeds exactly when the
  lists the annotation declares, its nested modules and the type are resolved, its
  result is the flattening of these, and the resolver it leaves is the one the nested
  modules left, with the names the type was given. The nested modules are resolved
  without an annotation, hence through the cache, which they may read and update, also
  under the module type itself when the annotation nests it. The call returns when the
  nesting below the nested modules is bounded. When the annotation nests no module, the
  call leaves the three caches as they were and returns the same whatever the module
  cache holds. When no annotation is supplied, nothing is cached for the type and the
  reflector gives no module annotation, the call fails with the exception that names
  the type, and the resolver is left as it was.
\<close>

theorem module_annotation_supplied:
  "(getAppModuleMetadata (Suc n) E T (Some meta) s = Some (Inr m, s')) =
     (\<exists>l a1 metas s2 ty a5.
        declaredLists E meta (anonymous s) = (Inr l, a1) \<and>
        nestedResults n E (declaredModules meta) (s\<lparr>anonymous := a1\<rparr>) = Some (metas, s2) \<and>
        getTypeMetadata E (resolveForwardRef T)
          (staticTypeModuleUrl (resolveForwardRef T)) None (anonymous s2) = (Inr ty, a5) \<and>
        m = flattenedModule ty l metas \<and> s' = s2\<lparr>anonymous := a5\<rparr>) \<and>
   ((\<forall>x \<in> set (declaredModules meta). nestingBelow n E x) \<longrightarrow>
      (\<exists>r t. getAppModuleMetadata (Suc n) E T (Some meta) s = Some (r, t))) \<and>
   (declaredModules meta = [] \<longrightarrow>
      (\<exists>r t. getAppModuleMetadata (Suc n) E T (Some meta) s = Some (r, t) \<and>
         directiveCache t = directiveCache s \<and> pipeCache t = pipeCache s \<and>
         appModuleCache t = appModuleCache s \<and>
         (\<forall>c. getAppModuleMetadata (Suc n) E T (Some meta) (s\<lparr>appModuleCache := c\<rparr>)
            = Some (r, t\<lparr>appModuleCache := c\<rparr>)))) \<and>
   (appModuleCache s (resolveForwardRef T) = None \<and>
    findAppModuleMetadata (reflector_annotations E (resolveForwardRef T)) = None \<longrightarrow>
      getAppModuleMetadata (Suc n) E T None s
        = Some (Inl (notAppModule E (resolveForwardRef T)), s))"
proof (intro conjI)
  show "(getAppModuleMetadata (Suc n) E T (Some meta) s = Some (Inr m, s')) =
     (\<exists>l a1 metas s2 ty a5.
        declaredLists E meta (anonymous s) = (Inr l, a1) \<and>
        nestedResults n E (declaredModules meta) (s\<lparr>anonymous := a1\<rparr>) = Some (metas, s2) \<and>
        getTypeMetadata E (resolveForwardRef T)
          (staticTypeModuleUrl (resolveForwardRef T)) None (anonymous s2) = (Inr ty, a5) \<and>
        m = flattenedModule ty l metas \<and> s' = s2\<lparr>anonymous := a5\<rparr>)"
    by (rule supplied_law)
  show "(\<forall>x \<in> set (declaredModules meta). nestingBelow n E x) \<longrightarrow>
      (\<exists>r t. getAppModuleMetadata (Suc n) E T (Some meta) s = Some (r, t))"
    by (intro impI) (erule nestingBelow_supplied_returns)
  show "declaredModules meta = [] \<longrightarrow>
      (\<exists>r t. getAppModuleMetadata (Suc n) E T (Some meta) s = Some (r, t) \<and>
         directiveCache t = directiveCache s \<and> pipeCache t = pipeCache s \<and>
         appModuleCache t = appModuleCache s \<and>
         (\<forall>c. getAppModuleMetadata (Suc n) E T (Some meta) (s\<lparr>appModuleCache := c\<rparr>)
            = Some (r, t\<lparr>appModuleCache := c\<rparr>)))"
    by (intro impI) (erule supplied_without_nested)
  show "appModuleCache s (resolveForwardRef T) = None \<and>
    findAppModuleMetadata (reflector_annotations E (resolveForwardRef T)) = None \<longrightarrow>
      getAppModuleMetadata (Suc n) E T None s
        = Some (Inl (notAppModule E (resolveForwardRef T)), s)"
    by (intro impI, elim conjE) (rule not_a_module)
qed

theorem module_annotation_supplied_witness:
  "declaredModules sample_module_C = [] \<and>
   (\<exists>r t. getAppModuleMetadata (Suc 0) sample_env (VType 12) (Some sample_module_C)
        new_resolver = Some (r, t) \<and>
      appModuleCache t = appModuleCache new_resolver) \<and>
   declaredModules sample_module_A = [VType 11] \<and> nestingBelow 2 sample_env (VType 11) \<and>
   (\<exists>m s' l a1 metas ty s2.
      getAppModuleMetadata 3 sample_env (VType 10) (Some sample_module_A) new_resolver
        = Some (Inr m, s') \<and>
      nestedResults 2 sample_env [VType 11] (new_resolver\<lparr>anonymous := a1\<rparr>)
        = Some (metas, s2) \<and>
      m = flattenedModule ty l metas \<and> appModuleCache s' = appModuleCache s2 \<and>
      am_modules m = [sample_type_metadata 11, sample_type_metadata 12]) \<and>
   appModuleCache new_resolver (resolveForwardRef (VType 99)) = None \<and>
   findAppModuleMetadata (reflector_annotations sample_env (resolveForwardRef (VType 99))) = None \<and>
   getAppModuleMetadata (Suc 0) sample_env (VType 99) None new_resolver
     = Some (Inl (notAppModule sample_env (VType 99)), new_resolver)"
proof -
  have n: "declaredModules sample_module_C = []"
    by (simp add: declaredModules_def sample_module_C_def)
  have dA: "declaredModules sample_module_A = [VType 11]"
    by (simp add: declaredModules_def sample_module_A_def)
  have b: "nestingBelow 2 sample_env (VType 11)" by code_simp
  have c: "appModuleCache new_resolver (resolveForwardRef (VType 99)) = None"
    by (simp add: new_resolver_def)
  have f: "findAppModuleMetadata (reflector_annotations sample_env (resolveForwardRef (VType 99)))
    = None"
    by (simp add: sample_env_def sample_annotations_def)
  from module_annotation_supplied [of 0 sample_env "VType 12" sample_module_C new_resolver] n
  obtain r t where
    "getAppModuleMetadata (Suc 0) sample_env (VType 12) (Some sample_module_C) new_resolver
       = Some (r, t)" "appModuleCache t = appModuleCache new_resolver"
    by blast
  then have 1: "\<exists>r t. getAppModuleMetadata (Suc 0) sample_env (VType 12) (Some sample_module_C)
        new_resolver = Some (r, t) \<and> appModuleCache t = appModuleCache new_resolver"
    by blast
  have three: "Suc 2 = 3" by simp
  from sample_supplied_resolved obtain m s' where
    run: "getAppModuleMetadata 3 sample_env (VType 10) (Some sample_module_A) new_resolver
        = Some (Inr m, s')" and
    ms: "am_modules m = [sample_type_metadata 11, sample_type_metadata 12]"
    by (auto split: option.splits prod.splits sum.splits)
  from module_annotation_supplied [of 2 sample_env "VType 10" sample_module_A new_resolver m s',
      unfolded three dA] run
  obtain l a1 metas s2 ty a5 where
    "nestedResults 2 sample_env [VType 11] (new_resolver\<lparr>anonymous := a1\<rparr>) = Some (metas, s2)"
    "m = flattenedModule ty l metas" "s' = s2\<lparr>anonymous := a5\<rparr>"
    by blast
  then have "nestedResults 2 sample_env [VType 11] (new_resolver\<lparr>anonymous := a1\<rparr>)
      = Some (metas, s2) \<and>
    m = flattenedModule ty l metas \<and> appModuleCache s' = appModuleCache s2" by simp
  with run ms have 2: "\<exists>m s' l a1 metas ty s2.
      getAppModuleMetadata 3 sample_env (VType 10) (Some sample_module_A) new_resolver
        = Some (Inr m, s') \<and>
      nestedResults 2 sample_env [VType 11] (new_resolver\<lparr>anonymous := a1\<rparr>)
        = Some (metas, s2) \<and>
      m = flattenedModule ty l metas \<and> appModuleCache s' = appModuleCache s2 \<and>
      am_modules m = [sample_type_metadata 11, sample_type_metadata 12]" by blast
  from module_annotation_supplied [of 0 sample_env "VType 99" sample_module_C new_resolver] c f
  have 3: "getAppModuleMetadata (Suc 0) sample_env (VType 99) None new_resolver
     = Some (Inl (notAppModule sample_env (VType 99)), new_resolver)"
    by simp
  from n 1 dA b 2 c f 3 show ?thesis by (intro conjI)
qed

text \<open>
  C8, as stated, fails: the supplied annotation of the sample module 10 nests the module
  11, which is resolved without an annotation; after the call the module cache holds an
  entry for 11 that it did not hold before.
\<close>

theorem nested_module_cached_counterexample:
  "appModuleCache new_resolver (VType 11) = None \<and>
   (case getAppModuleMetadata 3 sample_env (VType 10) (Some sample_module_A) new_resolver of
      Some (Inr m, s') \<Rightarrow> appModuleCache s' (VType 11) \<noteq> None
    | _ \<Rightarrow> False)"
  by code_simp

text \<open>
  C4. Module flattening is transitive, keeps the order and collapses no duplicates. A
  module that is not cached and has an annotation is resolved exactly when its
  declared lists, its nested modules and its type are; each of its lists is then what
  it declares (its providers by \<open>getProvidersMetadata\<close>, its directives, pipes and
  precompiled types flattened and resolved in their order) followed by the lists of its
  nested modules, one for each entry of the flattened \<^verbatim>\<open>modules\<close> in their order, each
  nested module contributing its type and then its own modules; nothing is removed,
  and the result is stored. A cached module is returned as it is. The call returns when
  the nesting below the type is less deep than the bound, and a larger bound gives the
  same result. For a module \<open>A\<close> nesting \<open>B\<close> which nests \<open>C\<close>, none of them cached, the
  call returns, and it succeeds exactly with the modules \<open>[B, C]\<close> and the providers,
  directives, pipes and precompiled types of \<open>A\<close>, then of \<open>B\<close>, then of \<open>C\<close>. For a
  module \<open>P\<close> nesting \<open>Q\<close> twice, it succeeds exactly with the modules \<open>[Q, Q]\<close> and
  the lists of \<open>P\<close> followed by those of \<open>Q\<close> twice.
\<close>

theorem module_flattening:
  "(appModuleCache s0 (resolveForwardRef T) = None \<and>
    findAppModuleMetadata (reflector_annotations E (resolveForwardRef T)) = Some meta \<longrightarrow>
      (getAppModuleMetadata (Suc k) E T None s0 = Some (Inr m0, s0')) =
      (\<exists>l a1 metas s2 ty a5.
         declaredLists E meta (anonymous s0) = (Inr l, a1) \<and>
         nestedResults k E (declaredModules meta) (s0\<lparr>anonymous := a1\<rparr>) = Some (metas, s2) \<and>
         length metas = length (declaredModules meta) \<and>
         getTypeMetadata E (resolveForwardRef T)
           (staticTypeModuleUrl (resolveForwardRef T)) None (anonymous s2) = (Inr ty, a5) \<and>
         m0 = flattenedModule ty l metas \<and>
         s0' = s2\<lparr>anonymous := a5,
                 appModuleCache := (appModuleCache s2)(resolveForwardRef T \<mapsto> m0)\<rparr>)) \<and>
   (appModuleCache s0 (resolveForwardRef T) = Some c \<longrightarrow>
      getAppModuleMetadata (Suc k) E T None s0 = Some (Inr c, s0)) \<and>
   (nestingBelow k E T \<longrightarrow> (\<exists>r t. getAppModuleMetadata k E T None s0 = Some (r, t))) \<and>
   (getAppModuleMetadata k E T None s0 = Some x \<longrightarrow>
      getAppModuleMetadata (k + j) E T None s0 = Some x) \<and>
   (nests E A metaA [B] \<and> nests E B metaB [C] \<and> nests E C metaC [] \<and>
    appModuleCache s A = None \<and> appModuleCache s B = None \<and> appModuleCache s C = None \<longrightarrow>
      (\<exists>r t. getAppModuleMetadata (Suc (Suc (Suc n))) E A None s = Some (r, t)) \<and>
      (getAppModuleMetadata (Suc (Suc (Suc n))) E A None s = Some (Inr m, s')) =
      (\<exists>la a1 lb a2 lc a3 tyC a4 tyB a5 tyA a6.
         declaredLists E metaA (anonymous s) = (Inr la, a1) \<and>
         declaredLists E metaB a1 = (Inr lb, a2) \<and>
         declaredLists E metaC a2 = (Inr lc, a3) \<and>
         getTypeMetadata E C (staticTypeModuleUrl C) None a3 = (Inr tyC, a4) \<and>
         getTypeMetadata E B (staticTypeModuleUrl B) None a4 = (Inr tyB, a5) \<and>
         getTypeMetadata E A (staticTypeModuleUrl A) None a5 = (Inr tyA, a6) \<and>
         m = \<lparr>am_type = tyA,
               am_providers = ml_providers la @ ml_providers lb @ ml_providers lc,
               am_directives = ml_directives la @ ml_directives lb @ ml_directives lc,
               am_pipes = ml_pipes la @ ml_pipes lb @ ml_pipes lc,
               am_precompile = ml_precompile la @ ml_precompile lb @ ml_precompile lc,
               am_modules = [tyB, tyC]\<rparr> \<and>
         ty_runtime tyB = B \<and> ty_runtime tyC = C \<and>
         s' = s\<lparr>anonymous := a6,
                appModuleCache := (appModuleCache s)
                  (C \<mapsto> flattenedModule tyC lc [],
                   B \<mapsto> flattenedModule tyB lb [flattenedModule tyC lc []],
                   A \<mapsto> m)\<rparr>)) \<and>
   (nests E P metaP [Q, Q] \<and> nests E Q metaQ [] \<and>
    appModuleCache s P = None \<and> appModuleCache s Q = None \<longrightarrow>
      (\<exists>r t. getAppModuleMetadata (Suc (Suc n)) E P None s = Some (r, t)) \<and>
      (getAppModuleMetadata (Suc (Suc n)) E P None s = Some (Inr m, s')) =
      (\<exists>lp a1 lq a2 tyQ a3 tyP a4.
         declaredLists E metaP (anonymous s) = (Inr lp, a1) \<and>
         declaredLists E metaQ a1 = (Inr lq, a2) \<and>
         getTypeMetadata E Q (staticTypeModuleUrl Q) None a2 = (Inr tyQ, a3) \<and>
         getTypeMetadata E P (staticTypeModuleUrl P) None a3 = (Inr tyP, a4) \<and>
         m = \<lparr>am_type = tyP,
               am_providers = ml_providers lp @ ml_providers lq @ ml_providers lq,
               am_directives = ml_directives lp @ ml_directives lq @ ml_directives lq,
               am_pipes = ml_pipes lp @ ml_pipes lq @ ml_pipes lq,
               am_precompile = ml_precompile lp @ ml_precompile lq @ ml_precompile lq,
               am_modules = [tyQ, tyQ]\<rparr> \<and>
         ty_runtime tyQ = Q \<and>
         s' = s\<lparr>anonymous := a4,
                appModuleCache := (appModuleCache s)
                  (Q \<mapsto> flattenedModule tyQ lq [], P \<mapsto> m)\<rparr>))"
proof (intro conjI)
  show "appModuleCache s0 (resolveForwardRef T) = None \<and>
    findAppModuleMetadata (reflector_annotations E (resolveForwardRef T)) = Some meta \<longrightarrow>
      (getAppModuleMetadata (Suc k) E T None s0 = Some (Inr m0, s0')) =
      (\<exists>l a1 metas s2 ty a5.
         declaredLists E meta (anonymous s0) = (Inr l, a1) \<and>
         nestedResults k E (declaredModules meta) (s0\<lparr>anonymous := a1\<rparr>) = Some (metas, s2) \<and>
         length metas = length (declaredModules meta) \<and>
         getTypeMetadata E (resolveForwardRef T)
           (staticTypeModuleUrl (resolveForwardRef T)) None (anonymous s2) = (Inr ty, a5) \<and>
         m0 = flattenedModule ty l metas \<and>
         s0' = s2\<lparr>anonymous := a5,
                 appModuleCache := (appModuleCache s2)(resolveForwardRef T \<mapsto> m0)\<rparr>)"
  proof (intro impI, elim conjE)
    assume c: "appModuleCache s0 (resolveForwardRef T) = None"
      and f: "findAppModuleMetadata (reflector_annotations E (resolveForwardRef T)) = Some meta"
    show "(getAppModuleMetadata (Suc k) E T None s0 = Some (Inr m0, s0')) =
      (\<exists>l a1 metas s2 ty a5.
         declaredLists E meta (anonymous s0) = (Inr l, a1) \<and>
         nestedResults k E (declaredModules meta) (s0\<lparr>anonymous := a1\<rparr>) = Some (metas, s2) \<and>
         length metas = length (declaredModules meta) \<and>
         getTypeMetadata E (resolveForwardRef T)
           (staticTypeModuleUrl (resolveForwardRef T)) None (anonymous s2) = (Inr ty, a5) \<and>
         m0 = flattenedModule ty l metas \<and>
         s0' = s2\<lparr>anonymous := a5,
                 appModuleCache := (appModuleCache s2)(resolveForwardRef T \<mapsto> m0)\<rparr>)"
      unfolding reflective_law [OF c f] using nestedResults_length by blast
  qed
  show "appModuleCache s0 (resolveForwardRef T) = Some c \<longrightarrow>
      getAppModuleMetadata (Suc k) E T None s0 = Some (Inr c, s0)"
    by (intro impI) (erule cached_module)
  show "nestingBelow k E T \<longrightarrow> (\<exists>r t. getAppModuleMetadata k E T None s0 = Some (r, t))"
    by (intro impI) (erule nestingBelow_returns)
  show "getAppModuleMetadata k E T None s0 = Some x \<longrightarrow>
      getAppModuleMetadata (k + j) E T None s0 = Some x"
    by (intro impI) (erule getAppModuleMetadata_fuel_add)
  show "nests E A metaA [B] \<and> nests E B metaB [C] \<and> nests E C metaC [] \<and>
    appModuleCache s A = None \<and> appModuleCache s B = None \<and> appModuleCache s C = None \<longrightarrow>
      (\<exists>r t. getAppModuleMetadata (Suc (Suc (Suc n))) E A None s = Some (r, t)) \<and>
      (getAppModuleMetadata (Suc (Suc (Suc n))) E A None s = Some (Inr m, s')) =
      (\<exists>la a1 lb a2 lc a3 tyC a4 tyB a5 tyA a6.
         declaredLists E metaA (anonymous s) = (Inr la, a1) \<and>
         declaredLists E metaB a1 = (Inr lb, a2) \<and>
         declaredLists E metaC a2 = (Inr lc, a3) \<and>
         getTypeMetadata E C (staticTypeModuleUrl C) None a3 = (Inr tyC, a4) \<and>
         getTypeMetadata E B (staticTypeModuleUrl B) None a4 = (Inr tyB, a5) \<and>
         getTypeMetadata E A (staticTypeModuleUrl A) None a5 = (Inr tyA, a6) \<and>
         m = \<lparr>am_type = tyA,
               am_providers = ml_providers la @ ml_providers lb @ ml_providers lc,
               am_directives = ml_directives la @ ml_directives lb @ ml_directives lc,
               am_pipes = ml_pipes la @ ml_pipes lb @ ml_pipes lc,
               am_precompile = ml_precompile la @ ml_precompile lb @ ml_precompile lc,
               am_modules = [tyB, tyC]\<rparr> \<and>
         ty_runtime tyB = B \<and> ty_runtime tyC = C \<and>
         s' = s\<lparr>anonymous := a6,
                appModuleCache := (appModuleCache s)
                  (C \<mapsto> flattenedModule tyC lc [],
                   B \<mapsto> flattenedModule tyB lb [flattenedModule tyC lc []],
                   A \<mapsto> m)\<rparr>)"
  proof (intro impI, elim conjE, intro conjI)
    assume A: "nests E A metaA [B]" and B: "nests E B metaB [C]" and C: "nests E C metaC []"
      and miss: "appModuleCache s A = None" "appModuleCache s B = None"
        "appModuleCache s C = None"
    from C have "nestingBelow (Suc n) E C" by (simp add: nests_def)
    with B have "nestingBelow (Suc (Suc n)) E B" by (simp add: nests_def)
    with A have "nestingBelow (Suc (Suc (Suc n))) E A" by (simp add: nests_def)
    then show "\<exists>r t. getAppModuleMetadata (Suc (Suc (Suc n))) E A None s = Some (r, t)"
      by (rule nestingBelow_returns)
    show "(getAppModuleMetadata (Suc (Suc (Suc n))) E A None s = Some (Inr m, s')) =
      (\<exists>la a1 lb a2 lc a3 tyC a4 tyB a5 tyA a6.
         declaredLists E metaA (anonymous s) = (Inr la, a1) \<and>
         declaredLists E metaB a1 = (Inr lb, a2) \<and>
         declaredLists E metaC a2 = (Inr lc, a3) \<and>
         getTypeMetadata E C (staticTypeModuleUrl C) None a3 = (Inr tyC, a4) \<and>
         getTypeMetadata E B (staticTypeModuleUrl B) None a4 = (Inr tyB, a5) \<and>
         getTypeMetadata E A (staticTypeModuleUrl A) None a5 = (Inr tyA, a6) \<and>
         m = \<lparr>am_type = tyA,
               am_providers = ml_providers la @ ml_providers lb @ ml_providers lc,
               am_directives = ml_directives la @ ml_directives lb @ ml_directives lc,
               am_pipes = ml_pipes la @ ml_pipes lb @ ml_pipes lc,
               am_precompile = ml_precompile la @ ml_precompile lb @ ml_precompile lc,
               am_modules = [tyB, tyC]\<rparr> \<and>
         ty_runtime tyB = B \<and> ty_runtime tyC = C \<and>
         s' = s\<lparr>anonymous := a6,
                appModuleCache := (appModuleCache s)
                  (C \<mapsto> flattenedModule tyC lc [],
                   B \<mapsto> flattenedModule tyB lb [flattenedModule tyC lc []],
                   A \<mapsto> m)\<rparr>)"
      by (rule chain_explicit [OF A B C miss])
  qed
  show "nests E P metaP [Q, Q] \<and> nests E Q metaQ [] \<and>
    appModuleCache s P = None \<and> appModuleCache s Q = None \<longrightarrow>
      (\<exists>r t. getAppModuleMetadata (Suc (Suc n)) E P None s = Some (r, t)) \<and>
      (getAppModuleMetadata (Suc (Suc n)) E P None s = Some (Inr m, s')) =
      (\<exists>lp a1 lq a2 tyQ a3 tyP a4.
         declaredLists E metaP (anonymous s) = (Inr lp, a1) \<and>
         declaredLists E metaQ a1 = (Inr lq, a2) \<and>
         getTypeMetadata E Q (staticTypeModuleUrl Q) None a2 = (Inr tyQ, a3) \<and>
         getTypeMetadata E P (staticTypeModuleUrl P) None a3 = (Inr tyP, a4) \<and>
         m = \<lparr>am_type = tyP,
               am_providers = ml_providers lp @ ml_providers lq @ ml_providers lq,
               am_directives = ml_directives lp @ ml_directives lq @ ml_directives lq,
               am_pipes = ml_pipes lp @ ml_pipes lq @ ml_pipes lq,
               am_precompile = ml_precompile lp @ ml_precompile lq @ ml_precompile lq,
               am_modules = [tyQ, tyQ]\<rparr> \<and>
         ty_runtime tyQ = Q \<and>
         s' = s\<lparr>anonymous := a4,
                appModuleCache := (appModuleCache s)
                  (Q \<mapsto> flattenedModule tyQ lq [], P \<mapsto> m)\<rparr>)"
  proof (intro impI, elim conjE, intro conjI)
    assume P: "nests E P metaP [Q, Q]" and Q: "nests E Q metaQ []"
      and miss: "appModuleCache s P = None" "appModuleCache s Q = None"
    from Q have "nestingBelow (Suc n) E Q" by (simp add: nests_def)
    with P have "nestingBelow (Suc (Suc n)) E P" by (simp add: nests_def)
    then show "\<exists>r t. getAppModuleMetadata (Suc (Suc n)) E P None s = Some (r, t)"
      by (rule nestingBelow_returns)
    show "(getAppModuleMetadata (Suc (Suc n)) E P None s = Some (Inr m, s')) =
      (\<exists>lp a1 lq a2 tyQ a3 tyP a4.
         declaredLists E metaP (anonymous s) = (Inr lp, a1) \<and>
         declaredLists E metaQ a1 = (Inr lq, a2) \<and>
         getTypeMetadata E Q (staticTypeModuleUrl Q) None a2 = (Inr tyQ, a3) \<and>
         getTypeMetadata E P (staticTypeModuleUrl P) None a3 = (Inr tyP, a4) \<and>
         m = \<lparr>am_type = tyP,
               am_providers = ml_providers lp @ ml_providers lq @ ml_providers lq,
               am_directives = ml_directives lp @ ml_directives lq @ ml_directives lq,
               am_pipes = ml_pipes lp @ ml_pipes lq @ ml_pipes lq,
               am_precompile = ml_precompile lp @ ml_precompile lq @ ml_precompile lq,
               am_modules = [tyQ, tyQ]\<rparr> \<and>
         ty_runtime tyQ = Q \<and>
         s' = s\<lparr>anonymous := a4,
                appModuleCache := (appModuleCache s)
                  (Q \<mapsto> flattenedModule tyQ lq [], P \<mapsto> m)\<rparr>)"
      by (rule repeated_explicit [OF P Q miss])
  qed
qed

theorem module_flattening_witness:
  "nests sample_env (VType 10) sample_module_A [VType 11] \<and>
   nests sample_env (VType 11) sample_module_B [VType 12] \<and>
   nests sample_env (VType 12) sample_module_C [] \<and>
   nests sample_env (VType 14) sample_module_E [VType 12, VType 12] \<and>
   appModuleCache new_resolver (VType 10) = None \<and>
   appModuleCache new_resolver (VType 11) = None \<and>
   appModuleCache new_resolver (VType 12) = None \<and>
   appModuleCache new_resolver (VType 14) = None \<and>
   nestingBelow 3 sample_env (VType 10) \<and>
   (\<exists>m s' tyB tyC l metas ty.
      getAppModuleMetadata 3 sample_env (VType 10) None new_resolver = Some (Inr m, s') \<and>
      getAppModuleMetadata (3 + 4) sample_env (VType 10) None new_resolver = Some (Inr m, s') \<and>
      m = flattenedModule ty l metas \<and> length metas = 1 \<and>
      am_modules m = [tyB, tyC] \<and> ty_runtime tyB = VType 11 \<and> ty_runtime tyC = VType 12 \<and>
      am_modules m = [sample_type_metadata 11, sample_type_metadata 12] \<and>
      am_providers m = [EType (sample_type_metadata 20), EType (sample_type_metadata 21),
        EType (sample_type_metadata 22)] \<and>
      getAppModuleMetadata 1 sample_env (VType 10) None s' = Some (Inr m, s')) \<and>
   (\<exists>m s' tyQ.
      getAppModuleMetadata 2 sample_env (VType 14) None new_resolver = Some (Inr m, s') \<and>
      am_modules m = [tyQ, tyQ] \<and> ty_runtime tyQ = VType 12 \<and>
      am_modules m = [sample_type_metadata 12, sample_type_metadata 12] \<and>
      am_providers m = [EType (sample_type_metadata 24), EType (sample_type_metadata 22),
        EType (sample_type_metadata 22)])"
proof -
  note n = sample_modules_nest
  have miss: "appModuleCache new_resolver (VType 10) = None"
    "appModuleCache new_resolver (VType 11) = None"
    "appModuleCache new_resolver (VType 12) = None"
    "appModuleCache new_resolver (VType 14) = None"
    by (simp_all add: new_resolver_def)
  have below: "nestingBelow 3 sample_env (VType 10)" by (rule sample_nestingBelow(1))
  have num: "Suc 2 = 3" "Suc (Suc 0) = 2" by simp_all
  have ann: "findAppModuleMetadata (reflector_annotations sample_env
      (resolveForwardRef (VType 10))) = Some sample_module_A"
    using n(1) by (simp add: nests_def)
  have dm: "declaredModules sample_module_A = [VType 11]"
    using n(1) by (simp add: nests_def)
  from sample_modules_resolved obtain m s' where
    run: "getAppModuleMetadata 3 sample_env (VType 10) None new_resolver = Some (Inr m, s')" and
    ms: "am_modules m = [sample_type_metadata 11, sample_type_metadata 12]" and
    ps: "am_providers m = [EType (sample_type_metadata 20), EType (sample_type_metadata 21),
        EType (sample_type_metadata 22)]"
    by (auto split: option.splits prod.splits sum.splits)
  note t = module_flattening [where E = sample_env and T = "VType 10" and s0 = new_resolver
      and meta = sample_module_A and m0 = m and s0' = s' and x = "(Inr m, s')" and j = 4
      and A = "VType 10" and metaA = sample_module_A and B = "VType 11"
      and metaB = sample_module_B and C = "VType 12" and metaC = sample_module_C
      and s = new_resolver and n = 0 and m = m and s' = s'
      and P = "VType 14" and metaP = sample_module_E and Q = "VType 12"
      and metaQ = sample_module_C]
  from t [where k = 2, THEN conjunct1, unfolded num]
  have "(getAppModuleMetadata 3 sample_env (VType 10) None new_resolver = Some (Inr m, s')) =
      (\<exists>l a1 metas s2 ty a5.
         declaredLists sample_env sample_module_A (anonymous new_resolver) = (Inr l, a1) \<and>
         nestedResults 2 sample_env (declaredModules sample_module_A)
           (new_resolver\<lparr>anonymous := a1\<rparr>) = Some (metas, s2) \<and>
         length metas = length (declaredModules sample_module_A) \<and>
         getTypeMetadata sample_env (resolveForwardRef (VType 10))
           (staticTypeModuleUrl (resolveForwardRef (VType 10))) None (anonymous s2)
           = (Inr ty, a5) \<and>
         m = flattenedModule ty l metas \<and>
         s' = s2\<lparr>anonymous := a5,
                 appModuleCache := (appModuleCache s2)(resolveForwardRef (VType 10) \<mapsto> m)\<rparr>)"
    by (rule mp) (intro conjI miss [simplified] ann, simp add: miss)
  from this [THEN iffD1, OF run] obtain l a1 metas s2 ty a5 where
    "declaredLists sample_env sample_module_A (anonymous new_resolver) = (Inr l, a1)"
    "nestedResults 2 sample_env (declaredModules sample_module_A)
       (new_resolver\<lparr>anonymous := a1\<rparr>) = Some (metas, s2)"
    and len: "length metas = length (declaredModules sample_module_A)"
    and "getTypeMetadata sample_env (resolveForwardRef (VType 10))
           (staticTypeModuleUrl (resolveForwardRef (VType 10))) None (anonymous s2)
           = (Inr ty, a5)"
    and fl: "m = flattenedModule ty l metas"
    and s': "s' = s2\<lparr>anonymous := a5,
                 appModuleCache := (appModuleCache s2)(resolveForwardRef (VType 10) \<mapsto> m)\<rparr>"
    by (elim exE conjE) (rule that)
  from len dm have len1: "length metas = 1" by simp
  from s' have "appModuleCache s' (resolveForwardRef (VType 10)) = Some m" by simp
  with module_flattening [where E = sample_env and T = "VType 10" and s0 = s' and c = m
      and k = 0, THEN conjunct2, THEN conjunct1]
  have hit: "getAppModuleMetadata 1 sample_env (VType 10) None s' = Some (Inr m, s')"
    by simp
  from t [where k = 3, THEN conjunct2, THEN conjunct2, THEN conjunct2, THEN conjunct1] run
  have more: "getAppModuleMetadata (3 + 4) sample_env (VType 10) None new_resolver
      = Some (Inr m, s')"
    by (rule mp)
  from t [where k = 3, THEN conjunct2, THEN conjunct2, THEN conjunct2, THEN conjunct2,
      THEN conjunct1, unfolded num]
  have "(\<exists>r t. getAppModuleMetadata 3 sample_env (VType 10) None new_resolver = Some (r, t)) \<and>
      (getAppModuleMetadata 3 sample_env (VType 10) None new_resolver = Some (Inr m, s')) =
      (\<exists>la a1 lb a2 lc a3 tyC a4 tyB a5 tyA a6.
         declaredLists sample_env sample_module_A (anonymous new_resolver) = (Inr la, a1) \<and>
         declaredLists sample_env sample_module_B a1 = (Inr lb, a2) \<and>
         declaredLists sample_env sample_module_C a2 = (Inr lc, a3) \<and>
         getTypeMetadata sample_env (VType 12) (staticTypeModuleUrl (VType 12)) None a3
           = (Inr tyC, a4) \<and>
         getTypeMetadata sample_env (VType 11) (staticTypeModuleUrl (VType 11)) None a4
           = (Inr tyB, a5) \<and>
         getTypeMetadata sample_env (VType 10) (staticTypeModuleUrl (VType 10)) None a5
           = (Inr tyA, a6) \<and>
         m = \<lparr>am_type = tyA,
               am_providers = ml_providers la @ ml_providers lb @ ml_providers lc,
               am_directives = ml_directives la @ ml_directives lb @ ml_directives lc,
               am_pipes = ml_pipes la @ ml_pipes lb @ ml_pipes lc,
               am_precompile = ml_precompile la @ ml_precompile lb @ ml_precompile lc,
               am_modules = [tyB, tyC]\<rparr> \<and>
         ty_runtime tyB = VType 11 \<and> ty_runtime tyC = VType 12 \<and>
         s' = new_resolver\<lparr>anonymous := a6,
                appModuleCache := (appModuleCache new_resolver)
                  (VType 12 \<mapsto> flattenedModule tyC lc [],
                   VType 11 \<mapsto> flattenedModule tyB lb [flattenedModule tyC lc []],
                   VType 10 \<mapsto> m)\<rparr>)"
    by (rule mp) (intro conjI n(1) n(2) n(3) miss(1) miss(2) miss(3))
  from this [THEN conjunct2, THEN iffD1, OF run]
  obtain la a1 lb a2 lc a3 tyC a4 tyB a5 tyA a6 where
    "declaredLists sample_env sample_module_A (anonymous new_resolver) = (Inr la, a1)"
    "declaredLists sample_env sample_module_B a1 = (Inr lb, a2)"
    "declaredLists sample_env sample_module_C a2 = (Inr lc, a3)"
    "getTypeMetadata sample_env (VType 12) (staticTypeModuleUrl (VType 12)) None a3
       = (Inr tyC, a4)"
    "getTypeMetadata sample_env (VType 11) (staticTypeModuleUrl (VType 11)) None a4
       = (Inr tyB, a5)"
    "getTypeMetadata sample_env (VType 10) (staticTypeModuleUrl (VType 10)) None a5
       = (Inr tyA, a6)"
    and mm: "m = \<lparr>am_type = tyA,
               am_providers = ml_providers la @ ml_providers lb @ ml_providers lc,
               am_directives = ml_directives la @ ml_directives lb @ ml_directives lc,
               am_pipes = ml_pipes la @ ml_pipes lb @ ml_pipes lc,
               am_precompile = ml_precompile la @ ml_precompile lb @ ml_precompile lc,
               am_modules = [tyB, tyC]\<rparr>"
    and rt: "ty_runtime tyB = VType 11" "ty_runtime tyC = VType 12"
    and "s' = new_resolver\<lparr>anonymous := a6,
                appModuleCache := (appModuleCache new_resolver)
                  (VType 12 \<mapsto> flattenedModule tyC lc [],
                   VType 11 \<mapsto> flattenedModule tyB lb [flattenedModule tyC lc []],
                   VType 10 \<mapsto> m)\<rparr>"
    by (elim exE conjE) (rule that)
  from mm have mod: "am_modules m = [tyB, tyC]" by simp
  from sample_modules_twice obtain m2 s2' where
    run2: "getAppModuleMetadata 2 sample_env (VType 14) None new_resolver = Some (Inr m2, s2')"
    and ms2: "am_modules m2 = [sample_type_metadata 12, sample_type_metadata 12]"
    and ps2: "am_providers m2 = [EType (sample_type_metadata 24), EType (sample_type_metadata 22),
          EType (sample_type_metadata 22)]"
    by (auto split: option.splits prod.splits sum.splits)
  from module_flattening [where E = sample_env and s = new_resolver and n = 0
      and m = m2 and s' = s2'
      and P = "VType 14" and metaP = sample_module_E and Q = "VType 12"
      and metaQ = sample_module_C, THEN conjunct2, THEN conjunct2, THEN conjunct2,
      THEN conjunct2, THEN conjunct2, unfolded num]
  have "(\<exists>r t. getAppModuleMetadata 2 sample_env (VType 14) None new_resolver = Some (r, t)) \<and>
      (getAppModuleMetadata 2 sample_env (VType 14) None new_resolver = Some (Inr m2, s2')) =
      (\<exists>lp a1 lq a2 tyQ a3 tyP a4.
         declaredLists sample_env sample_module_E (anonymous new_resolver) = (Inr lp, a1) \<and>
         declaredLists sample_env sample_module_C a1 = (Inr lq, a2) \<and>
         getTypeMetadata sample_env (VType 12) (staticTypeModuleUrl (VType 12)) None a2
           = (Inr tyQ, a3) \<and>
         getTypeMetadata sample_env (VType 14) (staticTypeModuleUrl (VType 14)) None a3
           = (Inr tyP, a4) \<and>
         m2 = \<lparr>am_type = tyP,
               am_providers = ml_providers lp @ ml_providers lq @ ml_providers lq,
               am_directives = ml_directives lp @ ml_directives lq @ ml_directives lq,
               am_pipes = ml_pipes lp @ ml_pipes lq @ ml_pipes lq,
               am_precompile = ml_precompile lp @ ml_precompile lq @ ml_precompile lq,
               am_modules = [tyQ, tyQ]\<rparr> \<and>
         ty_runtime tyQ = VType 12 \<and>
         s2' = new_resolver\<lparr>anonymous := a4,
                appModuleCache := (appModuleCache new_resolver)
                  (VType 12 \<mapsto> flattenedModule tyQ lq [], VType 14 \<mapsto> m2)\<rparr>)"
    by (rule mp) (intro conjI n(4) n(3) miss(4) miss(3))
  from this [THEN conjunct2, THEN iffD1, OF run2]
  obtain lp a1 lq a2 tyQ a3 tyP a4 where
    "declaredLists sample_env sample_module_E (anonymous new_resolver) = (Inr lp, a1)"
    "declaredLists sample_env sample_module_C a1 = (Inr lq, a2)"
    "getTypeMetadata sample_env (VType 12) (staticTypeModuleUrl (VType 12)) None a2
       = (Inr tyQ, a3)"
    "getTypeMetadata sample_env (VType 14) (staticTypeModuleUrl (VType 14)) None a3
       = (Inr tyP, a4)"
    and mm2: "m2 = \<lparr>am_type = tyP,
               am_providers = ml_providers lp @ ml_providers lq @ ml_providers lq,
               am_directives = ml_directives lp @ ml_directives lq @ ml_directives lq,
               am_pipes = ml_pipes lp @ ml_pipes lq @ ml_pipes lq,
               am_precompile = ml_precompile lp @ ml_precompile lq @ ml_precompile lq,
               am_modules = [tyQ, tyQ]\<rparr>"
    and rq: "ty_runtime tyQ = VType 12"
    and "s2' = new_resolver\<lparr>anonymous := a4,
                appModuleCache := (appModuleCache new_resolver)
                  (VType 12 \<mapsto> flattenedModule tyQ lq [], VType 14 \<mapsto> m2)\<rparr>"
    by (elim exE conjE) (rule that)
  from mm2 have mod2: "am_modules m2 = [tyQ, tyQ]" by simp
  have 1: "\<exists>m s' tyB tyC l metas ty.
      getAppModuleMetadata 3 sample_env (VType 10) None new_resolver = Some (Inr m, s') \<and>
      getAppModuleMetadata (3 + 4) sample_env (VType 10) None new_resolver = Some (Inr m, s') \<and>
      m = flattenedModule ty l metas \<and> length metas = 1 \<and>
      am_modules m = [tyB, tyC] \<and> ty_runtime tyB = VType 11 \<and> ty_runtime tyC = VType 12 \<and>
      am_modules m = [sample_type_metadata 11, sample_type_metadata 12] \<and>
      am_providers m = [EType (sample_type_metadata 20), EType (sample_type_metadata 21),
        EType (sample_type_metadata 22)] \<and>
      getAppModuleMetadata 1 sample_env (VType 10) None s' = Some (Inr m, s')"
    by (rule exI [where x = m], rule exI [where x = s'], rule exI [where x = tyB],
        rule exI [where x = tyC], rule exI [where x = l], rule exI [where x = metas],
        rule exI [where x = ty], intro conjI)
      (rule run more fl len1 mod rt ms ps hit)+
  have 2: "\<exists>m s' tyQ.
      getAppModuleMetadata 2 sample_env (VType 14) None new_resolver = Some (Inr m, s') \<and>
      am_modules m = [tyQ, tyQ] \<and> ty_runtime tyQ = VType 12 \<and>
      am_modules m = [sample_type_metadata 12, sample_type_metadata 12] \<and>
      am_providers m = [EType (sample_type_metadata 24), EType (sample_type_metadata 22),
        EType (sample_type_metadata 22)]"
    by (rule exI [where x = m2], rule exI [where x = s2'], rule exI [where x = tyQ],
        intro conjI)
      (rule run2 mod2 rq ms2 ps2)+
  show ?thesis
    by (intro conjI) (rule n miss below 1 2)+
qed

end
